(* ===== verification/Prelude.thy ===== *)
theory Prelude
  imports Main "HOL-Library.Word"
begin

text \<open>
  What every component shares: JavaScript strings as lists of UTF-16 code units, the HTTP
  exceptions the use-cases throw, JSON values, and the generic lemmas on maps, lists and sums.
\<close>

section \<open>Types of the program\<close>

text \<open>
  A JavaScript string is a sequence of 16-bit code units; \<open>length\<close> counts code units, as
  \<open>String.prototype.length\<close> does. Literals are written \<open>js ''abc''\<close>; a code unit
  outside ASCII is written as a number. Identifiers (uuids, ObjectIds) are strings too.
  A \<open>Date\<close> is its time value, an integer number of milliseconds.
\<close>

type_synonym js_string = "16 word list"
type_synonym ident = js_string
type_synonym time = int

definition js :: "string \<Rightarrow> js_string" where
  "js s = map of_char s"

text \<open>
  The exceptions of \<open>@nestjs/common\<close> thrown by the use-cases, with their message, and
  \<open>InternalError\<close> for every other thrown \<open>Error\<close> that leaves a use-case (a 500).
\<close>

datatype http_error =
    BadRequest js_string
  | Unauthorized js_string
  | Forbidden js_string
  | NotFound js_string
  | Conflict js_string
  | Unprocessable js_string
  | TooManyRequests js_string int
  | BadGateway js_string
  | ServiceUnavailable js_string
  | InternalError js_string

text \<open>
  A JSON value. A number with an integral value is that integer, any other number its decimal
  text (what \<open>String(n)\<close> prints); an object is its list of own enumerable properties in order.
\<close>

datatype number = NInt int | NFrac js_string

datatype json =
    JNull
  | JBool bool
  | JNum number
  | JStr js_string
  | JArr "json list"
  | JObj "(js_string \<times> json) list"

type_synonym json_obj = "(js_string \<times> json) list"

section \<open>Shared lemmas\<close>

named_theorems store_simps \<open>lookup in a store after an operation\<close>
named_theorems frame_simps \<open>fields and rows an operation leaves alone\<close>

lemma of_char_16_inj: "(of_char c :: 16 word) = of_char d \<longleftrightarrow> c = d"
proof
  assume eq: "(of_char c :: 16 word) = of_char d"
  have "unat (of_char e :: 16 word) = of_char e" for e
  proof -
    have "(of_char e :: nat) < 256" by (cases e) (simp add: of_char_def horner_sum_of_bool_2_less)
    then have "(of_char e :: nat) mod 65536 = of_char e" by (intro mod_less) linarith
    then show ?thesis
      unfolding of_nat_of_char [of e, where ?'a = "16 word", symmetric] unat_of_nat by simp
  qed
  with eq show "c = d"
    by (metis of_char_eq_iff)
qed simp

lemma js_eq_iff [simp]: "js s = js t \<longleftrightarrow> s = t"
  unfolding js_def by (rule inj_map_eq_map) (simp add: inj_def of_char_16_inj)

lemma length_js [simp]: "length (js s) = length s"
  by (simp add: js_def)

lemma js_Nil [simp]: "js [] = []"
  by (simp add: js_def)

lemma js_eq_Nil [simp]: "js s = [] \<longleftrightarrow> s = []" "[] = js s \<longleftrightarrow> s = []"
  by (auto simp: js_def)

lemma js_append: "js (s @ t) = js s @ js t"
  by (simp add: js_def)

lemma find_append: "find p (xs @ ys) = (case find p xs of None \<Rightarrow> find p ys | Some x \<Rightarrow> Some x)"
  by (induction xs) auto

lemma map_sum_eq_iff [simp]:
  "map_sum f g x = Inr y \<longleftrightarrow> (\<exists>z. x = Inr z \<and> y = g z)"
  "map_sum f g x = Inl e \<longleftrightarrow> (\<exists>d. x = Inl d \<and> e = f d)"
  by (cases x; auto)+

end
