(* ===== verification/Stores.thy ===== *)
theory Stores
  imports Prelude "HOL-Library.Multiset"
begin

text \<open>
  The state of a database collection or table is a partial map from ids to rows. The one
  operation every repository builds on is the conditional update of a single row
  (\<open>findOneAndUpdate\<close> in MongoDB, \<open>UPDATE ... WHERE id = $1 AND guard\<close> in PostgreSQL):
  it is atomic, and reports the updated row or nothing. The locale states the contract of
  a family of such updates that compete for one row, and proves that a race between any
  number of them has one winner.
\<close>

type_synonym ('k, 'd) store = "'k \<rightharpoonup> 'd"

section \<open>A conditional update of one row\<close>

definition update_where ::
    "('d \<Rightarrow> bool) \<Rightarrow> ('d \<Rightarrow> 'd) \<Rightarrow> 'k \<Rightarrow> ('k, 'd) store \<Rightarrow> 'd option \<times> ('k, 'd) store" where
  "update_where guard upd k st =
     (case st k of
        None \<Rightarrow> (None, st)
      | Some d \<Rightarrow> if guard d then (Some (upd d), st(k \<mapsto> upd d)) else (None, st))"

lemma update_where_hit [store_simps]:
  "st k = Some d \<Longrightarrow> guard d \<Longrightarrow> update_where guard upd k st = (Some (upd d), st(k \<mapsto> upd d))"
  by (simp add: update_where_def)

lemma update_where_miss [store_simps]:
  "st k = Some d \<Longrightarrow> \<not> guard d \<Longrightarrow> update_where guard upd k st = (None, st)"
  by (simp add: update_where_def)

lemma update_where_absent [store_simps]:
  "st k = None \<Longrightarrow> update_where guard upd k st = (None, st)"
  by (simp add: update_where_def)

lemma update_where_frame [frame_simps]:
  "j \<noteq> k \<Longrightarrow> snd (update_where guard upd k st) j = st j"
  by (simp add: update_where_def split: option.splits)

lemma update_where_SomeE:
  assumes "update_where guard upd k st = (Some d', st')"
  obtains d where "st k = Some d" "guard d" "d' = upd d" "st' = st(k \<mapsto> upd d)"
  using assms by (auto simp: update_where_def split: option.splits if_splits)

lemma update_where_NoneD:
  "update_where guard upd k st = (None, st') \<Longrightarrow> st' = st \<and> (\<forall>d. st k = Some d \<longrightarrow> \<not> guard d)"
  by (auto simp: update_where_def split: option.splits if_splits)

section \<open>Races between conditional updates\<close>

text \<open>How many of a sequence of attempts succeed, each run on the state the last one left.\<close>

primrec wins :: "('s \<Rightarrow> 'r option \<times> 's) list \<Rightarrow> 's \<Rightarrow> nat" where
  "wins [] s = 0"
| "wins (f # fs) s = (if fst (f s) = None then 0 else 1) + wins fs (snd (f s))"

text \<open>
  Something that can be spent: a success needs it unspent and spends it, and what is spent stays so and
  makes every attempt fail. Operations that never succeed may do anything else.
\<close>

locale single_use =
  fixes spent :: "'s \<Rightarrow> bool"
    and ops :: "('s \<Rightarrow> 'r option \<times> 's) set"
  assumes spends: "f \<in> ops \<Longrightarrow> f s = (Some r, s') \<Longrightarrow> spent s'"
    and stays: "f \<in> ops \<Longrightarrow> f s = (q, s') \<Longrightarrow> spent s \<Longrightarrow> q = None \<and> spent s'"
begin

lemma no_wins_spent: "set fs \<subseteq> ops \<Longrightarrow> spent s \<Longrightarrow> wins fs s = 0"
proof (induction fs arbitrary: s)
  case (Cons f fs)
  obtain r s' where "f s = (r, s')" by force
  with Cons stays [of f s r s'] show ?case by simp
qed simp

lemma wins_at_most_once: "set fs \<subseteq> ops \<Longrightarrow> wins fs s \<le> 1"
proof (induction fs arbitrary: s)
  case (Cons f fs)
  obtain r s' where f: "f s = (r, s')" by force
  show ?case
  proof (cases r)
    case None
    with Cons f show ?thesis by simp
  next
    case (Some x)
    with Cons f spends [of f s x s'] have "spent s'" by simp
    with Cons f Some no_wins_spent [of fs s'] show ?thesis by simp
  qed
qed simp

end

locale guarded_updates =
  fixes row :: "'s \<Rightarrow> 'd option"
    and guard :: "'d \<Rightarrow> bool"
    and ops :: "('s \<Rightarrow> 'r option \<times> 's) set"
  assumes won: "f \<in> ops \<Longrightarrow> f s = (Some r, s') \<Longrightarrow>
      (\<exists>d. row s = Some d \<and> guard d) \<and> (\<exists>d. row s' = Some d \<and> \<not> guard d)"
    and lost: "f \<in> ops \<Longrightarrow> f s = (None, s') \<Longrightarrow>
      s' = s \<and> (\<forall>d. row s = Some d \<longrightarrow> \<not> guard d)"
begin

lemma loses_without_guard:
  assumes "f \<in> ops" and "\<forall>d. row s = Some d \<longrightarrow> \<not> guard d"
  shows "f s = (None, s)"
proof (cases "f s")
  case (Pair r s')
  show ?thesis
  proof (cases r)
    case None
    with Pair assms(1) show ?thesis by (auto dest: lost)
  next
    case (Some x)
    with Pair assms show ?thesis by (auto dest: won)
  qed
qed

lemma no_wins_without_guard:
  "set fs \<subseteq> ops \<Longrightarrow> \<forall>d. row s = Some d \<longrightarrow> \<not> guard d \<Longrightarrow> wins fs s = 0"
  by (induction fs) (simp_all add: loses_without_guard)

lemma wins_once:
  assumes "set fs \<subseteq> ops"
  shows "wins fs s = (if fs \<noteq> [] \<and> (\<exists>d. row s = Some d \<and> guard d) then 1 else 0)"
proof (cases "\<exists>d. row s = Some d \<and> guard d")
  case False
  then show ?thesis using no_wins_without_guard [OF assms] by auto
next
  case True
  show ?thesis
  proof (cases fs)
    case Nil
    then show ?thesis by simp
  next
    case (Cons f gs)
    with assms have f: "f \<in> ops" and gs: "set gs \<subseteq> ops" by auto
    obtain r s' where rs: "f s = (r, s')" by force
    with f True obtain x where r: "r = Some x" by (cases r) (auto dest: lost)
    from won [OF f rs [unfolded r]] have "\<forall>d. row s' = Some d \<longrightarrow> \<not> guard d" by auto
    from no_wins_without_guard [OF gs this] show ?thesis
      using Cons True rs r by simp
  qed
qed

end

text \<open>A guard that a won update makes false is spent by it.\<close>

sublocale guarded_updates \<subseteq> spending: single_use "\<lambda>s. \<not> (\<exists>d. row s = Some d \<and> guard d)" ops
proof
  show "\<not> (\<exists>d. row s' = Some d \<and> guard d)" if "f \<in> ops" "f s = (Some r, s')" for f s r s'
    using won [OF that] by auto
  show "q = None \<and> \<not> (\<exists>d. row s' = Some d \<and> guard d)"
    if "f \<in> ops" "f s = (q, s')" "\<not> (\<exists>d. row s = Some d \<and> guard d)" for f s q s'
    using that loses_without_guard [of f s] by auto
qed

text \<open>
  Updates that compete for one row: each is an \<open>update_where\<close> on the same key with the same
  guard, its update makes the guard false, and it answers the updated row through some view.
\<close>

definition competing ::
    "('d \<Rightarrow> bool) \<Rightarrow> 'k \<Rightarrow> (('k, 'd) store \<Rightarrow> 'r option \<times> ('k, 'd) store) \<Rightarrow> bool" where
  "competing guard k f \<longleftrightarrow> (\<exists>upd view. (\<forall>d. guard d \<longrightarrow> \<not> guard (upd d)) \<and>
     (\<forall>st. f st = (map_option view (fst (update_where guard upd k st)),
                  snd (update_where guard upd k st))))"

lemma competingI:
  assumes "\<And>st. f st = (map_option view (fst (update_where guard upd k st)),
                      snd (update_where guard upd k st))"
    and "\<And>d. guard d \<Longrightarrow> \<not> guard (upd d)"
  shows "competing guard k f"
  using assms unfolding competing_def by blast

lemma guarded_by_update_where:
  assumes "\<And>f. f \<in> ops \<Longrightarrow> competing guard k f"
  shows "guarded_updates (\<lambda>st. st k) guard ops"
proof
  fix f s r s'
  assume f: "f \<in> ops"
  then obtain upd view where out: "\<And>d. guard d \<Longrightarrow> \<not> guard (upd d)"
    and f_def: "\<And>st. f st = (map_option view (fst (update_where guard upd k st)),
                           snd (update_where guard upd k st))"
    using assms unfolding competing_def by blast
  show "(\<exists>d. s k = Some d \<and> guard d) \<and> (\<exists>d. s' k = Some d \<and> \<not> guard d)" if "f s = (Some r, s')"
    using that out unfolding f_def
    by (auto simp: update_where_def split: option.splits if_splits)
  show "s' = s \<and> (\<forall>d. s k = Some d \<longrightarrow> \<not> guard d)" if "f s = (None, s')"
    using that unfolding f_def by (auto simp: update_where_def split: option.splits if_splits)
qed

section \<open>Tables\<close>

text \<open>
  A table that is also searched by other columns is a list of rows in insertion order. The SQL
  the repositories use is then: \<open>SELECT ... WHERE p\<close> is \<open>filter p\<close> (\<open>find p\<close> for one row),
  \<open>UPDATE ... WHERE p\<close> is \<open>sql_update\<close>, \<open>DELETE ... WHERE p\<close> is \<open>sql_delete\<close> and
  \<open>INSERT\<close> appends.
\<close>

definition sql_update :: "('r \<Rightarrow> bool) \<Rightarrow> ('r \<Rightarrow> 'r) \<Rightarrow> 'r list \<Rightarrow> 'r list" where
  "sql_update p f t = map (\<lambda>r. if p r then f r else r) t"

definition sql_delete :: "('r \<Rightarrow> bool) \<Rightarrow> 'r list \<Rightarrow> 'r list" where
  "sql_delete p t = filter (\<lambda>r. \<not> p r) t"

lemma sql_update_Nil [simp]: "sql_update p f [] = []"
  by (simp add: sql_update_def)

lemma sql_update_Cons [simp]:
  "sql_update p f (r # t) = (if p r then f r else r) # sql_update p f t"
  by (simp add: sql_update_def)

lemma length_sql_update [simp]: "length (sql_update p f t) = length t"
  by (simp add: sql_update_def)

lemma set_sql_update: "set (sql_update p f t) = (\<lambda>r. if p r then f r else r) ` set t"
  by (simp add: sql_update_def)

lemma set_sql_delete [simp]: "set (sql_delete p t) = {r \<in> set t. \<not> p r}"
  by (simp add: sql_delete_def)

lemma sql_update_none: "\<forall>r \<in> set t. \<not> p r \<Longrightarrow> sql_update p f t = t"
  by (induction t) auto

lemma map_sql_update [frame_simps]:
  "(\<And>r. g (f r) = g r) \<Longrightarrow> map g (sql_update p f t) = map g t"
  by (simp add: sql_update_def)

lemma find_sql_update_key:
  assumes "\<And>r. key (f r) = key r"
  shows "find (\<lambda>r. key r = k) (sql_update p f t) =
    map_option (\<lambda>r. if p r then f r else r) (find (\<lambda>r. key r = k) t)"
  by (induction t) (auto simp: assms)

lemma find_SomeD: "find p t = Some r \<Longrightarrow> r \<in> set t \<and> p r"
  by (induction t) (auto split: if_splits)

lemma find_NoneD: "find p t = None \<Longrightarrow> \<forall>r \<in> set t. \<not> p r"
  by (auto simp: find_None_iff)

text \<open>Rows with distinct sort keys are listed in the same order, whatever order they are stored in.\<close>

lemma sort_key_mset_eq:
  assumes "mset xs = mset ys" and "inj_on f (set xs)"
  shows "sort_key f xs = sort_key f ys"
proof (rule properties_for_sort_key)
  show "mset (sort_key f ys) = mset xs" using assms(1) by simp
  show "sorted (map f (sort_key f ys))" by simp
  fix k
  have sets: "set ys = set xs" using assms(1) by (metis mset_eq_setD)
  show "filter (\<lambda>x. f k = f x) (sort_key f ys) = filter (\<lambda>x. f k = f x) xs" if "k \<in> set (sort_key f ys)"
  proof -
    have k: "k \<in> set xs" using that sets by simp
    have only: "filter (\<lambda>x. f k = f x) zs = replicate (count (mset zs) k) k" if "set zs = set xs" for zs
    proof -
      have "filter (\<lambda>x. f k = f x) zs = filter (\<lambda>x. x = k) zs"
        using assms(2) k that by (intro filter_cong) (auto dest: inj_onD)
      also have "\<dots> = replicate (count (mset zs) k) k"
        by (induction zs) auto
      finally show ?thesis .
    qed
    have "filter (\<lambda>x. f k = f x) (sort_key f ys) = filter (\<lambda>x. f k = f x) ys"
      using only [of "sort_key f ys"] only [of ys] sets by simp
    then show ?thesis using only [of ys] only [of xs] sets assms(1) by simp
  qed
qed

section \<open>Access by the owner\<close>

text \<open>
  The contract of the use-cases that act on a resource for a user: on a resource that is missing or
  belongs to someone else they refuse, with an answer that depends on the id alone, and write
  nothing.
\<close>

locale owner_scoped =
  fixes owner :: "'s \<Rightarrow> ident \<Rightarrow> ident option"
    and refusal :: "ident \<Rightarrow> http_error"
    and ops :: "(ident \<Rightarrow> ident \<Rightarrow> 's \<Rightarrow> (http_error + unit) \<times> 's) set"
  assumes refused: "f \<in> ops \<Longrightarrow> owner s i \<noteq> Some u \<Longrightarrow> f u i s = (Inl (refusal i), s)"
begin

lemma hides_existence:
  "f \<in> ops \<Longrightarrow> owner s i \<noteq> Some u \<Longrightarrow> owner s' i = None \<Longrightarrow> fst (f u i s) = fst (f u i s')"
  by (simp add: refused)

lemma change_by_owner: "f \<in> ops \<Longrightarrow> snd (f u i s) \<noteq> s \<Longrightarrow> owner s i = Some u"
  using refused [of f s i u] by fastforce

text \<open>Any sequence of calls by someone who owns none of the named resources.\<close>

lemma intruder_run:
  assumes "\<forall>(f, i) \<in> set calls. f \<in> ops \<and> owner s i \<noteq> Some u"
  shows "fold (\<lambda>(f, i) s. snd (f u i s)) calls s = s"
  using assms by (induction calls) (auto simp: refused)

end

text \<open>The answer of a use-case without its value, so that all of them can share the contract.\<close>

definition answer_only ::
    "('s \<Rightarrow> (http_error + 'a) \<times> 's) \<Rightarrow> 's \<Rightarrow> (http_error + unit) \<times> 's" where
  "answer_only f s = (map_sum id (\<lambda>_. ()) (fst (f s)), snd (f s))"

lemma answer_only_Inl: "f s = (Inl e, s') \<Longrightarrow> answer_only f s = (Inl e, s')"
  by (simp add: answer_only_def)

end
