(* ===== verification/PlanningJobs.thy ===== *)
theory PlanningJobs
  imports Stores "HOL-Library.Sublist"
begin

text \<open>
  The planning job and its MongoDB repository
  (\<open>domain/context/planning-job.ts\<close>,
  \<open>infrastructure/persistence/context/planning-job.schema.ts\<close> and
  \<open>planning-job.mongoose.repository.ts\<close>): the stored document, the domain entity, and one
  definition per repository method over a store of documents. A call takes the time
  \<open>now\<close> that the code reads with \<open>new Date()\<close>. An id that is no ObjectId is in no
  store, which is how \<open>runIdQuery\<close> answers it.
\<close>

section \<open>Data\<close>

datatype job_status = Pending | Running | Gathering | Planning | Completed | Failed

record data_chunk =
  dc_sequence :: int
  dc_provider :: js_string
  dc_content :: js_string
  dc_tokenEstimate :: "number option"

record planning_job_doc =
  pd_user_id :: ident
  pd_document_id :: "ident option"
  pd_section_id :: "ident option"
  pd_status :: job_status
  pd_prompt :: js_string
  pd_connectors :: "js_string list"
  pd_prompt_version :: "js_string option"
  pd_context_used :: "json_obj option"
  pd_result :: "json_obj option"
  pd_error_code :: "js_string option"
  pd_error_message :: "js_string option"
  pd_created_at :: time
  pd_started_at :: "time option"
  pd_finished_at :: "time option"
  pd_chunk_sequences :: "int list"
  pd_data_chunks :: "data_chunk list"
  pd_model :: "js_string option"

record planning_job =
  pj_id :: ident
  pj_userId :: ident
  pj_documentId :: "ident option"
  pj_sectionId :: "ident option"
  pj_status :: job_status
  pj_prompt :: js_string
  pj_connectors :: "js_string list"
  pj_promptVersion :: "js_string option"
  pj_model :: "js_string option"
  pj_contextUsed :: "json_obj option"
  pj_result :: "json_obj option"
  pj_errorCode :: "js_string option"
  pj_errorMessage :: "js_string option"
  pj_createdAt :: time
  pj_startedAt :: "time option"
  pj_finishedAt :: "time option"
  pj_dataChunks :: "data_chunk list"

type_synonym job_store = "(ident, planning_job_doc) store"

record create_job_data =
  cj_userId :: ident
  cj_prompt :: js_string
  cj_connectors :: "js_string list"
  cj_documentId :: "ident option"
  cj_sectionId :: "ident option"

text \<open>
  A field of the status patch is \<open>None\<close> when it is \<open>undefined\<close> (left alone) and
  \<open>Some v\<close> when it is set, to \<open>null\<close> (\<open>Some None\<close>) or to a value.
\<close>

record status_patch =
  sp_status :: job_status
  sp_result :: "json_obj option option"
  sp_errorCode :: "js_string option option"
  sp_errorMessage :: "js_string option option"
  sp_startedAt :: "time option option"
  sp_finishedAt :: "time option option"
  sp_promptVersion :: "js_string option option"
  sp_model :: "js_string option option"
  sp_contextUsed :: "json_obj option option"

record append_chunk_data =
  ac_sequence :: int
  ac_data :: "(js_string \<times> js_string \<times> number option) option"
    \<comment> \<open>provider, content and token estimate; \<open>None\<close> for a status chunk\<close>

definition patch_status :: "job_status \<Rightarrow> status_patch" where
  "patch_status s = \<lparr>sp_status = s, sp_result = None, sp_errorCode = None, sp_errorMessage = None,
     sp_startedAt = None, sp_finishedAt = None, sp_promptVersion = None, sp_model = None,
     sp_contextUsed = None\<rparr>"

section \<open>Repository operations\<close>

definition to_domain :: "ident \<Rightarrow> planning_job_doc \<Rightarrow> planning_job" where
  "to_domain i d = \<lparr>pj_id = i, pj_userId = pd_user_id d, pj_documentId = pd_document_id d,
     pj_sectionId = pd_section_id d, pj_status = pd_status d, pj_prompt = pd_prompt d,
     pj_connectors = pd_connectors d, pj_promptVersion = pd_prompt_version d,
     pj_model = pd_model d, pj_contextUsed = pd_context_used d, pj_result = pd_result d,
     pj_errorCode = pd_error_code d, pj_errorMessage = pd_error_message d,
     pj_createdAt = pd_created_at d, pj_startedAt = pd_started_at d,
     pj_finishedAt = pd_finished_at d, pj_dataChunks = pd_data_chunks d\<rparr>"

definition new_job_doc :: "create_job_data \<Rightarrow> time \<Rightarrow> planning_job_doc" where
  "new_job_doc data now = \<lparr>pd_user_id = cj_userId data, pd_document_id = cj_documentId data,
     pd_section_id = cj_sectionId data, pd_status = Pending, pd_prompt = cj_prompt data,
     pd_connectors = cj_connectors data, pd_prompt_version = None, pd_context_used = None,
     pd_result = None, pd_error_code = None, pd_error_message = None, pd_created_at = now,
     pd_started_at = None, pd_finished_at = None, pd_chunk_sequences = [], pd_data_chunks = [],
     pd_model = None\<rparr>"

definition create_job :: "ident \<Rightarrow> create_job_data \<Rightarrow> time \<Rightarrow> job_store \<Rightarrow> planning_job \<times> job_store" where
  "create_job new_id data now st =
     (let d = new_job_doc data now in (to_domain new_id d, st(new_id \<mapsto> d)))"

definition find_job :: "ident \<Rightarrow> job_store \<Rightarrow> planning_job option" where
  "find_job i st = map_option (to_domain i) (st i)"

definition set_field :: "'a option \<Rightarrow> 'a \<Rightarrow> 'a" where
  "set_field p old = (case p of None \<Rightarrow> old | Some v \<Rightarrow> v)"

definition apply_patch :: "status_patch \<Rightarrow> planning_job_doc \<Rightarrow> planning_job_doc" where
  "apply_patch p d = d\<lparr>pd_status := sp_status p,
     pd_result := set_field (sp_result p) (pd_result d),
     pd_error_code := set_field (sp_errorCode p) (pd_error_code d),
     pd_error_message := set_field (sp_errorMessage p) (pd_error_message d),
     pd_started_at := set_field (sp_startedAt p) (pd_started_at d),
     pd_finished_at := set_field (sp_finishedAt p) (pd_finished_at d),
     pd_prompt_version := set_field (sp_promptVersion p) (pd_prompt_version d),
     pd_model := set_field (sp_model p) (pd_model d),
     pd_context_used := set_field (sp_contextUsed p) (pd_context_used d)\<rparr>"

definition domain_result ::
    "ident \<Rightarrow> planning_job_doc option \<times> job_store \<Rightarrow> planning_job option \<times> job_store" where
  "domain_result i r = (map_option (to_domain i) (fst r), snd r)"

definition update_status ::
    "ident \<Rightarrow> status_patch \<Rightarrow> job_store \<Rightarrow> planning_job option \<times> job_store" where
  "update_status i p st = domain_result i (update_where (\<lambda>_. True) (apply_patch p) i st)"

definition claim_for_processing ::
    "ident \<Rightarrow> time \<Rightarrow> job_store \<Rightarrow> planning_job option \<times> job_store" where
  "claim_for_processing i now st = domain_result i
     (update_where (\<lambda>d. pd_status d = Pending)
        (\<lambda>d. d\<lparr>pd_status := Running, pd_started_at := Some now\<rparr>) i st)"

definition claim_for_gathering ::
    "ident \<Rightarrow> time \<Rightarrow> job_store \<Rightarrow> planning_job option \<times> job_store" where
  "claim_for_gathering i now st = domain_result i
     (update_where (\<lambda>d. pd_status d = Pending)
        (\<lambda>d. d\<lparr>pd_status := Gathering, pd_started_at := Some now\<rparr>) i st)"

definition push_chunk :: "append_chunk_data \<Rightarrow> planning_job_doc \<Rightarrow> planning_job_doc" where
  "push_chunk c d = d\<lparr>pd_chunk_sequences := pd_chunk_sequences d @ [ac_sequence c],
     pd_data_chunks := pd_data_chunks d @
       (case ac_data c of
          None \<Rightarrow> []
        | Some (provider, content, estimate) \<Rightarrow>
            [\<lparr>dc_sequence = ac_sequence c, dc_provider = provider, dc_content = content,
              dc_tokenEstimate = estimate\<rparr>])\<rparr>"

definition append_result_chunk ::
    "ident \<Rightarrow> append_chunk_data \<Rightarrow> job_store \<Rightarrow> (bool \<times> planning_job option) \<times> job_store" where
  "append_result_chunk i c st =
     (case update_where (\<lambda>d. ac_sequence c \<notin> set (pd_chunk_sequences d)) (push_chunk c) i st of
        (Some d, st') \<Rightarrow> ((True, Some (to_domain i d)), st')
      | (None, st') \<Rightarrow> ((False, find_job i st'), st'))"

definition claim_for_planning ::
    "ident \<Rightarrow> json_obj \<Rightarrow> job_store \<Rightarrow> planning_job option \<times> job_store" where
  "claim_for_planning i context_used st = domain_result i
     (update_where (\<lambda>d. pd_status d = Gathering)
        (\<lambda>d. d\<lparr>pd_status := Planning, pd_context_used := Some context_used\<rparr>) i st)"

definition fail_if_still_gathering ::
    "ident \<Rightarrow> js_string \<Rightarrow> js_string \<Rightarrow> time \<Rightarrow> job_store \<Rightarrow> planning_job option \<times> job_store" where
  "fail_if_still_gathering i code msg now st = domain_result i
     (update_where (\<lambda>d. pd_status d = Gathering)
        (\<lambda>d. d\<lparr>pd_status := Failed, pd_error_code := Some code, pd_error_message := Some msg,
               pd_finished_at := Some now\<rparr>) i st)"

section \<open>Lemmas\<close>

lemma to_domain_sel [simp]:
  "pj_id (to_domain i d) = i" "pj_userId (to_domain i d) = pd_user_id d"
  "pj_status (to_domain i d) = pd_status d" "pj_result (to_domain i d) = pd_result d"
  "pj_errorCode (to_domain i d) = pd_error_code d"
  "pj_errorMessage (to_domain i d) = pd_error_message d"
  "pj_dataChunks (to_domain i d) = pd_data_chunks d"
  "pj_contextUsed (to_domain i d) = pd_context_used d"
  "pj_connectors (to_domain i d) = pd_connectors d"
  by (simp_all add: to_domain_def)

lemma apply_patch_sel [simp]:
  "pd_status (apply_patch p d) = sp_status p" "pd_user_id (apply_patch p d) = pd_user_id d"
  "pd_result (apply_patch p d) = set_field (sp_result p) (pd_result d)"
  "pd_error_code (apply_patch p d) = set_field (sp_errorCode p) (pd_error_code d)"
  "pd_error_message (apply_patch p d) = set_field (sp_errorMessage p) (pd_error_message d)"
  "pd_context_used (apply_patch p d) = set_field (sp_contextUsed p) (pd_context_used d)"
  "pd_chunk_sequences (apply_patch p d) = pd_chunk_sequences d"
  "pd_data_chunks (apply_patch p d) = pd_data_chunks d"
  "pd_finished_at (apply_patch p d) = set_field (sp_finishedAt p) (pd_finished_at d)"
  by (simp_all add: apply_patch_def)

lemma patch_status_sel [simp]:
  "sp_status (patch_status s) = s" "sp_result (patch_status s) = None"
  "sp_errorCode (patch_status s) = None" "sp_errorMessage (patch_status s) = None"
  "sp_contextUsed (patch_status s) = None" "sp_finishedAt (patch_status s) = None"
  by (simp_all add: patch_status_def)

lemma set_field_simps [simp]: "set_field None x = x" "set_field (Some v) x = v"
  by (simp_all add: set_field_def)

lemma push_chunk_sel [simp]:
  "pd_status (push_chunk c d) = pd_status d" "pd_user_id (push_chunk c d) = pd_user_id d"
  "pd_chunk_sequences (push_chunk c d) = pd_chunk_sequences d @ [ac_sequence c]"
  "pd_error_code (push_chunk c d) = pd_error_code d" "pd_result (push_chunk c d) = pd_result d"
  by (simp_all add: push_chunk_def)

lemmas job_ops = update_status_def claim_for_processing_def claim_for_gathering_def
  claim_for_planning_def fail_if_still_gathering_def domain_result_def

subsection \<open>Competing claims\<close>

definition pending_claims ::
    "ident \<Rightarrow> (job_store \<Rightarrow> planning_job option \<times> job_store) set" where
  "pending_claims i = range (claim_for_processing i) \<union> range (claim_for_gathering i)"

definition gathering_exits ::
    "ident \<Rightarrow> (job_store \<Rightarrow> planning_job option \<times> job_store) set" where
  "gathering_exits i = range (claim_for_planning i) \<union>
     {fail_if_still_gathering i code msg now | code msg now. True}"

text \<open>The append of one sequence number, as an operation that answers the job if it was recorded.\<close>

definition append_attempt ::
    "ident \<Rightarrow> append_chunk_data \<Rightarrow> job_store \<Rightarrow> planning_job option \<times> job_store" where
  "append_attempt i c st =
     (case append_result_chunk i c st of ((applied, j), st') \<Rightarrow> (if applied then j else None, st'))"

definition appends :: "ident \<Rightarrow> int \<Rightarrow> (job_store \<Rightarrow> planning_job option \<times> job_store) set" where
  "appends i n = append_attempt i ` {c. ac_sequence c = n}"

interpretation pending: guarded_updates "\<lambda>st. st i" "\<lambda>d. pd_status d = Pending" "pending_claims i"
  for i :: ident
proof (rule guarded_by_update_where)
  fix f assume "f \<in> pending_claims i"
  then consider now where "f = claim_for_processing i now" | now where "f = claim_for_gathering i now"
    by (auto simp: pending_claims_def)
  then show "competing (\<lambda>d. pd_status d = Pending) i f"
    by cases (rule competingI, simp add: job_ops, simp)+
qed

interpretation gathering: guarded_updates "\<lambda>st. st i" "\<lambda>d. pd_status d = Gathering" "gathering_exits i"
  for i :: ident
proof (rule guarded_by_update_where)
  fix f assume "f \<in> gathering_exits i"
  then consider ctx where "f = claim_for_planning i ctx"
    | code msg now where "f = fail_if_still_gathering i code msg now"
    by (auto simp: gathering_exits_def)
  then show "competing (\<lambda>d. pd_status d = Gathering) i f"
    by cases (rule competingI, simp add: job_ops, simp)+
qed

interpretation append: guarded_updates "\<lambda>st. st i" "\<lambda>d. n \<notin> set (pd_chunk_sequences d)" "appends i n"
  for i :: ident and n :: int
proof (rule guarded_by_update_where)
  fix f assume "f \<in> appends i n"
  then obtain c where c: "ac_sequence c = n" "f = append_attempt i c"
    by (auto simp: appends_def)
  show "competing (\<lambda>d. n \<notin> set (pd_chunk_sequences d)) i f"
  proof (rule competingI)
    show "f st = (map_option (to_domain i)
        (fst (update_where (\<lambda>d. n \<notin> set (pd_chunk_sequences d)) (push_chunk c) i st)),
      snd (update_where (\<lambda>d. n \<notin> set (pd_chunk_sequences d)) (push_chunk c) i st))" for st
      using c by (auto simp: append_attempt_def append_result_chunk_def update_where_def
          split: option.splits)
  qed (simp add: c)
qed

subsection \<open>The record of chunks\<close>

text \<open>
  Every sequence number is recorded once, and the data chunks are those of the recorded numbers
  that carried data, in the order they arrived.
\<close>

definition chunks_ok :: "planning_job_doc \<Rightarrow> bool" where
  "chunks_ok d \<longleftrightarrow> distinct (pd_chunk_sequences d) \<and>
     subseq (map dc_sequence (pd_data_chunks d)) (pd_chunk_sequences d)"

definition jobs_ok :: "job_store \<Rightarrow> bool" where
  "jobs_ok st \<longleftrightarrow> (\<forall>i d. st i = Some d \<longrightarrow> chunks_ok d)"

lemma chunks_ok_distinct: "chunks_ok d \<Longrightarrow> distinct (map dc_sequence (pd_data_chunks d))"
  by (auto simp: chunks_ok_def subseq_conv_nths simp del: distinct_map)

lemma chunks_ok_push:
  assumes "chunks_ok d" and "ac_sequence c \<notin> set (pd_chunk_sequences d)"
  shows "chunks_ok (push_chunk c d)"
proof (cases "ac_data c")
  case None
  with assms show ?thesis
    by (simp add: chunks_ok_def push_chunk_def subseq_rev_drop_many list_emb_append2)
next
  case (Some x)
  with assms show ?thesis
    by (cases x) (auto simp: chunks_ok_def push_chunk_def subseq_append')
qed

lemma jobs_ok_update_where:
  assumes "jobs_ok st" and "update_where guard upd i st = (r, st')"
    and "\<And>d. guard d \<Longrightarrow> chunks_ok d \<Longrightarrow> chunks_ok (upd d)"
  shows "jobs_ok st'"
  using assms unfolding jobs_ok_def update_where_def
  by (auto split: option.splits if_splits)

lemma jobs_ok_domain_result:
  assumes "jobs_ok st"
    and "\<And>d. chunks_ok d \<Longrightarrow> chunks_ok (upd d)"
  shows "jobs_ok (snd (domain_result i (update_where guard upd i st)))"
  using jobs_ok_update_where [of st guard upd i "fst (update_where guard upd i st)"
      "snd (update_where guard upd i st)"] assms
  by (simp add: domain_result_def)

lemma jobs_ok_ops:
  assumes "jobs_ok st"
  shows "jobs_ok (snd (create_job i data now st))"
    and "jobs_ok (snd (update_status i p st))"
    and "jobs_ok (snd (claim_for_processing i now st))"
    and "jobs_ok (snd (claim_for_gathering i now st))"
    and "jobs_ok (snd (claim_for_planning i ctx st))"
    and "jobs_ok (snd (fail_if_still_gathering i code msg now st))"
    and "jobs_ok (snd (append_result_chunk i c st))"
proof -
  show "jobs_ok (snd (create_job i data now st))"
    using assms by (simp add: jobs_ok_def create_job_def Let_def new_job_doc_def chunks_ok_def)
  show "jobs_ok (snd (update_status i p st))"
    unfolding update_status_def using assms
    by (rule jobs_ok_domain_result) (simp add: chunks_ok_def)
  show "jobs_ok (snd (claim_for_processing i now st))"
    unfolding claim_for_processing_def using assms
    by (rule jobs_ok_domain_result) (simp add: chunks_ok_def)
  show "jobs_ok (snd (claim_for_gathering i now st))"
    unfolding claim_for_gathering_def using assms
    by (rule jobs_ok_domain_result) (simp add: chunks_ok_def)
  show "jobs_ok (snd (claim_for_planning i ctx st))"
    unfolding claim_for_planning_def using assms
    by (rule jobs_ok_domain_result) (simp add: chunks_ok_def)
  show "jobs_ok (snd (fail_if_still_gathering i code msg now st))"
    unfolding fail_if_still_gathering_def using assms
    by (rule jobs_ok_domain_result) (simp add: chunks_ok_def)
  let ?guard = "\<lambda>d. ac_sequence c \<notin> set (pd_chunk_sequences d)"
  show "jobs_ok (snd (append_result_chunk i c st))"
    using jobs_ok_update_where [of st ?guard "push_chunk c" i] assms chunks_ok_push
    by (auto simp: append_result_chunk_def split: prod.split option.split)
qed

section \<open>Properties\<close>

text \<open>Whatever queue workers, on either transport, compete for one job and in whatever order
  their claims reach the store, exactly one of them claims a pending job, and none claims a job
  that is missing or no longer pending.\<close>

theorem job_claimed_once:
  assumes "set fs \<subseteq> pending_claims i"
  shows "wins fs st = (if fs \<noteq> [] \<and> (\<exists>d. st i = Some d \<and> pd_status d = Pending) then 1 else 0)"
  by (rule pending.wins_once [OF assms])

definition sample_data :: create_job_data where
  "sample_data = \<lparr>cj_userId = js ''u'', cj_prompt = js ''p'', cj_connectors = [],
     cj_documentId = None, cj_sectionId = None\<rparr>"

definition sample_store :: "job_status \<Rightarrow> job_store" where
  "sample_store s = [js ''j'' \<mapsto> (new_job_doc sample_data 0)\<lparr>pd_status := s\<rparr>]"

lemma sample_store_simps [simp]:
  "sample_store s (js ''j'') = Some ((new_job_doc sample_data 0)\<lparr>pd_status := s\<rparr>)"
  by (simp add: sample_store_def)

theorem job_claimed_once_witness:
  "wins [claim_for_processing (js ''j'') 5, claim_for_gathering (js ''j'') 6,
      claim_for_processing (js ''j'') 7] (sample_store Pending) = 1"
  using job_claimed_once [of "[claim_for_processing (js ''j'') 5, claim_for_gathering (js ''j'') 6,
      claim_for_processing (js ''j'') 7]" "js ''j''" "sample_store Pending"]
  by (simp add: pending_claims_def)



text \<open>C11: However often the deliveries of one sequence number are repeated, and whatever they
  carry, one of them is recorded, and none if the number is already on the job.\<close>

theorem chunk_recorded_once:
  assumes "set fs \<subseteq> appends i n"
  shows "wins fs st =
    (if fs \<noteq> [] \<and> (\<exists>d. st i = Some d \<and> n \<notin> set (pd_chunk_sequences d)) then 1 else 0)"
  by (rule append.wins_once [OF assms])

theorem chunk_recorded_once_witness:
  "wins (replicate 3 (append_attempt (js ''j'') \<lparr>ac_sequence = 4, ac_data = None\<rparr>))
     (sample_store Gathering) = 1"
  using chunk_recorded_once [of "replicate 3 (append_attempt (js ''j'') \<lparr>ac_sequence = 4, ac_data = None\<rparr>)"
      "js ''j''" 4 "sample_store Gathering"]
  by (simp add: appends_def new_job_doc_def)

end
