(* ===== verification/AppErrors.thy ===== *)
theory AppErrors
  imports Prelude
begin

text \<open>
  The typed errors of the AI and planning features (\<open>domain/context/planning-errors.ts\<close>,
  \<open>domain/ai/ai-quota.errors.ts\<close>, \<open>domain/ai/suggestion-generation.errors.ts\<close>): which
  text and code of a failure may be stored on a job and shown to a client.
\<close>

datatype app_error =
    PlanningOutputInvalid js_string
  | PlanningOutputRejected js_string
  | JobUserInactive js_string
  | JobConsentRequired js_string
  | AiQuotaExceeded int
  | AiQuotaUnavailable
  | GenerationProvider js_string
  | GenerationRefused js_string
  | GenerationTruncated js_string
  | GeneratorRateLimited js_string "js_string option"
  | GeneratorUnavailable js_string
  | OtherError js_string js_string
  | ThrownValue json

text \<open>
  The retry hint of a rate-limited provider is the decimal text of its seconds.
  \<open>OtherError name message\<close> is any other \<open>Error\<close> instance (driver, gather, network);
  \<open>ThrownValue\<close> is a thrown value that is no \<open>Error\<close>.
\<close>

definition planning_failed_message :: js_string where
  "planning_failed_message = js ''Planning job processing failed''"

definition ai_quota_exceeded_message :: js_string where
  "ai_quota_exceeded_message = js ''Daily AI usage limit reached. Try again later.''"

definition ai_quota_unavailable_message :: js_string where
  "ai_quota_unavailable_message = js ''AI usage limits are temporarily unavailable''"

definition ai_consent_required_message :: js_string where
  "ai_consent_required_message =
     js ''AI consent is required. Accept the current AI notice to use AI features.''"

definition ai_consent_required_code :: js_string where
  "ai_consent_required_code = js ''AI_CONSENT_REQUIRED''"

definition user_inactive_error_code :: js_string where
  "user_inactive_error_code = js ''USER_INACTIVE''"

definition job_user_inactive :: app_error where
  "job_user_inactive = JobUserInactive (js ''The account that submitted this job is not active'')"

definition job_consent_required :: app_error where
  "job_consent_required = JobConsentRequired ai_consent_required_message"

text \<open>\<open>safeFailureMessage\<close> and \<open>failureErrorCode\<close> of \<open>planning-prompt.ts\<close>.\<close>

fun safe_failure_message :: "app_error \<Rightarrow> js_string" where
  "safe_failure_message (PlanningOutputInvalid m) = m"
| "safe_failure_message (PlanningOutputRejected m) = m"
| "safe_failure_message (JobUserInactive m) = m"
| "safe_failure_message (JobConsentRequired m) = m"
| "safe_failure_message (AiQuotaExceeded _) = ai_quota_exceeded_message"
| "safe_failure_message AiQuotaUnavailable = ai_quota_unavailable_message"
| "safe_failure_message (GenerationProvider m) = m"
| "safe_failure_message (GenerationRefused m) = m"
| "safe_failure_message (GenerationTruncated m) = m"
| "safe_failure_message (GeneratorRateLimited m _) = m"
| "safe_failure_message (GeneratorUnavailable m) = m"
| "safe_failure_message _ = planning_failed_message"

fun failure_error_code :: "app_error \<Rightarrow> js_string" where
  "failure_error_code (AiQuotaExceeded _) = js ''AI_QUOTA_EXCEEDED''"
| "failure_error_code AiQuotaUnavailable = js ''AI_QUOTA_UNAVAILABLE''"
| "failure_error_code (JobUserInactive _) = user_inactive_error_code"
| "failure_error_code (JobConsentRequired _) = ai_consent_required_code"
| "failure_error_code _ = js ''PROCESSING_FAILED''"

definition is_expected_failure_code :: "js_string option \<Rightarrow> bool" where
  "is_expected_failure_code code \<longleftrightarrow>
     code = Some (js ''AI_QUOTA_EXCEEDED'') \<or> code = Some user_inactive_error_code \<or>
     code = Some ai_consent_required_code"

text \<open>\<open>quotaHttpException\<close> of \<open>application/ai/ai-quota-http.ts\<close>.\<close>

fun quota_http_exception :: "app_error \<Rightarrow> http_error option" where
  "quota_http_exception (AiQuotaExceeded retry) =
     Some (TooManyRequests ai_quota_exceeded_message retry)"
| "quota_http_exception AiQuotaUnavailable =
     Some (ServiceUnavailable ai_quota_unavailable_message)"
| "quota_http_exception _ = None"

lemma expected_failure_iff:
  "is_expected_failure_code (Some (failure_error_code e)) \<longleftrightarrow>
     (\<exists>n. e = AiQuotaExceeded n) \<or> (\<exists>m. e = JobUserInactive m) \<or> (\<exists>m. e = JobConsentRequired m)"
  by (cases e) (simp_all add: is_expected_failure_code_def user_inactive_error_code_def
      ai_consent_required_code_def)

end
