(* ===== verification/Events.thy ===== *)
theory Events
  imports Prelude
begin

text \<open>
  The domain events the use-cases emit through \<open>EventEmitter2\<close>
  (\<open>domain/audit/audit-events.ts\<close>, \<open>domain/auth/auth-events.ts\<close>,
  \<open>domain/users/user-events.ts\<close>, \<open>domain/documents/document-events.ts\<close>,
  \<open>domain/connectors/connector-events.ts\<close>, \<open>domain/ai/ai-consent.ts\<close>), one constructor per
  event with its payload. A component's state keeps the list of the events it emitted.
\<close>

datatype reset_link_reason = ForgotPassword | ExistingAccount

datatype event =
    AuthVerificationRequested ident
  | AuthResetLinkRequested js_string reset_link_reason
  | AuthLogin ident
  | AuthLoginFailed "ident option" js_string
  | AuthLoginThrottled js_string
  | AuthLogout ident
  | AuthPasswordResetRequested ident
  | AuthPasswordResetCompleted ident
  | AuthPasswordChanged ident
  | AuthEmailVerified ident
  | UserDisabled ident ident
  | UserEnabled ident ident
  | UserSessionsRevoked ident
  | AiConsentAccepted ident js_string
  | AiConsentWithdrawn ident
  | DocumentCreated ident ident
  | SectionCreated ident ident ident
  | SectionUpdated ident ident ident nat
  | ConnectorRevoked ident ident js_string
  | ConnectorStatusChanged ident
  | SuggestionReviewed ident ident js_string
  | TemplateCreated ident ident
  | TemplateUpdated ident ident "js_string list"
  | TemplatePublished ident ident
  | TemplateUnpublished ident ident
  | TemplateDeleted ident ident
  | PromptCreated ident ident js_string js_string
  | PromptActivated ident ident js_string js_string

end
