(* ===== verification/JsText.thy ===== *)
theory JsText
  imports Prelude
begin

text \<open>
  The operations of \<open>String.prototype\<close> and \<open>Array.prototype.join\<close> that the program
  uses, on lists of UTF-16 code units. An index result is an \<open>int\<close>, with \<open>-1\<close> for
  \<open>not found\<close> as in JavaScript.
\<close>

section \<open>White space, trimming\<close>

text \<open>The code units matched by \<open>\s\<close> and removed by \<open>trim\<close>.\<close>

definition js_ws :: "16 word \<Rightarrow> bool" where
  "js_ws c \<longleftrightarrow> c = 32 \<or> (9 \<le> c \<and> c \<le> 13) \<or> c = 0xA0 \<or> c = 0x1680 \<or> (0x2000 \<le> c \<and> c \<le> 0x200A) \<or>
     c = 0x2028 \<or> c = 0x2029 \<or> c = 0x202F \<or> c = 0x205F \<or> c = 0x3000 \<or> c = 0xFEFF"

definition trim_start :: "js_string \<Rightarrow> js_string" where
  "trim_start s = dropWhile js_ws s"

definition trim_end :: "js_string \<Rightarrow> js_string" where
  "trim_end s = rev (dropWhile js_ws (rev s))"

definition trim :: "js_string \<Rightarrow> js_string" where
  "trim s = trim_end (trim_start s)"

lemma trim_ends:
  assumes "trim s \<noteq> []"
  shows "\<not> js_ws (hd (trim s))" "\<not> js_ws (last (trim s))"
proof -
  let ?u = "dropWhile js_ws s"
  have "rev (trim s) = dropWhile js_ws (rev ?u)" by (simp add: trim_def trim_end_def trim_start_def)
  with assms show "\<not> js_ws (last (trim s))"
    by (metis hd_dropWhile hd_rev rev_is_Nil_conv)
  obtain w where "?u = trim s @ w"
    unfolding trim_def trim_end_def trim_start_def by (metis rev_append rev_rev_ident takeWhile_dropWhile_id)
  with assms have "hd ?u = hd (trim s)" "?u \<noteq> []" by auto
  then show "\<not> js_ws (hd (trim s))" by (metis hd_dropWhile)
qed

lemma trim_idI: "\<not> js_ws (hd s) \<Longrightarrow> \<not> js_ws (last s) \<Longrightarrow> trim s = s"
  by (cases "s = []") (simp_all add: trim_def trim_start_def trim_end_def dropWhile_eq_self_iff [THEN iffD2] hd_rev)

lemma trim_fixed_iff: "s \<noteq> [] \<Longrightarrow> trim s = s \<longleftrightarrow> \<not> js_ws (hd s) \<and> \<not> js_ws (last s)"
  using trim_ends [of s] trim_idI by metis

lemma length_dropWhile_less [termination_simp]: "length (dropWhile P xs) < Suc (length xs)"
  by (simp add: le_imp_less_Suc length_dropWhile_le)

text \<open>\<open>s.replace(/\s+/g, ' ')\<close>.\<close>

fun collapse_ws :: "js_string \<Rightarrow> js_string" where
  "collapse_ws [] = []"
| "collapse_ws (c # s) =
     (if js_ws c then 32 # collapse_ws (dropWhile js_ws s) else c # collapse_ws s)"

text \<open>\<open>s.split(/\s+/)\<close> for a string with no white space at its ends.\<close>

fun split_ws :: "js_string \<Rightarrow> js_string list" where
  "split_ws [] = [[]]"
| "split_ws (c # s) =
     (if js_ws c then [] # split_ws (dropWhile js_ws s)
      else (case split_ws s of [] \<Rightarrow> [[c]] | w # ws \<Rightarrow> (c # w) # ws))"

section \<open>Searching and cutting\<close>

definition starts_with :: "js_string \<Rightarrow> js_string \<Rightarrow> bool" where
  "starts_with p s \<longleftrightarrow> take (length p) s = p"

definition positions_of :: "js_string \<Rightarrow> js_string \<Rightarrow> nat list" where
  "positions_of p s = filter (\<lambda>i. starts_with p (drop i s)) [0..<Suc (length s)]"

definition index_of :: "js_string \<Rightarrow> js_string \<Rightarrow> int" where
  "index_of p s = (case positions_of p s of [] \<Rightarrow> -1 | i # _ \<Rightarrow> int i)"

definition last_index_of :: "js_string \<Rightarrow> js_string \<Rightarrow> int" where
  "last_index_of p s = (if positions_of p s = [] then -1 else int (last (positions_of p s)))"

definition str_includes :: "js_string \<Rightarrow> js_string \<Rightarrow> bool" where
  "str_includes s p \<longleftrightarrow> positions_of p s \<noteq> []"

fun join :: "js_string \<Rightarrow> js_string list \<Rightarrow> js_string" where
  "join sep [] = []"
| "join sep [x] = x"
| "join sep (x # y # zs) = x @ sep @ join sep (y # zs)"

section \<open>Decimal text of a natural number\<close>

fun nat_str :: "nat \<Rightarrow> js_string" where
  "nat_str n = (if n < 10 then [48 + of_nat n] else nat_str (n div 10) @ [48 + of_nat (n mod 10)])"

declare nat_str.simps [simp del]

definition digit_val :: "16 word \<Rightarrow> nat" where
  "digit_val c = unat (c - 48)"

definition str_nat :: "js_string \<Rightarrow> nat" where
  "str_nat s = foldl (\<lambda>acc c. acc * 10 + digit_val c) 0 s"

section \<open>Lemmas\<close>

lemma digit_val_digit: "d < 10 \<Longrightarrow> digit_val (48 + of_nat d) = d"
  by (simp add: digit_val_def unat_of_nat)

lemma str_nat_nat_str [simp]: "str_nat (nat_str n) = n"
proof (induction n rule: nat_str.induct)
  case (1 n)
  show ?case
  proof (cases "n < 10")
    case True
    then show ?thesis by (simp add: nat_str.simps [of n] str_nat_def digit_val_digit)
  next
    case False
    with 1 have "str_nat (nat_str (n div 10)) = n div 10" by simp
    with False show ?thesis
      by (simp add: nat_str.simps [of n] str_nat_def digit_val_digit)
  qed
qed

lemma nat_str_inj [simp]: "nat_str m = nat_str n \<longleftrightarrow> m = n"
  by (metis str_nat_nat_str)

lemma nat_str_nonempty [simp]: "nat_str n \<noteq> []"
  by (subst nat_str.simps) simp

lemma length_trim_end [simp]: "length (trim_end s) \<le> length s"
  by (simp add: trim_end_def le_trans [OF length_dropWhile_le])

lemma length_trim_le [simp]: "length (trim s) \<le> length s"
  by (simp add: trim_def trim_start_def le_trans [OF length_trim_end length_dropWhile_le])

lemma positions_of_bound: "i \<in> set (positions_of p s) \<Longrightarrow> i + length p \<le> length s"
proof -
  assume "i \<in> set (positions_of p s)"
  then have i: "i \<le> length s" and "take (length p) (drop i s) = p"
    by (auto simp: positions_of_def starts_with_def simp del: upt_Suc)
  then have "length (take (length p) (drop i s)) = length p" by simp
  then have "length p \<le> length s - i" by simp
  with i show ?thesis by simp
qed

lemma last_index_of_bound:
  "-1 \<le> last_index_of p s" "last_index_of p s + int (length p) \<le> max (int (length s)) (int (length p) - 1)"
proof -
  have "last (positions_of p s) + length p \<le> length s" if "positions_of p s \<noteq> []"
    using that by (intro positions_of_bound) simp
  then show "-1 \<le> last_index_of p s"
    and "last_index_of p s + int (length p) \<le> max (int (length s)) (int (length p) - 1)"
    by (auto simp: last_index_of_def max_def)
qed

lemma join_Cons: "join sep (x # xs) = x @ (if xs = [] then [] else sep @ join sep xs)"
  by (cases xs) simp_all

lemma join_snoc: "join sep (xs @ [x]) = (if xs = [] then x else join sep xs @ sep @ x)"
  by (induction xs) (auto simp: join_Cons)

end
