(* ===== verification/Users.thy ===== *)
theory Users
  imports Stores AppErrors Events JsText
begin

text \<open>
  Accounts: the \<open>users\<close> table and its repository
  (\<open>infrastructure/persistence/users/user.typeorm.repository.ts\<close>), the domain entity with
  its derived flags (\<open>domain/users/user.entity.ts\<close>), and the use-cases of
  \<open>application/users\<close>. \<open>toLowerCase\<close> is a parameter (its table is Unicode data), as is
  bcrypt, whose hash a call receives as \<open>password_hash\<close>.
\<close>

section \<open>Entity and table\<close>

datatype user_role = RoleUser | RoleAdmin

record user =
  u_id :: ident
  u_email :: js_string
  u_passwordHash :: js_string
  u_displayName :: js_string
  u_role :: user_role
  u_xp :: int
  u_level :: int
  u_lastActiveAt :: "time option"
  u_disabledAt :: "time option"
  u_emailVerifiedAt :: "time option"
  u_tokenVersion :: int
  u_aiConsentAt :: "time option"
  u_aiConsentVersion :: "js_string option"

record user_row =
  ur_id :: ident
  ur_email :: js_string
  ur_password_hash :: js_string
  ur_display_name :: js_string
  ur_role :: js_string
  ur_xp :: int
  ur_level :: int
  ur_last_active_at :: time
  ur_created_at :: time
  ur_disabled_at :: "time option"
  ur_email_verified_at :: "time option"
  ur_token_version :: int
  ur_ai_consent_at :: "time option"
  ur_ai_consent_version :: "js_string option"

definition ai_notice_version :: js_string where
  "ai_notice_version = js ''2026-11-06''"

definition is_admin :: "user \<Rightarrow> bool" where
  "is_admin u \<longleftrightarrow> u_role u = RoleAdmin"

definition is_email_verified :: "user \<Rightarrow> bool" where
  "is_email_verified u \<longleftrightarrow> u_emailVerifiedAt u \<noteq> None"

definition has_current_ai_consent :: "user \<Rightarrow> bool" where
  "has_current_ai_consent u \<longleftrightarrow>
     u_aiConsentAt u \<noteq> None \<and> u_aiConsentVersion u = Some ai_notice_version"

definition is_disabled :: "user \<Rightarrow> bool" where
  "is_disabled u \<longleftrightarrow> u_disabledAt u \<noteq> None"

definition normalize_email :: "(js_string \<Rightarrow> js_string) \<Rightarrow> js_string \<Rightarrow> js_string" where
  "normalize_email lower email = lower (trim email)"

section \<open>Repository\<close>

definition to_role :: "user_row \<Rightarrow> user_role" where
  "to_role r = (if ur_role r = js ''admin'' then RoleAdmin else RoleUser)"

definition user_to_domain :: "user_row \<Rightarrow> user" where
  "user_to_domain r = \<lparr>u_id = ur_id r, u_email = ur_email r, u_passwordHash = ur_password_hash r,
     u_displayName = ur_display_name r, u_role = to_role r, u_xp = ur_xp r, u_level = ur_level r,
     u_lastActiveAt = Some (ur_last_active_at r), u_disabledAt = ur_disabled_at r,
     u_emailVerifiedAt = ur_email_verified_at r, u_tokenVersion = ur_token_version r,
     u_aiConsentAt = ur_ai_consent_at r, u_aiConsentVersion = ur_ai_consent_version r\<rparr>"

definition find_user_by_id :: "ident \<Rightarrow> user_row list \<Rightarrow> user option" where
  "find_user_by_id i t = map_option user_to_domain (find (\<lambda>r. ur_id r = i) t)"

definition find_user_by_email :: "js_string \<Rightarrow> user_row list \<Rightarrow> user option" where
  "find_user_by_email e t = map_option user_to_domain (find (\<lambda>r. ur_email r = e) t)"

definition new_user_row :: "ident \<Rightarrow> js_string \<Rightarrow> js_string \<Rightarrow> js_string \<Rightarrow> time \<Rightarrow> user_row" where
  "new_user_row i email hash name now = \<lparr>ur_id = i, ur_email = email, ur_password_hash = hash,
     ur_display_name = name, ur_role = js ''user'', ur_xp = 0, ur_level = 1,
     ur_last_active_at = now, ur_created_at = now, ur_disabled_at = None,
     ur_email_verified_at = None, ur_token_version = 0, ur_ai_consent_at = None,
     ur_ai_consent_version = None\<rparr>"

text \<open>\<open>create\<close>: the unique index on \<open>email\<close> turns a lost race into a conflict.\<close>

definition create_user ::
    "ident \<Rightarrow> js_string \<Rightarrow> js_string \<Rightarrow> js_string \<Rightarrow> time \<Rightarrow> user_row list \<Rightarrow>
      (http_error + user) \<times> user_row list" where
  "create_user i email hash name now t =
     (if \<exists>r \<in> set t. ur_email r = email
      then (Inl (Conflict (js ''Email is already registered'')), t)
      else (let r = new_user_row i email hash name now in (Inr (user_to_domain r), t @ [r])))"

definition set_ai_consent ::
    "ident \<Rightarrow> time option \<Rightarrow> js_string option \<Rightarrow> user_row list \<Rightarrow> user_row list" where
  "set_ai_consent i at v t = sql_update (\<lambda>r. ur_id r = i)
     (\<lambda>r. r\<lparr>ur_ai_consent_at := at, ur_ai_consent_version := v\<rparr>) t"

definition set_disabled_at :: "ident \<Rightarrow> time option \<Rightarrow> user_row list \<Rightarrow> user_row list" where
  "set_disabled_at i at t = sql_update (\<lambda>r. ur_id r = i) (\<lambda>r. r\<lparr>ur_disabled_at := at\<rparr>) t"

definition update_last_active_at :: "ident \<Rightarrow> time \<Rightarrow> user_row list \<Rightarrow> user_row list" where
  "update_last_active_at i now t =
     sql_update (\<lambda>r. ur_id r = i) (\<lambda>r. r\<lparr>ur_last_active_at := now\<rparr>) t"

text \<open>\<open>findTopByXp\<close>: enabled accounts, highest \<open>xp\<close> first (a stable sort), at most \<open>limit\<close>.\<close>

definition find_top_by_xp :: "nat \<Rightarrow> user_row list \<Rightarrow> user list" where
  "find_top_by_xp limit t = map user_to_domain
     (take limit (sort_key (\<lambda>r. - ur_xp r) (filter (\<lambda>r. ur_disabled_at r = None) t)))"

section \<open>Use-cases\<close>

record users_state =
  us_users :: "user_row list"
  us_emitted :: "event list"

definition emit_user :: "event \<Rightarrow> users_state \<Rightarrow> users_state" where
  "emit_user e s = s\<lparr>us_emitted := us_emitted s @ [e]\<rparr>"

definition user_not_found :: "ident \<Rightarrow> http_error" where
  "user_not_found i = NotFound (js ''User '' @ i @ js '' not found'')"

text \<open>
  \<open>RegisterUserUseCase\<close>. The insert may meet rows the earlier lookup did not see: \<open>others\<close> are
  the rows concurrent registrations committed in between.
\<close>

definition register_user ::
    "(js_string \<Rightarrow> js_string) \<Rightarrow> js_string \<Rightarrow> js_string \<Rightarrow> js_string \<Rightarrow> ident \<Rightarrow> user_row list \<Rightarrow> time \<Rightarrow>
      users_state \<Rightarrow> (http_error + unit) \<times> users_state" where
  "register_user lower raw_email display_name password_hash new_id others now s =
     (let email = normalize_email lower raw_email in
      case find_user_by_email email (us_users s) of
        Some _ \<Rightarrow> (Inr (), emit_user (AuthResetLinkRequested email ExistingAccount)
                             (s\<lparr>us_users := us_users s @ others\<rparr>))
      | None \<Rightarrow>
          (case create_user new_id email password_hash display_name now (us_users s @ others) of
             (Inr u, t) \<Rightarrow> (Inr (), emit_user (AuthVerificationRequested (u_id u)) (s\<lparr>us_users := t\<rparr>))
           | (Inl (Conflict _), t) \<Rightarrow>
               (Inr (), emit_user (AuthResetLinkRequested email ExistingAccount) (s\<lparr>us_users := t\<rparr>))
           | (Inl err, t) \<Rightarrow> (Inl err, s\<lparr>us_users := t\<rparr>)))"

definition disable_user ::
    "ident \<Rightarrow> user_role \<Rightarrow> ident \<Rightarrow> time \<Rightarrow> users_state \<Rightarrow> (http_error + unit) \<times> users_state" where
  "disable_user actor role target now s =
     (if role \<noteq> RoleAdmin then (Inl (Forbidden (js ''Admin role required'')), s)
      else if actor = target then (Inl (BadRequest (js ''You cannot disable your own account'')), s)
      else (case find_user_by_id target (us_users s) of
              None \<Rightarrow> (Inl (user_not_found target), s)
            | Some u \<Rightarrow>
                (let s' = (if is_disabled u then s
                           else s\<lparr>us_users := set_disabled_at (u_id u) (Some now) (us_users s)\<rparr>)
                 in (Inr (), emit_user (UserDisabled (u_id u) actor) s'))))"

definition enable_user ::
    "ident \<Rightarrow> user_role \<Rightarrow> ident \<Rightarrow> users_state \<Rightarrow> (http_error + unit) \<times> users_state" where
  "enable_user actor role target s =
     (if role \<noteq> RoleAdmin then (Inl (Forbidden (js ''Admin role required'')), s)
      else (case find_user_by_id target (us_users s) of
              None \<Rightarrow> (Inl (user_not_found target), s)
            | Some u \<Rightarrow>
                (if \<not> is_disabled u then (Inr (), s)
                 else (Inr (), emit_user (UserEnabled (u_id u) actor)
                        (s\<lparr>us_users := set_disabled_at (u_id u) None (us_users s)\<rparr>)))))"

definition get_user_by_id :: "ident \<Rightarrow> user_row list \<Rightarrow> http_error + user" where
  "get_user_by_id i t = (case find_user_by_id i t of None \<Rightarrow> Inl (user_not_found i) | Some u \<Rightarrow> Inr u)"

definition get_user_profile :: "user \<Rightarrow> ident \<Rightarrow> user_row list \<Rightarrow> http_error + user" where
  "get_user_profile actor i t =
     (if u_id actor \<noteq> i \<and> \<not> is_admin actor then Inl (user_not_found i) else get_user_by_id i t)"

definition accept_ai_consent ::
    "ident \<Rightarrow> js_string \<Rightarrow> time \<Rightarrow> users_state \<Rightarrow> (http_error + user) \<times> users_state" where
  "accept_ai_consent i version now s =
     (if version \<noteq> ai_notice_version
      then (Inl (Conflict
        (js ''The AI notice version is not current. Reload the notice and accept again.'')), s)
      else
        (let s' = s\<lparr>us_users := set_ai_consent i (Some now) (Some ai_notice_version) (us_users s)\<rparr> in
         case find_user_by_id i (us_users s') of
           None \<Rightarrow> (Inl (user_not_found i), s')
         | Some u \<Rightarrow> (Inr u, emit_user (AiConsentAccepted i ai_notice_version) s')))"

definition withdraw_ai_consent :: "ident \<Rightarrow> users_state \<Rightarrow> users_state" where
  "withdraw_ai_consent i s =
     emit_user (AiConsentWithdrawn i) (s\<lparr>us_users := set_ai_consent i None None (us_users s)\<rparr>)"

section \<open>Lemmas\<close>

lemma user_to_domain_sel [simp]:
  "u_id (user_to_domain r) = ur_id r" "u_email (user_to_domain r) = ur_email r"
  "u_passwordHash (user_to_domain r) = ur_password_hash r" "u_xp (user_to_domain r) = ur_xp r"
  "u_disabledAt (user_to_domain r) = ur_disabled_at r" "u_role (user_to_domain r) = to_role r"
  "u_tokenVersion (user_to_domain r) = ur_token_version r"
  "u_aiConsentAt (user_to_domain r) = ur_ai_consent_at r"
  "u_aiConsentVersion (user_to_domain r) = ur_ai_consent_version r"
  by (simp_all add: user_to_domain_def)

lemma find_user_by_idD: "find_user_by_id i t = Some u \<Longrightarrow> u_id u = i"
  by (auto simp: find_user_by_id_def dest: find_SomeD)

lemma find_user_by_id_set_consent:
  "find_user_by_id i (set_ai_consent i at v t) =
     map_option (\<lambda>u. u\<lparr>u_aiConsentAt := at, u_aiConsentVersion := v\<rparr>) (find_user_by_id i t)"
proof -
  have "find (\<lambda>r. ur_id r = i) (set_ai_consent i at v t) =
      map_option (\<lambda>r. if ur_id r = i then r\<lparr>ur_ai_consent_at := at, ur_ai_consent_version := v\<rparr> else r)
        (find (\<lambda>r. ur_id r = i) t)"
    unfolding set_ai_consent_def by (rule find_sql_update_key) simp
  then show ?thesis
    by (cases "find (\<lambda>r. ur_id r = i) t")
       (auto simp: find_user_by_id_def user_to_domain_def to_role_def dest: find_SomeD)
qed

lemma emails_set_columns [frame_simps]:
  "map ur_email (set_ai_consent i at v t) = map ur_email t"
  "map ur_email (set_disabled_at i da t) = map ur_email t"
  "map ur_email (update_last_active_at i now t) = map ur_email t"
  by (simp_all add: set_ai_consent_def set_disabled_at_def update_last_active_at_def map_sql_update)

lemma create_user_distinct:
  assumes "distinct (map ur_email t)" and "create_user i e h n now t = (r, t')"
  shows "distinct (map ur_email t')"
  using assms by (auto simp: create_user_def Let_def new_user_row_def split: if_splits)

end
