(* ===== verification/Connectors.thy ===== *)
theory Connectors
  imports Stores Events JsText
begin

text \<open>
  Connector connections: the \<open>connector_connections\<close> table and repository, the use-cases of
  \<open>application/connectors\<close>, the status mapping and webhook normalisation of
  \<open>ComposioGateway\<close>, and \<open>resolveActiveConnectorReferences\<close>. Composio itself is a
  parameter: each call takes the outcome of the request it makes (\<open>Inl\<close> when it throws).
  Where a use-case awaits Composio between reading a row and writing it, the model takes the
  change \<open>meanwhile\<close> that other requests make to the table during the wait.
\<close>

section \<open>Data\<close>

datatype provider = Trello | Notion | Github

datatype connector_status = Initiated | Active | Revoked | ConnFailed

fun provider_name :: "provider \<Rightarrow> js_string" where
  "provider_name Trello = js ''trello''"
| "provider_name Notion = js ''notion''"
| "provider_name Github = js ''github''"

record connection =
  cc_id :: ident
  cc_userId :: ident
  cc_provider :: provider
  cc_account :: "js_string option"
  cc_status :: connector_status
  cc_connectedAt :: "time option"
  cc_createdAt :: time
  cc_updatedAt :: time

record connector_ref =
  cr_provider :: provider
  cr_mcpUrl :: "js_string option"
  cr_account :: js_string

record webhook_event =
  we_account :: js_string
  we_status :: connector_status

record connectors_state =
  cs_rows :: "connection list"
  cs_emitted :: "event list"
  cs_revoked :: "js_string list"
    \<comment> \<open>accounts Composio was asked to delete\<close>

definition terminal :: "connector_status \<Rightarrow> bool" where
  "terminal st \<longleftrightarrow> st \<in> {Revoked, ConnFailed}"

section \<open>Repository\<close>

definition find_conn :: "ident \<Rightarrow> connection list \<Rightarrow> connection option" where
  "find_conn i t = find (\<lambda>r. cc_id r = i) t"

definition find_by_user_and_provider :: "ident \<Rightarrow> provider \<Rightarrow> connection list \<Rightarrow> connection option" where
  "find_by_user_and_provider u p t = find (\<lambda>r. cc_userId r = u \<and> cc_provider r = p) t"

definition find_by_account :: "js_string \<Rightarrow> connection list \<Rightarrow> connection option" where
  "find_by_account a t = find (\<lambda>r. cc_account r = Some a) t"

definition find_all_by_user :: "ident \<Rightarrow> connection list \<Rightarrow> connection list" where
  "find_all_by_user u t = filter (\<lambda>r. cc_userId r = u) t"

definition find_active_by_user :: "ident \<Rightarrow> connection list \<Rightarrow> connection list" where
  "find_active_by_user u t = filter (\<lambda>r. cc_userId r = u \<and> cc_status r = Active) t"

definition reset_initiated :: "ident \<Rightarrow> js_string \<Rightarrow> time \<Rightarrow> connection list \<Rightarrow> connection list" where
  "reset_initiated i account now t = sql_update (\<lambda>r. cc_id r = i)
     (\<lambda>r. r\<lparr>cc_account := Some account, cc_status := Initiated, cc_connectedAt := None,
            cc_updatedAt := now\<rparr>) t"

text \<open>
  \<open>upsertInitiated\<close>: the first lookup sees \<open>t\<close>; the insert meets the table after the
  concurrent connects \<open>meanwhile\<close>, and the unique \<open>(user_id, provider)\<close> index sends a loser to
  the winner's row.
\<close>

definition upsert_initiated ::
    "ident \<Rightarrow> ident \<Rightarrow> provider \<Rightarrow> js_string \<Rightarrow> (connection list \<Rightarrow> connection list) \<Rightarrow> time \<Rightarrow>
      connection list \<Rightarrow> connection option \<times> connection list" where
  "upsert_initiated new_id u p account meanwhile now t =
     (case find_by_user_and_provider u p t of
        Some existing \<Rightarrow>
          (let t' = reset_initiated (cc_id existing) account now t
           in (find_conn (cc_id existing) t', t'))
      | None \<Rightarrow>
          (case find_by_user_and_provider u p (meanwhile t) of
             None \<Rightarrow>
               (let r = \<lparr>cc_id = new_id, cc_userId = u, cc_provider = p, cc_account = Some account,
                         cc_status = Initiated, cc_connectedAt = None, cc_createdAt = now,
                         cc_updatedAt = now\<rparr>
                in (Some r, meanwhile t @ [r]))
           | Some winner \<Rightarrow>
               (let t' = reset_initiated (cc_id winner) account now (meanwhile t)
                in (find_conn (cc_id winner) t', t'))))"

definition update_conn_status ::
    "ident \<Rightarrow> connector_status \<Rightarrow> time option option \<Rightarrow> time \<Rightarrow> connection list \<Rightarrow>
      connection option \<times> connection list" where
  "update_conn_status i status connected_at now t =
     (case find_conn i t of
        None \<Rightarrow> (None, t)
      | Some _ \<Rightarrow>
          (let t' = sql_update (\<lambda>r. cc_id r = i)
                 (\<lambda>r. r\<lparr>cc_status := status,
                        cc_connectedAt := (case connected_at of None \<Rightarrow> cc_connectedAt r | Some v \<Rightarrow> v),
                        cc_updatedAt := now\<rparr>) t
           in (find_conn i t', t')))"

section \<open>Composio's statuses and webhooks\<close>

definition map_status :: "js_string option \<Rightarrow> connector_status" where
  "map_status s =
     (if s = Some (js ''INITIATED'') \<or> s = Some (js ''INITIALIZING'') \<or> s = Some (js ''INITIATING'')
      then Initiated
      else if s = Some (js ''ACTIVE'') then Active
      else if s = Some (js ''FAILED'') then ConnFailed
      else if s = Some (js ''EXPIRED'') \<or> s = Some (js ''INACTIVE'') \<or> s = Some (js ''REVOKED'')
      then Revoked
      else ConnFailed)"

fun obj_get :: "js_string \<Rightarrow> json \<Rightarrow> json option" where
  "obj_get k (JObj ps) = map_of (rev ps) k"
| "obj_get k _ = None"

text \<open>
  \<open>verifyWebhook\<close> after the signature check: \<open>parsed\<close> is the result of \<open>JSON.parse\<close>, \<open>None\<close>
  when the body is no JSON.
\<close>

definition normalize_webhook :: "json option \<Rightarrow> webhook_event option" where
  "normalize_webhook parsed =
     (case parsed of
        None \<Rightarrow> None
      | Some body \<Rightarrow>
          (case obj_get (js ''data'') body of
             None \<Rightarrow> None
           | Some data \<Rightarrow>
               (case (obj_get (js ''id'') data, obj_get (js ''status'') data) of
                  (Some (JStr account), Some (JStr status)) \<Rightarrow>
                    Some \<lparr>we_account = account, we_status = map_status (Some status)\<rparr>
                | _ \<Rightarrow> None)))"

section \<open>Use-cases\<close>

definition emit_conn :: "event \<Rightarrow> connectors_state \<Rightarrow> connectors_state" where
  "emit_conn e s = s\<lparr>cs_emitted := cs_emitted s @ [e]\<rparr>"

text \<open>
  \<open>applyStatus\<close>: \<open>conn\<close> is the row as the caller read it, \<open>s\<close> the state the write meets.
\<close>

definition apply_status ::
    "connection \<Rightarrow> connector_status \<Rightarrow> time \<Rightarrow> connectors_state \<Rightarrow> connection \<times> connectors_state" where
  "apply_status conn status now s =
     (if cc_status conn = status then (conn, s)
      else if terminal (cc_status conn) then (conn, s)
      else
        (let patch = (if status = Active \<and> cc_connectedAt conn = None then Some (Some now) else None);
             (updated, rows) = update_conn_status (cc_id conn) status patch now (cs_rows s);
             s' = s\<lparr>cs_rows := rows\<rparr>
         in case updated of
              None \<Rightarrow> (conn, s')
            | Some c \<Rightarrow> (c, emit_conn (ConnectorStatusChanged (cc_userId c)) s')))"

definition apply_event :: "webhook_event \<Rightarrow> time \<Rightarrow> connectors_state \<Rightarrow> connectors_state" where
  "apply_event e now s =
     (case find_by_account (we_account e) (cs_rows s) of
        None \<Rightarrow> s
      | Some conn \<Rightarrow> snd (apply_status conn (we_status e) now s))"

text \<open>
  \<open>verifyAndApply\<close>: \<open>verified\<close> is the outcome of \<open>verifyWebhook\<close>, \<open>None\<close> when it throws.
\<close>

definition verify_and_apply ::
    "webhook_event option option \<Rightarrow> time \<Rightarrow> connectors_state \<Rightarrow> (http_error + unit) \<times> connectors_state" where
  "verify_and_apply verified now s =
     (case verified of
        None \<Rightarrow> (Inl (Unauthorized (js ''Invalid Composio webhook signature'')), s)
      | Some None \<Rightarrow> (Inr (), s)
      | Some (Some e) \<Rightarrow> (Inr (), apply_event e now s))"

text \<open>
  \<open>reconcile\<close>: \<open>lookup\<close> is what \<open>getConnectionStatus\<close> answers for an account, \<open>None\<close> when
  it throws; the table changes by \<open>meanwhile\<close> during that request.
\<close>

definition reconcile ::
    "(js_string \<Rightarrow> connector_status option) \<Rightarrow> (connectors_state \<Rightarrow> connectors_state) \<Rightarrow> connection \<Rightarrow>
      time \<Rightarrow> connectors_state \<Rightarrow> connection \<times> connectors_state" where
  "reconcile lookup meanwhile conn now s =
     (if cc_status conn \<noteq> Initiated then (conn, s)
      else case cc_account conn of
        None \<Rightarrow> (conn, s)
      | Some account \<Rightarrow>
          (if account = [] then (conn, s)
           else case lookup account of
             None \<Rightarrow> (conn, meanwhile s)
           | Some status \<Rightarrow>
               (if status = cc_status conn then (conn, meanwhile s)
                else apply_status conn status now (meanwhile s))))"

definition get_connection ::
    "(js_string \<Rightarrow> connector_status option) \<Rightarrow> (connectors_state \<Rightarrow> connectors_state) \<Rightarrow> ident \<Rightarrow> ident \<Rightarrow>
      time \<Rightarrow> connectors_state \<Rightarrow> (http_error + connection) \<times> connectors_state" where
  "get_connection lookup meanwhile conn_id user now s =
     (case find_conn conn_id (cs_rows s) of
        None \<Rightarrow> (Inl (NotFound (js ''Connector connection '' @ conn_id @ js '' not found'')), s)
      | Some conn \<Rightarrow>
          (if cc_userId conn \<noteq> user
           then (Inl (NotFound (js ''Connector connection '' @ conn_id @ js '' not found'')), s)
           else (let (c, s') = reconcile lookup meanwhile conn now s in (Inr c, s'))))"

text \<open>
  \<open>revokeReplacedAccount\<close> is best effort: the outcome of Composio's answer is ignored, the
  request is made exactly when the previous row held another, unrevoked account.
\<close>

definition revoke_replaced_account ::
    "connection option \<Rightarrow> js_string \<Rightarrow> connectors_state \<Rightarrow> connectors_state" where
  "revoke_replaced_account previous new_account s =
     (case previous of
        None \<Rightarrow> s
      | Some p \<Rightarrow>
          (case cc_account p of
             None \<Rightarrow> s
           | Some old \<Rightarrow>
               (if old = [] \<or> old = new_account \<or> cc_status p = Revoked then s
                else s\<lparr>cs_revoked := cs_revoked s @ [old]\<rparr>)))"

text \<open>
  \<open>InitiateConnectionUseCase\<close>: \<open>link\<close> is the outcome of \<open>initiateConnection\<close> (redirect URL,
  account, status).
\<close>

definition initiate_connection ::
    "http_error + (js_string \<times> js_string \<times> connector_status) \<Rightarrow> (connection list \<Rightarrow> connection list) \<Rightarrow>
      ident \<Rightarrow> ident \<Rightarrow> provider \<Rightarrow> time \<Rightarrow> connectors_state \<Rightarrow>
      (http_error + (js_string \<times> ident \<times> connector_status)) \<times> connectors_state" where
  "initiate_connection link meanwhile new_id user p now s =
     (let previous = find_by_user_and_provider user p (cs_rows s) in
      case link of
        Inl err \<Rightarrow> (Inl err, s)
      | Inr (redirect, account, status) \<Rightarrow>
          (case upsert_initiated new_id user p account meanwhile now (cs_rows s) of
             (None, rows) \<Rightarrow>
               (Inl (InternalError (js ''Cannot read properties of null'')),
                emit_conn (ConnectorStatusChanged user) (s\<lparr>cs_rows := rows\<rparr>))
           | (Some row, rows) \<Rightarrow>
               (Inr (redirect, cc_id row, status),
                revoke_replaced_account previous account
                  (emit_conn (ConnectorStatusChanged user) (s\<lparr>cs_rows := rows\<rparr>)))))"

text \<open>
  \<open>RevokeConnectionUseCase\<close>: \<open>delete_ok\<close> tells whether Composio's delete succeeds; when it
  throws, the error leaves the use-case before the row is written.
\<close>

definition revoke_connection ::
    "(js_string \<Rightarrow> connector_status option) \<Rightarrow> (connectors_state \<Rightarrow> connectors_state) \<Rightarrow> bool \<Rightarrow> ident \<Rightarrow> ident \<Rightarrow>
      time \<Rightarrow> connectors_state \<Rightarrow> (http_error + connection) \<times> connectors_state" where
  "revoke_connection lookup meanwhile delete_ok conn_id user now s =
     (case get_connection lookup meanwhile conn_id user now s of
        (Inl err, s1) \<Rightarrow> (Inl err, s1)
      | (Inr conn, s1) \<Rightarrow>
          (if cc_status conn = Revoked then (Inr conn, s1)
           else
             (let to_delete = (case cc_account conn of None \<Rightarrow> [] | Some a \<Rightarrow> if a = [] then [] else [a]);
                  s2 = s1\<lparr>cs_revoked := cs_revoked s1 @ to_delete\<rparr>
              in if to_delete \<noteq> [] \<and> \<not> delete_ok
                 then (Inl (InternalError (js ''Composio delete failed'')), s2)
                 else (let (updated, rows) = update_conn_status (cc_id conn) Revoked None now (cs_rows s2);
                           result = (case updated of None \<Rightarrow> conn | Some c \<Rightarrow> c)
                       in (Inr result,
                           emit_conn (ConnectorRevoked user (cc_id result)
                               (provider_name (cc_provider result))) (s2\<lparr>cs_rows := rows\<rparr>))))))"

text \<open>\<open>domain/context/resolve-connector-references.ts\<close>.\<close>

fun resolve_active_connector_references :: "connection list \<Rightarrow> js_string list \<Rightarrow> connector_ref list" where
  "resolve_active_connector_references active [] = []"
| "resolve_active_connector_references active (c # cs) =
     (case find (\<lambda>r. provider_name (cc_provider r) = c) active of
        None \<Rightarrow> resolve_active_connector_references active cs
      | Some row \<Rightarrow>
          (case cc_account row of
             None \<Rightarrow> resolve_active_connector_references active cs
           | Some a \<Rightarrow>
               (if a = [] then resolve_active_connector_references active cs
                else \<lparr>cr_provider = cc_provider row, cr_mcpUrl = None, cr_account = a\<rparr> #
                     resolve_active_connector_references active cs)))"

section \<open>Lemmas\<close>

text \<open>Primary key and unique \<open>(user_id, provider)\<close> index.\<close>

definition conns_ok :: "connection list \<Rightarrow> bool" where
  "conns_ok t \<longleftrightarrow> distinct (map cc_id t) \<and> distinct (map (\<lambda>r. (cc_userId r, cc_provider r)) t)"

lemma conns_ok_sql_update:
  assumes "conns_ok t" and "\<And>r. cc_id (f r) = cc_id r" "\<And>r. cc_userId (f r) = cc_userId r"
    "\<And>r. cc_provider (f r) = cc_provider r"
  shows "conns_ok (sql_update p f t)"
  using assms by (simp add: conns_ok_def frame_simps)

lemma conns_ok_reset: "conns_ok t \<Longrightarrow> conns_ok (reset_initiated i a now t)"
  unfolding reset_initiated_def by (rule conns_ok_sql_update) simp_all

lemma conns_ok_update_status: "conns_ok t \<Longrightarrow> conns_ok (snd (update_conn_status i st ca now t))"
  unfolding update_conn_status_def
  by (auto simp: Let_def split: option.splits intro!: conns_ok_sql_update)

lemma find_by_user_and_provider_iff:
  assumes "conns_ok t"
  shows "find_by_user_and_provider u p t = Some r \<longleftrightarrow> r \<in> set t \<and> cc_userId r = u \<and> cc_provider r = p"
proof -
  have "find_by_user_and_provider u p t = Some r" if "r \<in> set t" "cc_userId r = u" "cc_provider r = p"
    using assms that unfolding find_by_user_and_provider_def conns_ok_def
    by (induction t) auto
  then show ?thesis
    unfolding find_by_user_and_provider_def by (auto dest: find_SomeD)
qed

lemma find_conn_iff:
  assumes "conns_ok t"
  shows "find_conn i t = Some r \<longleftrightarrow> r \<in> set t \<and> cc_id r = i"
proof -
  have "find_conn i t = Some r" if "r \<in> set t" "cc_id r = i"
    using assms that unfolding find_conn_def conns_ok_def by (induction t) auto
  then show ?thesis unfolding find_conn_def by (auto dest: find_SomeD)
qed

lemma find_conn_reset:
  "find_conn i (reset_initiated i a now t) = map_option (\<lambda>r. r\<lparr>cc_account := Some a,
     cc_status := Initiated, cc_connectedAt := None, cc_updatedAt := now\<rparr>) (find_conn i t)"
proof -
  have "find_conn i (reset_initiated i a now t) = map_option (\<lambda>r. if cc_id r = i then
      r\<lparr>cc_account := Some a, cc_status := Initiated, cc_connectedAt := None, cc_updatedAt := now\<rparr> else r)
      (find_conn i t)"
    unfolding find_conn_def reset_initiated_def by (rule find_sql_update_key) simp
  then show ?thesis
    by (cases "find_conn i t") (auto simp: find_conn_def dest: find_SomeD)
qed

lemma find_conn_update_status:
  "find_conn i t = Some c \<Longrightarrow> update_conn_status i st ca now t = (Some (c\<lparr>cc_status := st,
      cc_connectedAt := (case ca of None \<Rightarrow> cc_connectedAt c | Some v \<Rightarrow> v), cc_updatedAt := now\<rparr>),
     sql_update (\<lambda>r. cc_id r = i) (\<lambda>r. r\<lparr>cc_status := st,
      cc_connectedAt := (case ca of None \<Rightarrow> cc_connectedAt r | Some v \<Rightarrow> v), cc_updatedAt := now\<rparr>) t)"
  using find_sql_update_key [of cc_id "\<lambda>r. r\<lparr>cc_status := st,
      cc_connectedAt := (case ca of None \<Rightarrow> cc_connectedAt r | Some v \<Rightarrow> v), cc_updatedAt := now\<rparr>"
      i "\<lambda>r. cc_id r = i" t]
  by (auto simp: update_conn_status_def find_conn_def Let_def dest: find_SomeD)

lemma update_status_keeps_others:
  assumes "r \<in> set t" and "cc_id r \<noteq> i"
  shows "r \<in> set (snd (update_conn_status i st ca now t))"
  using assms by (auto simp: update_conn_status_def Let_def set_sql_update image_iff split: option.splits
      intro!: bexI [of _ r])

lemma apply_status_rows:
  "cs_rows (snd (apply_status conn st now s)) =
     (if cc_status conn = st \<or> terminal (cc_status conn) then cs_rows s
      else snd (update_conn_status (cc_id conn) st
        (if st = Active \<and> cc_connectedAt conn = None then Some (Some now) else None) now (cs_rows s)))"
  by (auto simp: apply_status_def emit_conn_def Let_def split: option.splits prod.splits)

lemma apply_status_keeps_terminal:
  assumes "conns_ok (cs_rows s)" and "conn \<in> set (cs_rows s)" and "r \<in> set (cs_rows s)" "terminal (cc_status r)"
  shows "r \<in> set (cs_rows (snd (apply_status conn st now s)))"
proof (cases "cc_id r = cc_id conn")
  case True
  with assms(1-3) have "Some r = Some conn"
    using find_conn_iff [OF assms(1), of "cc_id conn" r] find_conn_iff [OF assms(1), of "cc_id conn" conn]
    by simp
  then have "r = conn" by simp
  with assms(3,4) show ?thesis by (simp add: apply_status_rows)
next
  case False
  with assms(3) show ?thesis by (simp add: apply_status_rows update_status_keeps_others)
qed

section \<open>Properties\<close>

text \<open>Connecting a provider leaves one row per user and provider and hands it back: whatever other
  connects commit between the lookup and the insert, after \<open>upsertInitiated\<close> the keys are still
  unique and the user's row for the provider is the returned one, initiated with the new account.\<close>

theorem upsert_one_row_per_provider:
  assumes "conns_ok t" and "conns_ok (meanwhile t)" and "new_id \<notin> cc_id ` set (meanwhile t)"
    and "new_id \<notin> cc_id ` set t"
    and "upsert_initiated new_id u p account meanwhile now t = (r, t')"
  shows "conns_ok t' \<and> (\<exists>row. r = Some row \<and> find_by_user_and_provider u p t' = Some row \<and>
    cc_account row = Some account \<and> cc_status row = Initiated \<and> cc_connectedAt row = None)"
proof -
  have hit: "conns_ok (reset_initiated (cc_id e) account now w) \<and>
      (\<exists>row. find_conn (cc_id e) (reset_initiated (cc_id e) account now w) = Some row \<and>
        find_by_user_and_provider u p (reset_initiated (cc_id e) account now w) = Some row \<and>
        cc_account row = Some account \<and> cc_status row = Initiated \<and> cc_connectedAt row = None)"
    if "conns_ok w" "find_by_user_and_provider u p w = Some e" for w e
  proof -
    from that have e: "e \<in> set w" "cc_userId e = u" "cc_provider e = p"
      using find_by_user_and_provider_iff [of w] by auto
    then have "find_conn (cc_id e) w = Some e" using find_conn_iff [OF that(1)] by auto
    then have found: "find_conn (cc_id e) (reset_initiated (cc_id e) account now w) = Some (e\<lparr>cc_account :=
        Some account, cc_status := Initiated, cc_connectedAt := None, cc_updatedAt := now\<rparr>)"
      by (simp add: find_conn_reset)
    moreover note ok = conns_ok_reset [OF that(1), of "cc_id e" account now]
    ultimately show ?thesis
      using find_conn_iff [OF ok, of "cc_id e"] find_by_user_and_provider_iff [OF ok, of u p] e by auto
  qed
  show ?thesis
  proof (cases "find_by_user_and_provider u p t")
    case (Some e)
    with hit [OF assms(1) Some] assms(5) show ?thesis by (auto simp: upsert_initiated_def Let_def)
  next
    case None
    show ?thesis
    proof (cases "find_by_user_and_provider u p (meanwhile t)")
      case (Some e)
      with None hit [OF assms(2) Some] assms(5) show ?thesis by (auto simp: upsert_initiated_def Let_def)
    next
      case inner: None
      then have none: "\<forall>r \<in> set (meanwhile t). \<not> (cc_userId r = u \<and> cc_provider r = p)"
        unfolding find_by_user_and_provider_def by (rule find_NoneD)
      let ?row = "\<lparr>cc_id = new_id, cc_userId = u, cc_provider = p, cc_account = Some account,
          cc_status = Initiated, cc_connectedAt = None, cc_createdAt = now, cc_updatedAt = now\<rparr>"
      from None inner assms(5) have r: "r = Some ?row" and t': "t' = meanwhile t @ [?row]"
        by (auto simp: upsert_initiated_def Let_def)
      have ok: "conns_ok t'"
        using assms(2,3) none by (auto simp: conns_ok_def t')
      have "find_by_user_and_provider u p t' = Some ?row"
        unfolding find_by_user_and_provider_iff [OF ok] by (simp add: t')
      with ok r show ?thesis by simp
    qed
  qed
qed

definition sample_conn :: "ident \<Rightarrow> connector_status \<Rightarrow> connection" where
  "sample_conn i st = \<lparr>cc_id = i, cc_userId = js ''u'', cc_provider = Notion,
     cc_account = Some (js ''ac''), cc_status = st, cc_connectedAt = None, cc_createdAt = 0,
     cc_updatedAt = 0\<rparr>"

theorem upsert_one_row_per_provider_witness:
  "conns_ok (snd (upsert_initiated (js ''c'') (js ''u'') Notion (js ''new'')
     (\<lambda>t. t @ [sample_conn (js ''d'') Active]) 9 []))"
proof -
  let ?m = "\<lambda>t. t @ [sample_conn (js ''d'') Active]"
  let ?run = "upsert_initiated (js ''c'') (js ''u'') Notion (js ''new'') ?m 9 []"
  have run: "?run = (fst ?run, snd ?run)" by simp
  show ?thesis
    using upsert_one_row_per_provider [OF _ _ _ _ run] by (simp add: conns_ok_def sample_conn_def)
qed


definition sample_conns :: "connector_status \<Rightarrow> connectors_state" where
  "sample_conns st = \<lparr>cs_rows = [sample_conn (js ''c'') st], cs_emitted = [], cs_revoked = []\<rparr>"


text \<open>The guard reads the row before the request to Composio and the write after it is not
  guarded: when the user revokes the connection during that request, the reconciliation of an
  initiated connection makes the revoked row active again.\<close>

theorem reconcile_revives_revoked:
  "\<exists>conn lookup meanwhile s.
    conn \<in> set (cs_rows s) \<and> cc_status conn = Initiated \<and>
    (\<forall>r \<in> set (cs_rows (meanwhile s)). cc_status r = Revoked) \<and>
    (\<exists>r \<in> set (cs_rows (snd (reconcile lookup meanwhile conn now s))). cc_status r = Active)"
proof (intro exI conjI)
  let ?c = "sample_conn (js ''c'') Initiated"
  show "?c \<in> set (cs_rows (sample_conns Initiated))" "cc_status ?c = Initiated"
    by (simp_all add: sample_conns_def sample_conn_def)
  show "\<forall>r \<in> set (cs_rows ((\<lambda>_. sample_conns Revoked) (sample_conns Initiated))). cc_status r = Revoked"
    by (simp add: sample_conns_def sample_conn_def)
  show "\<exists>r \<in> set (cs_rows (snd (reconcile (\<lambda>_. Some Active) (\<lambda>_. sample_conns Revoked) ?c now
      (sample_conns Initiated)))). cc_status r = Active"
    by (simp add: reconcile_def apply_status_rows sample_conns_def sample_conn_def terminal_def
        update_conn_status_def find_conn_def Let_def)
qed

text \<open>A successful revoke leaves the caller's own connection revoked, has asked Composio to delete
  its account, and is announced once; revoking it again changes nothing and makes no request.\<close>

theorem revoke_then_noop:
  assumes "conns_ok (cs_rows s)" and "c \<in> set (cs_rows s)" and "cc_id c = i" and "cc_userId c = user"
    and "cc_status c = Active"
    and "revoke_connection lookup id True i user now s = (r, s')"
  shows "\<exists>row. r = Inr row \<and> cc_status row = Revoked \<and> find_conn i (cs_rows s') = Some row \<and>
    cs_emitted s' = cs_emitted s @ [ConnectorRevoked user i (provider_name (cc_provider c))] \<and>
    cs_revoked s' = cs_revoked s @ (case cc_account c of None \<Rightarrow> [] | Some a \<Rightarrow> if a = [] then [] else [a]) \<and>
    revoke_connection lookup' id ok i user now' s' = (Inr row, s')"
proof -
  have found: "find_conn i (cs_rows s) = Some c"
    using find_conn_iff [OF assms(1)] assms(2,3) by blast
  let ?row = "c\<lparr>cc_status := Revoked, cc_updatedAt := now\<rparr>"
  let ?asked = "(case cc_account c of None \<Rightarrow> [] | Some a \<Rightarrow> if a = [] then [] else [a])"
  obtain rows where upd: "update_conn_status i Revoked None now (cs_rows s) = (Some ?row, rows)"
    using find_conn_update_status [OF found, of Revoked None now] by simp
  then have row: "find_conn i rows = Some ?row"
    using found by (auto simp: update_conn_status_def Let_def)
  have out: "r = Inr ?row" "s' = emit_conn (ConnectorRevoked user i (provider_name (cc_provider c)))
      (s\<lparr>cs_revoked := cs_revoked s @ ?asked, cs_rows := rows\<rparr>)"
    using assms(3-6) found upd
    by (auto simp: revoke_connection_def get_connection_def reconcile_def Let_def
        split: option.splits)
  then have "revoke_connection lookup' id ok i user now' s' = (Inr ?row, s')"
    using row assms(4)
    by (simp add: revoke_connection_def get_connection_def reconcile_def emit_conn_def)
  with out row show ?thesis by (simp add: emit_conn_def)
qed

theorem revoke_then_noop_witness:
  "\<exists>row. fst (revoke_connection (\<lambda>_. None) id True (js ''c'') (js ''u'') 9 (sample_conns Active)) = Inr row
     \<and> cc_status row = Revoked"
proof -
  let ?run = "revoke_connection (\<lambda>_. None) id True (js ''c'') (js ''u'') 9 (sample_conns Active)"
  have run: "?run = (fst ?run, snd ?run)" by simp
  have "conns_ok (cs_rows (sample_conns Active))"
    "sample_conn (js ''c'') Active \<in> set (cs_rows (sample_conns Active))"
    "cc_id (sample_conn (js ''c'') Active) = js ''c''" "cc_userId (sample_conn (js ''c'') Active) = js ''u''"
    "cc_status (sample_conn (js ''c'') Active) = Active"
    by (simp_all add: sample_conns_def sample_conn_def conns_ok_def)
  from revoke_then_noop [OF this run] show ?thesis by blast
qed

end
