(* ===== verification/PlanningRun.thy ===== *)
theory PlanningRun
  imports PlanningJobs Users Connectors
begin

text \<open>
  The use-cases that drive a planning job: \<open>SubmitPlanningJobUseCase\<close>,
  \<open>ProcessPlanningJobUseCase\<close> with its two transports, \<open>runClaimedPlanning\<close>,
  \<open>HandleContextResultChunkUseCase\<close>, \<open>HandleGatherTimeoutUseCase\<close> and
  \<open>GetPlanningJobUseCase\<close>. Their injected dependencies are parameters: every answer of a
  repository or service that the code awaits and that may throw is a sum, \<open>Inl\<close> for the
  thrown error. The two reads of the job's user are separate parameters, since consent can be
  withdrawn and an account disabled between them, and \<open>rd_meanwhile\<close> is what other requests
  do to the store of jobs between the claim and the final write. Next to its result each function returns the
  calls it made out of the API (\<open>ext_call\<close>), in order.
\<close>

section \<open>Dependencies\<close>

record prompt_texts =
  pt_system :: js_string
  pt_user :: js_string

record prompt =
  pm_id :: ident
  pm_featureType :: js_string
  pm_version :: js_string
  pm_systemTemplate :: js_string
  pm_template :: js_string
  pm_userInvocable :: bool
  pm_isActive :: bool
  pm_createdAt :: time
  pm_updatedAt :: time

record resolved_prompt =
  rp_version :: "js_string option"
  rp_texts :: prompt_texts

datatype source_type = SourceSection | SourceConnector

record source_meta =
  sm_id :: js_string
  sm_type :: source_type
  sm_title :: js_string
  sm_ref :: js_string
  sm_truncated :: bool

record prepared_context =
  pc_contextUsed :: json_obj
  pc_connectorContext :: json_obj
  pc_renderedContext :: js_string
  pc_sources :: "source_meta list"
  pc_sourceStrings :: "js_string list"

record validated_result =
  vr_fields :: json_obj
    \<comment> \<open>\<open>suggestions\<close>, \<open>outline\<close> and \<open>sources\<close>: everything but \<open>model\<close>\<close>
  vr_model :: "js_string option"

text \<open>\<open>PlanningPipeline\<close>: \<open>prepare\<close> never throws, \<open>plan\<close> may.\<close>

record pipeline =
  pl_prepare :: "planning_job \<Rightarrow> json_obj \<Rightarrow> prepared_context"
  pl_plan :: "prompt_texts \<Rightarrow> planning_job \<Rightarrow> prepared_context \<Rightarrow> app_error + validated_result"

datatype ext_call = CallGather | CallPrepare | CallPlan | CallPublish | CallSchedule

text \<open>What leaves a use-case when it throws.\<close>

datatype thrown = ThrownHttp http_error | ThrownApp app_error

section \<open>Prompt and user checks (\<open>planning-prompt.ts\<close>)\<close>

definition resolve_planning_prompt ::
    "prompt_texts \<Rightarrow> app_error + prompt option \<Rightarrow> app_error + resolved_prompt" where
  "resolve_planning_prompt built_in found =
     (case found of
        Inl e \<Rightarrow> Inl e
      | Inr (Some p) \<Rightarrow> Inr \<lparr>rp_version = Some (pm_version p),
          rp_texts = \<lparr>pt_system = pm_systemTemplate p, pt_user = pm_template p\<rparr>\<rparr>
      | Inr None \<Rightarrow> Inr \<lparr>rp_version = None, rp_texts = built_in\<rparr>)"

definition assert_job_user_active :: "app_error + user option \<Rightarrow> app_error + unit" where
  "assert_job_user_active found =
     (case found of
        Inl e \<Rightarrow> Inl e
      | Inr None \<Rightarrow> Inl job_user_inactive
      | Inr (Some u) \<Rightarrow>
          (if is_disabled u then Inl job_user_inactive
           else if \<not> has_current_ai_consent u then Inl job_consent_required
           else Inr ()))"

section \<open>The planning phase (\<open>run-claimed-planning.ts\<close>)\<close>

record run_deps =
  rd_prompt :: "app_error + prompt option"
  rd_built_in :: prompt_texts
  rd_user_before :: "app_error + user option"
  rd_user_again :: "app_error + user option"
  rd_pipeline :: pipeline
  rd_meanwhile :: "job_store \<Rightarrow> job_store"
  rd_write_error :: "app_error option"
  rd_now :: time

text \<open>
  A call of \<open>updateStatus\<close> that ends a job: it meets the store as it is then, and fails with
  \<open>rd_write_error\<close>, if there is one.
\<close>

definition write_status ::
    "'a run_deps_scheme \<Rightarrow> ident \<Rightarrow> status_patch \<Rightarrow> job_store \<Rightarrow>
      (app_error + planning_job option) \<times> job_store" where
  "write_status d i p st =
     (case rd_write_error d of
        Some e \<Rightarrow> (Inl e, st)
      | None \<Rightarrow> (let (j, st') = update_status i p st in (Inr j, st')))"

text \<open>
  The \<open>try\<close> block: its outcome, the prompt version and context recorded so far, and the calls.
\<close>

definition claimed_attempt ::
    "run_deps \<Rightarrow> planning_job \<Rightarrow> json_obj \<Rightarrow>
      (app_error + validated_result) \<times> js_string option \<times> json_obj \<times> ext_call list" where
  "claimed_attempt d claimed ctx =
     (case resolve_planning_prompt (rd_built_in d) (rd_prompt d) of
        Inl e \<Rightarrow> (Inl e, None, ctx, [])
      | Inr rp \<Rightarrow>
          (case assert_job_user_active (rd_user_before d) of
             Inl e \<Rightarrow> (Inl e, rp_version rp, ctx, [])
           | Inr _ \<Rightarrow>
               (let prep = pl_prepare (rd_pipeline d) claimed ctx in
                case assert_job_user_active (rd_user_again d) of
                  Inl e \<Rightarrow> (Inl e, rp_version rp, pc_contextUsed prep, [CallPrepare])
                | Inr _ \<Rightarrow>
                    (pl_plan (rd_pipeline d) (rp_texts rp) claimed prep, rp_version rp,
                     pc_contextUsed prep, [CallPrepare, CallPlan]))))"

definition failed_patch :: "app_error \<Rightarrow> time \<Rightarrow> status_patch" where
  "failed_patch err now = (patch_status Failed)\<lparr>
     sp_errorCode := Some (Some (failure_error_code err)),
     sp_errorMessage := Some (Some (safe_failure_message err)), sp_finishedAt := Some (Some now)\<rparr>"

definition completed_patch :: "validated_result \<Rightarrow> time \<Rightarrow> status_patch" where
  "completed_patch result now = (patch_status Completed)\<lparr>
     sp_result := Some (Some (vr_fields result)), sp_finishedAt := Some (Some now),
     sp_model := Some (vr_model result)\<rparr>"

definition run_claimed_planning ::
    "run_deps \<Rightarrow> planning_job \<Rightarrow> json_obj \<Rightarrow> job_store \<Rightarrow>
      (app_error + planning_job) \<times> job_store \<times> ext_call list" where
  "run_claimed_planning d claimed ctx st =
     (case claimed_attempt d claimed ctx of
        (Inl err, version, used, calls) \<Rightarrow>
          (let patch = (failed_patch err (rd_now d))\<lparr>sp_promptVersion := Some version,
                   sp_contextUsed := Some (Some used)\<rparr>;
               (failed, st') = write_status d (pj_id claimed) patch (rd_meanwhile d st)
           in (map_sum id (case_option
                 (claimed\<lparr>pj_status := Failed, pj_errorCode := Some (failure_error_code err),
                   pj_errorMessage := Some (safe_failure_message err), pj_promptVersion := version,
                   pj_contextUsed := Some used\<rparr>) id) failed, st', calls))
      | (Inr result, version, used, calls) \<Rightarrow>
          (let patch = (completed_patch result (rd_now d))\<lparr>sp_promptVersion := Some version,
                   sp_contextUsed := Some (Some used)\<rparr>;
               (completed, st') = write_status d (pj_id claimed) patch (rd_meanwhile d st)
           in (map_sum id (case_option
                 (claimed\<lparr>pj_status := Completed, pj_result := Some (vr_fields result),
                   pj_promptVersion := version, pj_model := vr_model result,
                   pj_contextUsed := Some used\<rparr>) id) completed, st', calls)))"

section \<open>Processing a queued job (\<open>process-planning-job.use-case.ts\<close>)\<close>

definition planning_job_not_found :: "ident \<Rightarrow> http_error" where
  "planning_job_not_found i = NotFound (js ''Planning job '' @ i @ js '' not found'')"

record legacy_deps = run_deps +
  ld_gather :: "app_error + json_obj"

definition legacy_attempt ::
    "legacy_deps \<Rightarrow> resolved_prompt \<Rightarrow> planning_job \<Rightarrow>
      (app_error + validated_result) \<times> json_obj option \<times> ext_call list" where
  "legacy_attempt d rp claimed =
     (case assert_job_user_active (rd_user_before d) of
        Inl e \<Rightarrow> (Inl e, None, [])
      | Inr _ \<Rightarrow>
          (case ld_gather d of
             Inl e \<Rightarrow> (Inl e, None, [CallGather])
           | Inr gathered \<Rightarrow>
               (let prep = pl_prepare (rd_pipeline d) claimed gathered in
                case assert_job_user_active (rd_user_again d) of
                  Inl e \<Rightarrow> (Inl e, Some (pc_contextUsed prep), [CallGather, CallPrepare])
                | Inr _ \<Rightarrow>
                    (pl_plan (rd_pipeline d) (rp_texts rp) claimed prep, Some (pc_contextUsed prep),
                     [CallGather, CallPrepare, CallPlan]))))"

definition execute_legacy ::
    "legacy_deps \<Rightarrow> ident \<Rightarrow> time \<Rightarrow> job_store \<Rightarrow>
      (thrown + bool \<times> planning_job) \<times> job_store \<times> ext_call list" where
  "execute_legacy d job_id now st =
     (case claim_for_processing job_id now st of
        (None, st1) \<Rightarrow>
          (case find_job job_id st1 of
             None \<Rightarrow> (Inl (ThrownHttp (planning_job_not_found job_id)), st1, [])
           | Some existing \<Rightarrow> (Inr (False, existing), st1, []))
      | (Some claimed, st1) \<Rightarrow>
          (case resolve_planning_prompt (rd_built_in d) (rd_prompt d) of
             Inl e \<Rightarrow> (Inl (ThrownApp e), st1, [])
           | Inr rp \<Rightarrow>
               (case legacy_attempt d rp claimed of
                  (Inl err, used, calls) \<Rightarrow>
                    (let patch = (failed_patch err (rd_now d))\<lparr>
                             sp_promptVersion := Some (rp_version rp), sp_contextUsed := Some used\<rparr>;
                         (failed, st2) = write_status d (pj_id claimed) patch (rd_meanwhile d st1)
                     in (map_sum ThrownApp (\<lambda>j. (True, case_option
                           (claimed\<lparr>pj_status := Failed,
                             pj_errorCode := Some (failure_error_code err),
                             pj_errorMessage := Some (safe_failure_message err),
                             pj_promptVersion := rp_version rp, pj_contextUsed := used\<rparr>) id j)) failed,
                         st2, calls))
                | (Inr result, used, calls) \<Rightarrow>
                    (let patch = (completed_patch result (rd_now d))\<lparr>
                             sp_promptVersion := Some (rp_version rp),
                             sp_contextUsed := map_option Some used\<rparr>;
                         (completed, st2) = write_status d (pj_id claimed) patch (rd_meanwhile d st1)
                     in (map_sum ThrownApp (\<lambda>j. (True, case_option
                           (claimed\<lparr>pj_status := Completed,
                             pj_result := Some (vr_fields result), pj_promptVersion := rp_version rp,
                             pj_model := vr_model result, pj_contextUsed := used\<rparr>) id j)) completed,
                         st2, calls)))))"

text \<open>
  The RabbitMQ transport. \<open>td_active\<close> is the answer of \<open>findActiveByUser\<close>, \<open>None\<close> when no
  connection repository is bound; \<open>td_schedule\<close> that of \<open>scheduleTimeout\<close>, \<open>None\<close> when no
  scheduler is bound. \<open>td_checking\<close>, \<open>td_looking_up\<close> and \<open>td_publishing\<close> are what other
  requests do to the store during the user check, the connector lookup and the publish.
\<close>

record transport_deps = run_deps +
  td_user_gather :: "app_error + user option"
  td_active :: "(app_error + connection list) option"
  td_checking :: "job_store \<Rightarrow> job_store"
  td_looking_up :: "job_store \<Rightarrow> job_store"
  td_publishing :: "job_store \<Rightarrow> job_store"
  td_publish :: "app_error + unit"
  td_schedule :: "(app_error + unit) option"

definition publish_failed_message :: js_string where
  "publish_failed_message = js ''Failed to publish context gather request''"

definition transport_connectors ::
    "transport_deps \<Rightarrow> planning_job \<Rightarrow> app_error + connector_ref list" where
  "transport_connectors d claimed =
     (case td_active d of
        None \<Rightarrow> Inr []
      | Some found \<Rightarrow> map_sum id (\<lambda>active. resolve_active_connector_references active
                                    (pj_connectors claimed)) found)"

text \<open>With nothing to gather, the worker takes the job to planning itself.\<close>

definition plan_without_gather ::
    "transport_deps \<Rightarrow> planning_job \<Rightarrow> job_store \<Rightarrow>
      (thrown + bool \<times> planning_job) \<times> job_store \<times> ext_call list" where
  "plan_without_gather d claimed st =
     (case claim_for_planning (pj_id claimed) [] st of
        (None, st1) \<Rightarrow>
          (Inr (False, case find_job (pj_id claimed) st1 of None \<Rightarrow> claimed | Some j \<Rightarrow> j), st1, [])
      | (Some planning, st1) \<Rightarrow>
          (let (finished, st2, calls) = run_claimed_planning (run_deps.truncate d) planning [] st1
           in (map_sum ThrownApp (\<lambda>j. (True, j)) finished, st2, calls)))"

definition publish_gather ::
    "transport_deps \<Rightarrow> planning_job \<Rightarrow> time \<Rightarrow> job_store \<Rightarrow>
      (thrown + bool \<times> planning_job) \<times> job_store \<times> ext_call list" where
  "publish_gather d claimed now st =
     (case td_publish d of
        Inl _ \<Rightarrow>
          (let patch = (patch_status Failed)
                 \<lparr>sp_errorCode := Some (Some (js ''CONTEXT_ENGINE_PUBLISH_FAILED'')),
                  sp_errorMessage := Some (Some publish_failed_message),
                  sp_finishedAt := Some (Some now)\<rparr>;
               (failed, st') = write_status d (pj_id claimed) patch (td_publishing d st)
           in (map_sum ThrownApp (\<lambda>j. (True, case_option
                 (claimed\<lparr>pj_status := Failed,
                   pj_errorCode := Some (js ''CONTEXT_ENGINE_PUBLISH_FAILED''),
                   pj_errorMessage := Some publish_failed_message\<rparr>) id j)) failed,
               st', [CallPublish]))
      | Inr _ \<Rightarrow>
          (case td_schedule d of
             Some (Inl e) \<Rightarrow> (Inl (ThrownApp e), td_publishing d st, [CallPublish, CallSchedule])
           | Some (Inr _) \<Rightarrow> (Inr (True, claimed), td_publishing d st, [CallPublish, CallSchedule])
           | None \<Rightarrow> (Inr (True, claimed), td_publishing d st, [CallPublish])))"

definition execute_via_transport ::
    "transport_deps \<Rightarrow> ident \<Rightarrow> time \<Rightarrow> job_store \<Rightarrow>
      (thrown + bool \<times> planning_job) \<times> job_store \<times> ext_call list" where
  "execute_via_transport d job_id now st =
     (case claim_for_gathering job_id now st of
        (None, st1) \<Rightarrow>
          (case find_job job_id st1 of
             None \<Rightarrow> (Inl (ThrownHttp (planning_job_not_found job_id)), st1, [])
           | Some existing \<Rightarrow> (Inr (False, existing), st1, []))
      | (Some claimed, st1) \<Rightarrow>
          (case assert_job_user_active (td_user_gather d) of
             Inl err \<Rightarrow>
               (let (failed, st2) = write_status d (pj_id claimed) (failed_patch err now)
                        (td_checking d st1)
                in (map_sum ThrownApp (\<lambda>j. (True, case_option
                      (claimed\<lparr>pj_status := Failed, pj_errorCode := Some (failure_error_code err),
                        pj_errorMessage := Some (safe_failure_message err)\<rparr>) id j)) failed, st2, []))
           | Inr _ \<Rightarrow>
               (let st2 = td_looking_up d (td_checking d st1) in
                case transport_connectors d claimed of
                  Inl e \<Rightarrow> (Inl (ThrownApp e), st2, [])
                | Inr refs \<Rightarrow>
                    (if refs = [] then plan_without_gather d claimed st2
                     else publish_gather d claimed now st2))))"

section \<open>Lemmas\<close>

lemma failed_patch_sel [simp]:
  "sp_status (failed_patch e now) = Failed" "sp_result (failed_patch e now) = None"
  "sp_errorCode (failed_patch e now) = Some (Some (failure_error_code e))"
  "sp_errorMessage (failed_patch e now) = Some (Some (safe_failure_message e))"
  "sp_finishedAt (failed_patch e now) = Some (Some now)"
  by (simp_all add: failed_patch_def)

lemma completed_patch_sel [simp]:
  "sp_status (completed_patch r now) = Completed"
  "sp_result (completed_patch r now) = Some (Some (vr_fields r))"
  "sp_errorCode (completed_patch r now) = None" "sp_errorMessage (completed_patch r now) = None"
  "sp_finishedAt (completed_patch r now) = Some (Some now)"
  by (simp_all add: completed_patch_def)

lemma update_status_hit:
  "st i = Some doc \<Longrightarrow>
    update_status i p st = (Some (to_domain i (apply_patch p doc)), st(i \<mapsto> apply_patch p doc))"
  by (simp add: update_status_def domain_result_def store_simps)

lemma write_status_frame [frame_simps]:
  "k \<noteq> i \<Longrightarrow> snd (write_status d i p st) k = st k"
  by (auto simp: write_status_def update_status_def domain_result_def Let_def frame_simps
      split: option.splits prod.splits)

lemma assert_job_user_active_Inr:
  "assert_job_user_active found = Inr v \<longleftrightarrow>
     (\<exists>u. found = Inr (Some u) \<and> \<not> is_disabled u \<and> has_current_ai_consent u)"
  by (auto simp: assert_job_user_active_def split: sum.splits option.splits)

text \<open>A claim wins on a document that had the status and leaves the winner's on it.\<close>

lemma claim_for_processingE:
  assumes "claim_for_processing i now st = (Some j, st')"
  obtains d where "st i = Some d" "pd_status d = Pending"
    "j = to_domain i (d\<lparr>pd_status := Running, pd_started_at := Some now\<rparr>)"
    "st' = st(i \<mapsto> d\<lparr>pd_status := Running, pd_started_at := Some now\<rparr>)"
  using assms by (auto simp: job_ops elim: update_where_SomeE
      simp: update_where_def split: option.splits if_splits)

lemma claim_for_gatheringE:
  assumes "claim_for_gathering i now st = (Some j, st')"
  obtains d where "st i = Some d" "pd_status d = Pending"
    "j = to_domain i (d\<lparr>pd_status := Gathering, pd_started_at := Some now\<rparr>)"
    "st' = st(i \<mapsto> d\<lparr>pd_status := Gathering, pd_started_at := Some now\<rparr>)"
  using assms by (auto simp: job_ops update_where_def split: option.splits if_splits)

lemma claim_for_planningE:
  assumes "claim_for_planning i ctx st = (Some j, st')"
  obtains d where "st i = Some d" "pd_status d = Gathering"
    "j = to_domain i (d\<lparr>pd_status := Planning, pd_context_used := Some ctx\<rparr>)"
    "st' = st(i \<mapsto> d\<lparr>pd_status := Planning, pd_context_used := Some ctx\<rparr>)"
  using assms by (auto simp: job_ops update_where_def split: option.splits if_splits)

text \<open>What a user check that must pass before a call says about the user read at it.\<close>

definition consenting :: "app_error + user option \<Rightarrow> bool" where
  "consenting found \<longleftrightarrow>
     (\<exists>u. found = Inr (Some u) \<and> u_disabledAt u = None \<and> u_aiConsentAt u \<noteq> None \<and>
          u_aiConsentVersion u = Some ai_notice_version)"

lemma active_iff_consenting:
  "(\<exists>v. assert_job_user_active found = Inr v) \<longleftrightarrow> consenting found"
  by (auto simp: assert_job_user_active_Inr consenting_def is_disabled_def has_current_ai_consent_def)

lemma claimed_attempt_calls:
  assumes "claimed_attempt d claimed ctx = (r, v, used, calls)"
  shows "calls = [] \<or> (consenting (rd_user_before d) \<and>
    (calls = [CallPrepare] \<or> (calls = [CallPrepare, CallPlan] \<and> consenting (rd_user_again d))))"
  using assms active_iff_consenting [of "rd_user_before d"] active_iff_consenting [of "rd_user_again d"]
  by (auto simp: claimed_attempt_def Let_def split: sum.splits)

lemma run_claimed_planning_calls:
  assumes "run_claimed_planning d claimed ctx st = (r, st', calls)"
  shows "calls = snd (snd (snd (claimed_attempt d claimed ctx)))"
  using assms by (auto simp: run_claimed_planning_def Let_def split: prod.splits sum.splits)

lemma legacy_attempt_calls:
  assumes "legacy_attempt d rp claimed = (r, used, calls)"
  shows "calls = [] \<or> (consenting (rd_user_before d) \<and>
    (calls = [CallGather] \<or> calls = [CallGather, CallPrepare] \<or>
     (calls = [CallGather, CallPrepare, CallPlan] \<and> consenting (rd_user_again d))))"
  using assms active_iff_consenting [of "rd_user_before d"] active_iff_consenting [of "rd_user_again d"]
  by (auto simp: legacy_attempt_def Let_def split: sum.splits)

lemma publish_gather_calls:
  "publish_gather d claimed now st = (r, st', calls) \<Longrightarrow> set calls \<subseteq> {CallPublish, CallSchedule}"
  by (auto simp: publish_gather_def Let_def split: sum.splits option.splits prod.splits)

lemma plan_without_gather_calls:
  assumes "plan_without_gather d claimed st = (r, st', calls)"
  shows "CallPublish \<notin> set calls \<and>
    (CallPlan \<in> set calls \<longrightarrow> consenting (rd_user_before d) \<and> consenting (rd_user_again d))"
proof -
  have "set calls \<subseteq> {} \<or> (\<exists>j s r' s'. run_claimed_planning (run_deps.truncate d) j [] s = (r', s', calls))"
    using assms by (auto simp: plan_without_gather_def split: prod.splits option.splits)
  then show ?thesis
  proof
    assume "\<exists>j s r' s'. run_claimed_planning (run_deps.truncate d) j [] s = (r', s', calls)"
    then obtain j s r' s' where run: "run_claimed_planning (run_deps.truncate d) j [] s = (r', s', calls)"
      by blast
    obtain a v u c where att: "claimed_attempt (run_deps.truncate d) j [] = (a, v, u, c)"
      by (cases "claimed_attempt (run_deps.truncate d) j []")
    have "rd_user_before (run_deps.truncate d) = rd_user_before d"
      "rd_user_again (run_deps.truncate d) = rd_user_again d"
      by (simp_all add: run_deps.defs)
    with run_claimed_planning_calls [OF run] claimed_attempt_calls [OF att] att show ?thesis by auto
  qed simp
qed

section \<open>Properties\<close>

text \<open>The planning phase of a claimed job always ends the job, whatever the prompt lookup, the
  user checks, the retrieval and the planner answer and whatever other requests do to the job in
  the meantime, as long as the final write reaches the store: the stored job is completed with the
  planner's result and model, or failed with the code and message of the error, it carries the
  context that was used, it is what the caller gets back, and no other job changes.\<close>

theorem planning_phase_ends_job:
  assumes "rd_write_error d = None"
    and "rd_meanwhile d st (pj_id claimed) = Some before"
    and "run_claimed_planning d claimed ctx st = (r, st', calls)"
    and "claimed_attempt d claimed ctx = (out, version, used, calls')"
  shows "\<exists>after. st' = (rd_meanwhile d st)(pj_id claimed \<mapsto> after) \<and>
    r = Inr (to_domain (pj_id claimed) after) \<and>
    pd_context_used after = Some used \<and> pd_finished_at after = Some (rd_now d) \<and>
    pd_user_id after = pd_user_id before \<and>
    (case out of
       Inr result \<Rightarrow> pd_status after = Completed \<and> pd_result after = Some (vr_fields result)
     | Inl err \<Rightarrow> pd_status after = Failed \<and> pd_error_code after = Some (failure_error_code err) \<and>
         pd_error_message after = Some (safe_failure_message err))"
  using assms
  by (auto simp: run_claimed_planning_def write_status_def update_status_hit Let_def
      split: sum.splits)

definition sample_user :: user where
  "sample_user = \<lparr>u_id = js ''u'', u_email = js ''a@b'', u_passwordHash = [], u_displayName = [],
     u_role = RoleUser, u_xp = 0, u_level = 1, u_lastActiveAt = None, u_disabledAt = None,
     u_emailVerifiedAt = None, u_tokenVersion = 0, u_aiConsentAt = Some 1,
     u_aiConsentVersion = Some ai_notice_version\<rparr>"

definition sample_pipeline :: pipeline where
  "sample_pipeline = \<lparr>pl_prepare = (\<lambda>j ctx. \<lparr>pc_contextUsed = ctx, pc_connectorContext = ctx,
       pc_renderedContext = [], pc_sources = [], pc_sourceStrings = []\<rparr>),
     pl_plan = (\<lambda>t j p. Inr \<lparr>vr_fields = [(js ''outline'', JNull)], vr_model = None\<rparr>)\<rparr>"

definition sample_deps :: run_deps where
  "sample_deps = \<lparr>rd_prompt = Inr None, rd_built_in = \<lparr>pt_system = [], pt_user = []\<rparr>,
     rd_user_before = Inr (Some sample_user), rd_user_again = Inr (Some sample_user),
     rd_pipeline = sample_pipeline, rd_meanwhile = id, rd_write_error = None, rd_now = 9\<rparr>"

definition sample_claimed :: planning_job where
  "sample_claimed = to_domain (js ''j'') ((new_job_doc sample_data 0)\<lparr>pd_status := Planning\<rparr>)"

lemma sample_user_active [simp]:
  "assert_job_user_active (Inr (Some sample_user)) = Inr ()"
  by (simp add: assert_job_user_active_def sample_user_def is_disabled_def has_current_ai_consent_def)

theorem planning_phase_ends_job_witness:
  "\<exists>after. fst (snd (run_claimed_planning sample_deps sample_claimed [] (sample_store Planning)))
      (js ''j'') = Some after \<and> pd_status after = Completed"
proof -
  let ?st = "sample_store Planning"
  let ?run = "run_claimed_planning sample_deps sample_claimed [] ?st"
  let ?att = "claimed_attempt sample_deps sample_claimed []"
  have run: "?run = (fst ?run, fst (snd ?run), snd (snd ?run))" by simp
  have att: "?att = (Inr \<lparr>vr_fields = [(js ''outline'', JNull)], vr_model = None\<rparr>, None, [],
      [CallPrepare, CallPlan])"
    by (simp add: claimed_attempt_def resolve_planning_prompt_def sample_deps_def sample_pipeline_def Let_def)
  have ok: "rd_write_error sample_deps = None"
    and there: "rd_meanwhile sample_deps ?st (pj_id sample_claimed) =
      Some ((new_job_doc sample_data 0)\<lparr>pd_status := Planning\<rparr>)"
    by (simp_all add: sample_deps_def sample_claimed_def)
  from planning_phase_ends_job [OF ok there run att] show ?thesis
    by (auto simp: sample_claimed_def)
qed



text \<open>Delivering a planning job to a worker again is harmless on both transports: if the job is no
  longer pending, the worker reports it as it is, the store is unchanged, and no gather, retrieval,
  planner or broker call is made; if there is no such job, it is a 404.\<close>

theorem redelivered_job_noop:
  assumes "\<forall>doc. st i = Some doc \<longrightarrow> pd_status doc \<noteq> Pending"
  shows "execute_legacy d i now st =
      ((case st i of None \<Rightarrow> Inl (ThrownHttp (planning_job_not_found i))
        | Some doc \<Rightarrow> Inr (False, to_domain i doc)), st, []) \<and>
    execute_via_transport t i now st =
      ((case st i of None \<Rightarrow> Inl (ThrownHttp (planning_job_not_found i))
        | Some doc \<Rightarrow> Inr (False, to_domain i doc)), st, [])"
proof -
  have "claim_for_processing i now st = (None, st)" "claim_for_gathering i now st = (None, st)"
    using pending.loses_without_guard [of _ i st] assms by (auto simp: pending_claims_def)
  then show ?thesis
    by (auto simp: execute_legacy_def execute_via_transport_def find_job_def split: option.splits)
qed

definition sample_legacy :: legacy_deps where
  "sample_legacy = run_deps.extend sample_deps \<lparr>ld_gather = Inr []\<rparr>"

definition sample_transport :: transport_deps where
  "sample_transport = run_deps.extend sample_deps (transport_deps.fields (Inr (Some sample_user))
     (Some (Inr [])) id id id (Inr ()) (Some (Inr ())))"

theorem redelivered_job_noop_witness:
  "execute_legacy sample_legacy (js ''j'') 5 (sample_store Completed) =
     (Inr (False, to_domain (js ''j'') ((new_job_doc sample_data 0)\<lparr>pd_status := Completed\<rparr>)),
      sample_store Completed, [])"
  using redelivered_job_noop [of "sample_store Completed" "js ''j''" sample_legacy 5] by simp

fun hide :: "app_error \<Rightarrow> app_error" where
  "hide (OtherError _ _) = OtherError [] []"
| "hide (ThrownValue _) = ThrownValue JNull"
| "hide e = e"

lemma hide_safe [simp]:
  "failure_error_code (hide e) = failure_error_code e"
  "safe_failure_message (hide e) = safe_failure_message e"
  by (cases e; simp)+

definition hide_run :: "'a run_deps_scheme \<Rightarrow> 'a run_deps_scheme" where
  "hide_run d = d\<lparr>rd_prompt := map_sum hide id (rd_prompt d),
     rd_user_before := map_sum hide id (rd_user_before d),
     rd_user_again := map_sum hide id (rd_user_again d),
     rd_pipeline := (rd_pipeline d)\<lparr>pl_plan := (\<lambda>t j p. map_sum hide id (pl_plan (rd_pipeline d) t j p))\<rparr>\<rparr>"

lemma hide_run_sel [simp]:
  "rd_prompt (hide_run d) = map_sum hide id (rd_prompt d)"
  "rd_built_in (hide_run d) = rd_built_in d"
  "rd_user_before (hide_run d) = map_sum hide id (rd_user_before d)"
  "rd_user_again (hide_run d) = map_sum hide id (rd_user_again d)"
  "rd_meanwhile (hide_run d) = rd_meanwhile d" "rd_now (hide_run d) = rd_now d"
  "pl_prepare (rd_pipeline (hide_run d)) = pl_prepare (rd_pipeline d)"
  "pl_plan (rd_pipeline (hide_run d)) t j p = map_sum hide id (pl_plan (rd_pipeline d) t j p)"
  "rd_write_error (hide_run d) = rd_write_error d"
  by (simp_all add: hide_run_def)

lemma resolve_planning_prompt_hide [simp]:
  "resolve_planning_prompt b (map_sum hide id f) = map_sum hide id (resolve_planning_prompt b f)"
  by (auto simp: resolve_planning_prompt_def split: sum.splits option.splits)

lemma assert_job_user_active_hide [simp]:
  "assert_job_user_active (map_sum hide id f) = map_sum hide id (assert_job_user_active f)"
  by (auto simp: assert_job_user_active_def job_user_inactive_def job_consent_required_def
      split: sum.splits option.splits)

lemma claimed_attempt_hide:
  "claimed_attempt (hide_run d) claimed ctx =
     apfst (map_sum hide id) (claimed_attempt d claimed ctx)"
  by (auto simp: claimed_attempt_def Let_def split: sum.splits)

lemma write_status_hide [simp]: "write_status (hide_run d) = write_status d"
  by (simp add: write_status_def fun_eq_iff)

lemma legacy_attempt_hide:
  assumes "ld_gather d' = map_sum hide id (ld_gather d)"
    and "run_deps.truncate d' = hide_run (run_deps.truncate d)"
  shows "legacy_attempt d' rp claimed = apfst (map_sum hide id) (legacy_attempt d rp claimed)"
proof -
  from assms(2) have "rd_user_before d' = map_sum hide id (rd_user_before d)"
    "rd_user_again d' = map_sum hide id (rd_user_again d)"
    "pl_prepare (rd_pipeline d') = pl_prepare (rd_pipeline d)"
    "\<And>t j p. pl_plan (rd_pipeline d') t j p = map_sum hide id (pl_plan (rd_pipeline d) t j p)"
    by (auto simp: run_deps.defs hide_run_def)
  with assms(1) show ?thesis
    by (auto simp: legacy_attempt_def Let_def split: sum.splits)
qed

definition hide_legacy :: "legacy_deps \<Rightarrow> legacy_deps" where
  "hide_legacy d = (hide_run d)\<lparr>ld_gather := map_sum hide id (ld_gather d)\<rparr>"

lemma hide_legacy_sel [simp]:
  "ld_gather (hide_legacy d) = map_sum hide id (ld_gather d)"
  "run_deps.truncate (hide_legacy d) = hide_run (run_deps.truncate d)"
  "rd_prompt (hide_legacy d) = map_sum hide id (rd_prompt d)"
  "rd_built_in (hide_legacy d) = rd_built_in d" "rd_meanwhile (hide_legacy d) = rd_meanwhile d"
  "rd_now (hide_legacy d) = rd_now d" "rd_write_error (hide_legacy d) = rd_write_error d"
  by (simp_all add: hide_legacy_def hide_run_def run_deps.defs)

text \<open>Text of an error that is not one of the typed errors (a database driver's, the network's,
  the context engine's, any thrown value) has no influence on what is stored: replacing it by the
  empty text in every dependency leaves the same store, for the shared planning phase and for the
  in-process worker.\<close>

theorem raw_error_text_not_stored:
  "fst (snd (run_claimed_planning (hide_run d) claimed ctx st)) =
     fst (snd (run_claimed_planning d claimed ctx st)) \<and>
   fst (snd (execute_legacy (hide_legacy l) i now st)) = fst (snd (execute_legacy l i now st))"
proof
  show "fst (snd (run_claimed_planning (hide_run d) claimed ctx st)) =
     fst (snd (run_claimed_planning d claimed ctx st))"
    by (auto simp: run_claimed_planning_def claimed_attempt_hide failed_patch_def Let_def
        split: prod.splits sum.splits)
  have attempt: "legacy_attempt (hide_legacy l) rp c = apfst (map_sum hide id) (legacy_attempt l rp c)"
    for rp c by (rule legacy_attempt_hide) simp_all
  have final: "write_status (hide_legacy l) = write_status l"
    by (simp add: write_status_def fun_eq_iff)
  have patch: "failed_patch (hide e) t = failed_patch e t" for e t
    by (simp add: failed_patch_def)
  show "fst (snd (execute_legacy (hide_legacy l) i now st)) = fst (snd (execute_legacy l i now st))"
    by (auto simp: execute_legacy_def attempt final patch Let_def
        split: option.splits prod.splits sum.splits)
qed


text \<open>On the in-process transport a claimed job always ends: once the prompt lookup answered, the
  job is completed with the planner's result, or failed with the error's code and message, after at
  most one gather, one retrieval and one planner call, made only for a user who passed the check
  before them.\<close>

theorem legacy_job_ends:
  assumes "st i = Some doc" and "pd_status doc = Pending"
    and "resolve_planning_prompt (rd_built_in d) (rd_prompt d) = Inr rp"
    and "rd_write_error d = None" and "\<And>s. s i \<noteq> None \<Longrightarrow> rd_meanwhile d s i \<noteq> None"
    and "legacy_attempt d rp (to_domain i (doc\<lparr>pd_status := Running, pd_started_at := Some now\<rparr>)) =
      (out, used, calls)"
    and "execute_legacy d i now st = (r, st', calls')"
  shows "\<exists>after. st' i = Some after \<and> r = Inr (True, to_domain i after) \<and> calls' = calls \<and>
    (case out of
       Inr result \<Rightarrow> pd_status after = Completed \<and> pd_result after = Some (vr_fields result) \<and>
         calls = [CallGather, CallPrepare, CallPlan]
     | Inl err \<Rightarrow> pd_status after = Failed \<and> pd_error_code after = Some (failure_error_code err) \<and>
        pd_error_message after = Some (safe_failure_message err)) \<and>
    distinct calls \<and> (calls \<noteq> [] \<longrightarrow> consenting (rd_user_before d)) \<and>
    (CallPlan \<in> set calls \<longrightarrow> consenting (rd_user_again d))"
proof -
  let ?doc = "doc\<lparr>pd_status := Running, pd_started_at := Some now\<rparr>"
  let ?st = "st(i \<mapsto> ?doc)" and ?job = "to_domain i ?doc"
  have claim: "claim_for_processing i now st = (Some ?job, ?st)"
    using assms(1,2) by (simp add: job_ops store_simps)
  obtain before where before: "rd_meanwhile d ?st i = Some before"
    using assms(5) [of ?st] by auto
  have finished: "out = Inr result \<Longrightarrow> calls = [CallGather, CallPrepare, CallPlan]" for result
    using assms(6) by (auto simp: legacy_attempt_def Let_def split: sum.splits)
  show ?thesis
    using assms(7) claim assms(3,4,6) before legacy_attempt_calls [OF assms(6)] finished
    by (auto simp: execute_legacy_def write_status_def update_status_hit Let_def split: sum.splits)
qed

theorem legacy_job_ends_witness:
  "\<exists>after. fst (snd (execute_legacy sample_legacy (js ''j'') 5 (sample_store Pending))) (js ''j'') =
     Some after"
proof -
  let ?run = "execute_legacy sample_legacy (js ''j'') 5 (sample_store Pending)"
  have run: "?run = (fst ?run, fst (snd ?run), snd (snd ?run))" by simp
  have prompt: "resolve_planning_prompt (rd_built_in sample_legacy) (rd_prompt sample_legacy) =
      Inr \<lparr>rp_version = None, rp_texts = \<lparr>pt_system = [], pt_user = []\<rparr>\<rparr>"
    by (simp add: resolve_planning_prompt_def sample_legacy_def sample_deps_def run_deps.defs)
  let ?job = "to_domain (js ''j'') ((new_job_doc sample_data 0)\<lparr>pd_status := Running, pd_started_at := Some 5\<rparr>)"
  have att: "legacy_attempt sample_legacy \<lparr>rp_version = None, rp_texts = \<lparr>pt_system = [], pt_user = []\<rparr>\<rparr>
      ?job = (Inr \<lparr>vr_fields = [(js ''outline'', JNull)], vr_model = None\<rparr>, Some [],
        [CallGather, CallPrepare, CallPlan])"
    by (simp add: legacy_attempt_def sample_legacy_def sample_deps_def sample_pipeline_def
        run_deps.defs Let_def)
  have there: "sample_store Pending (js ''j'') = Some (new_job_doc sample_data 0)"
    by (simp add: new_job_doc_def)
  have "rd_write_error sample_legacy = None" "\<And>s. rd_meanwhile sample_legacy s = s"
    by (simp_all add: sample_legacy_def sample_deps_def run_deps.defs)
  then show ?thesis
    using legacy_job_ends [OF there _ prompt _ _ att run] by (auto simp: new_job_doc_def)
qed

text \<open>On the broker transport the gather request is published only for a pending job of a
  consenting user with at least one connection to gather from, and its worker reaches the
  planner only when there is none, after three passed user checks.\<close>

theorem transport_gather_published:
  assumes "execute_via_transport d i now st = (r, st', calls)"
  shows "(CallPublish \<in> set calls \<longrightarrow>
      (\<exists>doc. st i = Some doc \<and> pd_status doc = Pending \<and> consenting (td_user_gather d) \<and>
        (\<exists>active. td_active d = Some (Inr active) \<and>
           resolve_active_connector_references active (pd_connectors doc) \<noteq> [])) \<and>
      CallPlan \<notin> set calls) \<and>
    (CallPlan \<in> set calls \<longrightarrow> consenting (td_user_gather d) \<and> consenting (rd_user_before d) \<and>
       consenting (rd_user_again d))"
proof (cases "claim_for_gathering i now st")
  case (Pair cl st1)
  show ?thesis
  proof (cases cl)
    case None
    with Pair assms show ?thesis
      by (auto simp: execute_via_transport_def split: option.splits)
  next
    case (Some claimed)
    with Pair obtain doc where doc: "st i = Some doc" "pd_status doc = Pending"
      "claimed = to_domain i (doc\<lparr>pd_status := Gathering, pd_started_at := Some now\<rparr>)"
      by (auto elim: claim_for_gatheringE)
    let ?st = "td_looking_up d (td_checking d st1)"
    show ?thesis
    proof (cases "assert_job_user_active (td_user_gather d)")
      case (Inl e)
      with Pair Some assms show ?thesis
        by (auto simp: execute_via_transport_def Let_def split: prod.splits)
    next
      case (Inr v)
      then have user: "consenting (td_user_gather d)"
        using active_iff_consenting [of "td_user_gather d"] by blast
      show ?thesis
      proof (cases "transport_connectors d claimed")
        case (Inl e)
        with Inr Pair Some assms show ?thesis
          by (auto simp: execute_via_transport_def Let_def)
      next
        case refs: (Inr refs)
        show ?thesis
        proof (cases "refs = []")
          case True
          with Inr Pair Some assms refs have "plan_without_gather d claimed ?st = (r, st', calls)"
            by (simp add: execute_via_transport_def Let_def)
          from plan_without_gather_calls [OF this] user show ?thesis by auto
        next
          case False
          with Inr Pair Some assms refs have "publish_gather d claimed now ?st = (r, st', calls)"
            by (simp add: execute_via_transport_def Let_def)
          from publish_gather_calls [OF this] have "CallPlan \<notin> set calls" by auto
          moreover from refs False doc(3) obtain active where "td_active d = Some (Inr active)"
            "resolve_active_connector_references active (pd_connectors doc) \<noteq> []"
            by (cases "the (td_active d)") (auto simp: transport_connectors_def split: option.splits)
          ultimately show ?thesis using user doc by blast
        qed
      qed
    qed
  qed
qed


definition sample_connection :: connection where
  "sample_connection = \<lparr>cc_id = js ''c'', cc_userId = js ''u'', cc_provider = Notion,
     cc_account = Some (js ''ac''), cc_status = Active, cc_connectedAt = None, cc_createdAt = 0,
     cc_updatedAt = 0\<rparr>"

definition sample_gather_store :: job_store where
  "sample_gather_store =
     [js ''j'' \<mapsto> (new_job_doc sample_data 0)\<lparr>pd_connectors := [js ''notion'']\<rparr>]"

theorem transport_gather_published_witness:
  "consenting (td_user_gather (sample_transport\<lparr>td_active := Some (Inr [sample_connection])\<rparr>))"
proof -
  let ?d = "sample_transport\<lparr>td_active := Some (Inr [sample_connection])\<rparr>"
  let ?run = "execute_via_transport ?d (js ''j'') 5 sample_gather_store"
  have run: "?run = (fst ?run, fst (snd ?run), snd (snd ?run))" by simp
  have "snd (snd ?run) = [CallPublish, CallSchedule]"
    by (simp add: execute_via_transport_def job_ops update_where_def sample_gather_store_def
        new_job_doc_def sample_transport_def transport_deps.defs run_deps.defs
        transport_connectors_def to_domain_def sample_connection_def publish_gather_def Let_def)
  with transport_gather_published [OF run] show ?thesis by auto
qed

text \<open>The worker of the in-process transport looks the prompt up after its claim and outside its
  error handling. When that lookup fails, the claimed job stays running with no one working on it:
  the error leaves the use-case, and every later delivery of the job is a no-op.\<close>

theorem legacy_prompt_failure_strands_job:
  assumes "st i = Some doc" and "pd_status doc = Pending" and "rd_prompt d = Inl err"
    and "execute_legacy d i now st = (r, st', calls)"
  shows "r = Inl (ThrownApp err) \<and> (\<exists>after. st' i = Some after \<and> pd_status after = Running) \<and>
    execute_legacy d' i now' st' = (Inr (False, the (find_job i st')), st', [])"
proof -
  let ?doc = "doc\<lparr>pd_status := Running, pd_started_at := Some now\<rparr>"
  have "claim_for_processing i now st = (Some (to_domain i ?doc), st(i \<mapsto> ?doc))"
    using assms(1,2) by (simp add: job_ops store_simps)
  with assms(3,4) have r: "r = Inl (ThrownApp err)" and st': "st' = st(i \<mapsto> ?doc)"
    by (auto simp: execute_legacy_def resolve_planning_prompt_def)
  then have "claim_for_processing i now' st' = (None, st')"
    by (simp add: job_ops store_simps)
  then have "execute_legacy d' i now' st' = (Inr (False, the (find_job i st')), st', [])"
    using st' by (simp add: execute_legacy_def find_job_def)
  with r st' show ?thesis by simp
qed

theorem legacy_prompt_failure_strands_job_witness:
  "fst (execute_legacy (sample_legacy\<lparr>rd_prompt := Inl (OtherError [] [])\<rparr>) (js ''j'') 5
     (sample_store Pending)) = Inl (ThrownApp (OtherError [] []))"
proof -
  let ?d = "sample_legacy\<lparr>rd_prompt := Inl (OtherError [] [])\<rparr>"
  let ?run = "execute_legacy ?d (js ''j'') 5 (sample_store Pending)"
  have run: "?run = (fst ?run, fst (snd ?run), snd (snd ?run))" by simp
  have "sample_store Pending (js ''j'') = Some (new_job_doc sample_data 0)"
    by (simp add: new_job_doc_def)
  from legacy_prompt_failure_strands_job [OF this _ _ run, of "OtherError [] []"] show ?thesis
    by (simp add: new_job_doc_def)
qed

end
