(* ===== verification/PlanningResults.thy ===== *)
theory PlanningResults
  imports PlanningRun
begin

text \<open>
  What happens to a job after its gather request left: the chunks that come back over
  \<open>ctx.gather.results\<close> (\<open>infrastructure/amqp/context-results.consumer.ts\<close>,
  \<open>application/context/handle-context-result-chunk.use-case.ts\<close>), the no-result timeout
  (\<open>handle-gather-timeout.use-case.ts\<close>), the events the queue adapters announce and the
  owner's read of a job (\<open>get-planning-job.use-case.ts\<close>).
\<close>

section \<open>Chunks on the wire\<close>

datatype chunk_phase = PhStarted | PhGathering | PhCompleted | PhFailed

datatype chunk_body =
    DataBody js_string js_string "number option"
      \<comment> \<open>provider, content, token estimate\<close>
  | StatusBody chunk_phase "js_string option" "js_string option"
      \<comment> \<open>phase, message, error code\<close>

record result_chunk =
  rc_jobId :: ident
  rc_userId :: ident
  rc_sequence :: int
  rc_body :: chunk_body

fun is_terminal_phase :: "chunk_phase \<Rightarrow> bool" where
  "is_terminal_phase PhCompleted = True"
| "is_terminal_phase PhFailed = True"
| "is_terminal_phase _ = False"

definition phase_of :: "js_string \<Rightarrow> chunk_phase option" where
  "phase_of s =
     (if s = js ''started'' then Some PhStarted
      else if s = js ''gathering'' then Some PhGathering
      else if s = js ''completed'' then Some PhCompleted
      else if s = js ''failed'' then Some PhFailed
      else None)"

definition allowed_providers :: "js_string list" where
  "allowed_providers = [js ''trello'', js ''notion'', js ''github'']"

definition parse_data_body :: "json \<Rightarrow> chunk_body option" where
  "parse_data_body raw =
     (case obj_get (js ''data'') raw of
        None \<Rightarrow> None
      | Some data \<Rightarrow>
          (case (obj_get (js ''provider'') data, obj_get (js ''content'') data) of
             (Some (JStr provider), Some (JStr content)) \<Rightarrow>
               (if provider \<notin> set allowed_providers then None
                else (case obj_get (js ''token_estimate'') data of
                        None \<Rightarrow> Some (DataBody provider content None)
                      | Some (JNum n) \<Rightarrow> Some (DataBody provider content (Some n))
                      | Some _ \<Rightarrow> None))
           | _ \<Rightarrow> None))"

text \<open>A field that is absent or a string: \<open>Some None\<close>, \<open>Some (Some s)\<close>; else \<open>None\<close>.\<close>

definition optional_string :: "json option \<Rightarrow> js_string option option" where
  "optional_string v =
     (case v of None \<Rightarrow> Some None | Some (JStr s) \<Rightarrow> Some (Some s) | Some _ \<Rightarrow> None)"

definition parse_status_body :: "json \<Rightarrow> chunk_body option" where
  "parse_status_body raw =
     (case obj_get (js ''status'') raw of
        None \<Rightarrow> None
      | Some status \<Rightarrow>
          (case obj_get (js ''phase'') status of
             Some (JStr p) \<Rightarrow>
               (case (phase_of p, optional_string (obj_get (js ''message'') status),
                      optional_string (obj_get (js ''error_code'') status)) of
                  (Some phase, Some message, Some code) \<Rightarrow> Some (StatusBody phase message code)
                | _ \<Rightarrow> None)
           | _ \<Rightarrow> None))"

definition parse_context_result_chunk :: "json \<Rightarrow> result_chunk option" where
  "parse_context_result_chunk raw =
     (case (obj_get (js ''schema_version'') raw, obj_get (js ''job_id'') raw,
            obj_get (js ''user_id'') raw, obj_get (js ''sequence'') raw) of
        (Some (JNum (NInt v)), Some (JStr job), Some (JStr user), Some (JNum (NInt n))) \<Rightarrow>
          (if v \<noteq> 1 \<or> job = [] \<or> user = [] \<or> n < 0 then None
           else
             (let body = (if obj_get (js ''type'') raw = Some (JStr (js ''data'')) then parse_data_body raw
                          else if obj_get (js ''type'') raw = Some (JStr (js ''status''))
                          then parse_status_body raw
                          else None)
              in map_option (\<lambda>b. \<lparr>rc_jobId = job, rc_userId = user, rc_sequence = n, rc_body = b\<rparr>) body))
      | _ \<Rightarrow> None)"

section \<open>\<open>HandleContextResultChunkUseCase\<close>\<close>

datatype chunk_outcome = Applied | Duplicate | UnknownJob | OwnershipMismatch

record chunk_result =
  cr_outcome :: chunk_outcome
  cr_job :: "planning_job option"
  cr_terminal :: bool

text \<open>
  \<open>cd_arriving\<close> and \<open>cd_claiming\<close> are what other requests do to the jobs between the first read
  and the append, and between the append and the claim. \<open>cd_fault\<close> is the repository call that
  throws, if one does; a failing final write is \<open>rd_write_error\<close>.
\<close>

datatype chunk_fault = FindThrows | AppendThrows | ClaimThrows

record chunk_deps = run_deps +
  cd_fault :: "(chunk_fault \<times> app_error) option"
  cd_arriving :: "job_store \<Rightarrow> job_store"
  cd_claiming :: "job_store \<Rightarrow> job_store"

definition context_engine_failed_message :: js_string where
  "context_engine_failed_message = js ''Context gather failed''"

definition context_engine_error_codes :: "js_string list" where
  "context_engine_error_codes = [js ''CONTEXT_ENGINE_FAILED'', js ''CONTEXT_ENGINE_TIMEOUT'']"

definition chunk_json :: "data_chunk \<Rightarrow> json" where
  "chunk_json c = JObj [(js ''provider'', JStr (dc_provider c)), (js ''content'', JStr (dc_content c)),
     (js ''tokenEstimate'', case dc_tokenEstimate c of None \<Rightarrow> JNull | Some n \<Rightarrow> JNum n)]"

definition assemble_context :: "data_chunk list \<Rightarrow> json_obj" where
  "assemble_context chunks = [(js ''chunks'', JArr (map chunk_json (sort_key dc_sequence chunks)))]"

definition append_data :: "result_chunk \<Rightarrow> append_chunk_data" where
  "append_data c = \<lparr>ac_sequence = rc_sequence c,
     ac_data = (case rc_body c of
                  DataBody provider content n \<Rightarrow> Some (provider, content, n)
                | StatusBody _ _ _ \<Rightarrow> None)\<rparr>"

definition fault_at :: "chunk_deps \<Rightarrow> chunk_fault \<Rightarrow> app_error option" where
  "fault_at d f = (case cd_fault d of None \<Rightarrow> None | Some (g, e) \<Rightarrow> if g = f then Some e else None)"

definition finalize_completed ::
    "chunk_deps \<Rightarrow> planning_job \<Rightarrow> job_store \<Rightarrow>
      (app_error + planning_job option) \<times> job_store \<times> ext_call list" where
  "finalize_completed d job st =
     (let assembled = assemble_context (pj_dataChunks job) in
      case claim_for_planning (pj_id job) assembled st of
        (None, st') \<Rightarrow> (Inr None, st', [])
      | (Some claimed, st') \<Rightarrow>
          (let (finished, st'', calls) = run_claimed_planning (run_deps.truncate d) claimed assembled st'
           in (map_sum id Some finished, st'', calls)))"

definition finalize_failed ::
    "js_string option \<Rightarrow> time \<Rightarrow> planning_job \<Rightarrow> job_store \<Rightarrow> planning_job option \<times> job_store" where
  "finalize_failed code now job st =
     fail_if_still_gathering (pj_id job)
       (case code of
          Some c \<Rightarrow> (if c \<in> set context_engine_error_codes then c else js ''CONTEXT_ENGINE_FAILED'')
        | None \<Rightarrow> js ''CONTEXT_ENGINE_FAILED'')
       context_engine_failed_message now st"

definition finalize ::
    "chunk_deps \<Rightarrow> chunk_phase \<Rightarrow> js_string option \<Rightarrow> time \<Rightarrow> planning_job \<Rightarrow> job_store \<Rightarrow>
      (app_error + planning_job option) \<times> job_store \<times> ext_call list" where
  "finalize d phase code now job st =
     (case fault_at d ClaimThrows of
        Some e \<Rightarrow> (Inl e, st, [])
      | None \<Rightarrow>
          (if phase = PhCompleted then finalize_completed d job st
           else (let (failed, st') = finalize_failed code now job st in (Inr failed, st', []))))"

definition chunk_answer :: "chunk_outcome \<Rightarrow> planning_job option \<Rightarrow> bool \<Rightarrow> chunk_result" where
  "chunk_answer out job ended = \<lparr>cr_outcome = out, cr_job = job, cr_terminal = ended\<rparr>"

text \<open>What follows a chunk newly recorded on \<open>current\<close>.\<close>

definition after_append ::
    "chunk_deps \<Rightarrow> result_chunk \<Rightarrow> time \<Rightarrow> planning_job \<Rightarrow> job_store \<Rightarrow>
      (app_error + chunk_result) \<times> job_store \<times> ext_call list" where
  "after_append d c now current st =
     (case rc_body c of
        DataBody _ _ _ \<Rightarrow> (Inr (chunk_answer Applied (Some current) False), st, [])
      | StatusBody phase _ code \<Rightarrow>
          (if \<not> is_terminal_phase phase
           then (Inr (chunk_answer Applied (Some current) False), st, [])
           else
             (let (finalized, st', calls) = finalize d phase code now current (cd_claiming d st)
              in (map_sum id (\<lambda>f. case f of
                     None \<Rightarrow> chunk_answer Duplicate (Some current) False
                   | Some j \<Rightarrow> chunk_answer Applied (Some j) True) finalized, st', calls))))"

definition handle_chunk ::
    "chunk_deps \<Rightarrow> result_chunk \<Rightarrow> time \<Rightarrow> job_store \<Rightarrow>
      (app_error + chunk_result) \<times> job_store \<times> ext_call list" where
  "handle_chunk d c now st =
     (case fault_at d FindThrows of
        Some e \<Rightarrow> (Inl e, st, [])
      | None \<Rightarrow>
          (case find_job (rc_jobId c) st of
             None \<Rightarrow> (Inr (chunk_answer UnknownJob None False), st, [])
           | Some job \<Rightarrow>
               (if pj_userId job \<noteq> rc_userId c
                then (Inr (chunk_answer OwnershipMismatch (Some job) False), st, [])
                else if pj_status job = Completed \<or> pj_status job = Failed
                then (Inr (chunk_answer Duplicate (Some job) False), st, [])
                else
                  (case fault_at d AppendThrows of
                     Some e \<Rightarrow> (Inl e, cd_arriving d st, [])
                   | None \<Rightarrow>
                       (case append_result_chunk (pj_id job) (append_data c) (cd_arriving d st) of
                          ((applied, after), st1) \<Rightarrow>
                            (let current = (case after of None \<Rightarrow> job | Some j \<Rightarrow> j) in
                             if \<not> applied
                             then (Inr (chunk_answer Duplicate (Some current) False), st1, [])
                             else after_append d c now current st1))))))"

section \<open>\<open>HandleGatherTimeoutUseCase\<close> and \<open>GetPlanningJobUseCase\<close>\<close>

definition gather_timeout_code :: js_string where
  "gather_timeout_code = js ''CONTEXT_ENGINE_TIMEOUT''"

definition gather_timeout_message :: js_string where
  "gather_timeout_message =
     js ''No terminal context-gather result was received within the configured timeout''"

definition handle_gather_timeout ::
    "ident \<Rightarrow> time \<Rightarrow> job_store \<Rightarrow> (bool \<times> planning_job option) \<times> job_store" where
  "handle_gather_timeout job_id now st =
     (case fail_if_still_gathering job_id gather_timeout_code gather_timeout_message now st of
        (Some failed, st') \<Rightarrow> ((True, Some failed), st')
      | (None, st') \<Rightarrow> ((False, find_job job_id st'), st'))"

definition get_planning_job :: "ident \<Rightarrow> ident \<Rightarrow> job_store \<Rightarrow> http_error + planning_job" where
  "get_planning_job job_id user st =
     (case find_job job_id st of
        None \<Rightarrow> Inl (planning_job_not_found job_id)
      | Some j \<Rightarrow> (if pj_userId j \<noteq> user then Inl (planning_job_not_found job_id) else Inr j))"

section \<open>The events of the queue adapters\<close>

text \<open>The \<open>planning.*\<close> events; the first two fields are the job's and the owner's ids.\<close>

datatype announcement =
    PlanningStatus ident ident job_status
  | PlanningCompleted ident ident "json_obj option"
  | PlanningFailed ident ident "js_string option" "js_string option"
  | PlanningChunk ident ident int chunk_body

fun announced_to :: "announcement \<Rightarrow> ident" where
  "announced_to (PlanningStatus _ u _) = u"
| "announced_to (PlanningCompleted _ u _) = u"
| "announced_to (PlanningFailed _ u _ _) = u"
| "announced_to (PlanningChunk _ u _ _) = u"

text \<open>\<open>announce_end\<close> is the completed/failed branch that the adapters share.\<close>

definition announce_end :: "ident \<Rightarrow> ident \<Rightarrow> planning_job \<Rightarrow> announcement list" where
  "announce_end i u j =
     (case pj_status j of
        Completed \<Rightarrow> [PlanningCompleted i u (pj_result j)]
      | Failed \<Rightarrow> [PlanningFailed i u (pj_errorCode j) (pj_errorMessage j)]
      | _ \<Rightarrow> [])"

text \<open>
  \<open>relay\<close>. A job in the \<open>else\<close> case of the source (neither completed nor failed) is announced
  by its intermediate status only.
\<close>

definition relay :: "planning_job option \<Rightarrow> result_chunk \<Rightarrow> bool \<Rightarrow> announcement list" where
  "relay job c ended =
     (case job of
        None \<Rightarrow> []
      | Some j \<Rightarrow>
          (if \<not> ended
           then [PlanningChunk (rc_jobId c) (rc_userId c) (rc_sequence c) (rc_body c)]
           else (case rc_body c of
                   StatusBody PhCompleted _ _ \<Rightarrow> [PlanningStatus (pj_id j) (pj_userId j) Planning]
                 | _ \<Rightarrow> []) @ announce_end (pj_id j) (pj_userId j) j))"

datatype settlement = Ack | NackToDlq | NackRequeue

record delivery =
  dl_settled :: settlement
  dl_announced :: "announcement list"
  dl_reported :: bool
    \<comment> \<open>whether the failure is reported to Sentry\<close>

definition handle_parsed_chunk :: "chunk_result \<Rightarrow> result_chunk \<Rightarrow> delivery" where
  "handle_parsed_chunk r c =
     (let reported = (cr_terminal r \<and>
            (case cr_job r of None \<Rightarrow> False
             | Some j \<Rightarrow> pj_status j = Failed \<and> \<not> is_expected_failure_code (pj_errorCode j))) in
      if cr_outcome r = UnknownJob \<or> cr_outcome r = OwnershipMismatch
      then \<lparr>dl_settled = NackToDlq, dl_announced = [], dl_reported = reported\<rparr>
      else \<lparr>dl_settled = Ack,
             dl_announced = (if cr_outcome r = Applied then relay (cr_job r) c (cr_terminal r) else []),
             dl_reported = reported\<rparr>)"

text \<open>
  \<open>onMessage\<close>: \<open>parsed\<close> is the result of \<open>JSON.parse\<close>, \<open>None\<close> for a body that is no JSON. When
  a repository call of the use-case throws, the message goes back to the queue.
\<close>

definition on_message ::
    "chunk_deps \<Rightarrow> json option \<Rightarrow> time \<Rightarrow> job_store \<Rightarrow> delivery \<times> job_store \<times> ext_call list" where
  "on_message d parsed now st =
     (case Option.bind parsed parse_context_result_chunk of
        None \<Rightarrow> (\<lparr>dl_settled = NackToDlq, dl_announced = [], dl_reported = False\<rparr>, st, [])
      | Some c \<Rightarrow>
          (case handle_chunk d c now st of
             (Inl _, st', calls) \<Rightarrow>
               (\<lparr>dl_settled = NackRequeue, dl_announced = [], dl_reported = False\<rparr>, st', calls)
           | (Inr r, st', calls) \<Rightarrow> (handle_parsed_chunk r c, st', calls)))"

text \<open>\<open>PlanningProcessor.process\<close>, \<open>GatherTimeoutProcessor.process\<close>.\<close>

definition process_planning ::
    "ident \<Rightarrow> ident \<Rightarrow> thrown + bool \<times> planning_job \<Rightarrow> announcement list \<times> bool" where
  "process_planning job_id user outcome =
     (case outcome of
        Inr (processed, j) \<Rightarrow>
          (if \<not> processed then ([], False)
           else (PlanningStatus job_id user (if pj_status j = Gathering then Gathering else Running) #
                   announce_end job_id user j,
                 pj_status j = Failed \<and> \<not> is_expected_failure_code (pj_errorCode j)))
      | Inl _ \<Rightarrow>
          ([PlanningFailed job_id user (Some (js ''PROCESSING_FAILED''))
              (Some planning_failed_message)], False))"

definition process_gather_timeout :: "bool \<times> planning_job option \<Rightarrow> announcement list \<times> bool" where
  "process_gather_timeout r =
     (case r of
        (True, Some j) \<Rightarrow>
          ([PlanningFailed (pj_id j) (pj_userId j) (pj_errorCode j) (pj_errorMessage j)], True)
      | _ \<Rightarrow> ([], False))"

section \<open>Lemmas\<close>

lemma chunk_answer_sel [simp]:
  "cr_outcome (chunk_answer out job ended) = out" "cr_job (chunk_answer out job ended) = job"
  "cr_terminal (chunk_answer out job ended) = ended"
  by (simp_all add: chunk_answer_def)

lemma append_result_chunk_cases:
  assumes "append_result_chunk i c st = ((applied, after), st')"
  obtains (new) d where "applied" "st i = Some d" "ac_sequence c \<notin> set (pd_chunk_sequences d)"
      "after = Some (to_domain i (push_chunk c d))" "st' = st(i \<mapsto> push_chunk c d)"
  | (seen) d where "\<not> applied" "st i = Some d" "ac_sequence c \<in> set (pd_chunk_sequences d)"
      "after = Some (to_domain i d)" "st' = st"
  | (absent) "\<not> applied" "st i = None" "after = None" "st' = st"
  using assms
  by (cases "st i") (auto simp: append_result_chunk_def update_where_def find_job_def split: if_splits)

lemma append_data_sequence [simp]: "ac_sequence (append_data c) = rc_sequence c"
  by (simp add: append_data_def)

lemma handle_chunk_applied:
  assumes "handle_chunk d c now st = (Inr r, st', calls)" and "cr_outcome r = Applied"
  shows "\<exists>x. cd_arriving d st (rc_jobId c) = Some x \<and>
    after_append d c now (to_domain (rc_jobId c) (push_chunk (append_data c) x))
      ((cd_arriving d st)(rc_jobId c \<mapsto> push_chunk (append_data c) x)) = (Inr r, st', calls)"
proof -
  obtain ok after st1 where app:
    "append_result_chunk (rc_jobId c) (append_data c) (cd_arriving d st) = ((ok, after), st1)"
    by (metis surj_pair)
  with assms obtain doc where doc: "st (rc_jobId c) = Some doc" and ok: "ok"
    and rest: "after_append d c now (case after of None \<Rightarrow> to_domain (rc_jobId c) doc | Some j \<Rightarrow> j) st1 =
      (Inr r, st', calls)"
    by (auto simp: handle_chunk_def find_job_def Let_def split: option.splits if_splits)
  from app ok rest show ?thesis by (cases rule: append_result_chunk_cases) auto
qed

lemma repeated_chunk_lemma:
  assumes "st (rc_jobId c) = Some doc" and "pd_user_id doc = rc_userId c"
    and "rc_sequence c \<in> set (pd_chunk_sequences doc)"
    and "cd_fault d = None" and "cd_arriving d st = st"
  shows "\<exists>j. handle_chunk d c now st = (Inr (chunk_answer Duplicate (Some j) False), st, [])"
proof -
  have "append_result_chunk (rc_jobId c) (append_data c) st =
      ((False, Some (to_domain (rc_jobId c) doc)), st)"
    using assms(1,3) by (simp add: append_result_chunk_def update_where_def find_job_def)
  then show ?thesis
    using assms by (auto simp: handle_chunk_def fault_at_def find_job_def)
qed

text \<open>A job's status after each way of finalizing it.\<close>

lemma fail_if_still_gathering_cases:
  assumes "fail_if_still_gathering i code msg now st = (r, st')"
  obtains (failed) d where "st i = Some d" "pd_status d = Gathering"
      "r = Some (to_domain i (d\<lparr>pd_status := Failed, pd_error_code := Some code,
        pd_error_message := Some msg, pd_finished_at := Some now\<rparr>))"
      "st' = st(i \<mapsto> d\<lparr>pd_status := Failed, pd_error_code := Some code,
        pd_error_message := Some msg, pd_finished_at := Some now\<rparr>)"
  | (lost) "r = None" "st' = st" "\<forall>d. st i = Some d \<longrightarrow> pd_status d \<noteq> Gathering"
  using assms
  by (cases "st i") (auto simp: job_ops update_where_def split: if_splits)

section \<open>Properties\<close>

text \<open>A result chunk is trusted only for its owner's live job: a chunk for an unknown job, one
  whose user is not the job's owner, and any chunk for a job that already completed or failed leave
  the store as it is, reach neither retrieval nor planner, and announce nothing; the first two go to
  the dead-letter queue, the last is acknowledged.\<close>

theorem rejected_chunk_changes_nothing:
  assumes "parse_context_result_chunk body = Some c" and "cd_fault d = None"
    and "\<forall>doc. st (rc_jobId c) = Some doc \<longrightarrow>
      pd_user_id doc \<noteq> rc_userId c \<or> pd_status doc = Completed \<or> pd_status doc = Failed"
  shows "on_message d (Some body) now st =
    (\<lparr>dl_settled = (case st (rc_jobId c) of None \<Rightarrow> NackToDlq
        | Some doc \<Rightarrow> if pd_user_id doc = rc_userId c then Ack else NackToDlq),
      dl_announced = [], dl_reported = False\<rparr>, st, [])"
  using assms
  by (auto simp: on_message_def handle_chunk_def fault_at_def find_job_def handle_parsed_chunk_def
      split: option.splits)

definition sample_chunk :: "js_string \<Rightarrow> json" where
  "sample_chunk user = JObj [(js ''schema_version'', JNum (NInt 1)), (js ''job_id'', JStr (js ''j'')),
     (js ''user_id'', JStr user), (js ''sequence'', JNum (NInt 3)), (js ''type'', JStr (js ''status'')),
     (js ''status'', JObj [(js ''phase'', JStr (js ''completed''))])]"

lemma parse_sample_chunk [simp]:
  "user \<noteq> [] \<Longrightarrow> parse_context_result_chunk (sample_chunk user) =
     Some \<lparr>rc_jobId = js ''j'', rc_userId = user, rc_sequence = 3,
       rc_body = StatusBody PhCompleted None None\<rparr>"
  by (simp add: parse_context_result_chunk_def sample_chunk_def parse_status_body_def phase_of_def
      optional_string_def)

definition sample_chunk_deps :: chunk_deps where
  "sample_chunk_deps = run_deps.extend sample_deps (chunk_deps.fields None id id)"

lemma sample_chunk_deps_sel [simp]:
  "cd_fault sample_chunk_deps = None" "cd_arriving sample_chunk_deps = id"
  "cd_claiming sample_chunk_deps = id" "rd_write_error sample_chunk_deps = None"
  "run_deps.truncate sample_chunk_deps = sample_deps"
  by (simp_all add: sample_chunk_deps_def chunk_deps.defs run_deps.defs sample_deps_def)

theorem rejected_chunk_changes_nothing_witness:
  "on_message sample_chunk_deps (Some (sample_chunk (js ''eve''))) 5 (sample_store Gathering) =
     (\<lparr>dl_settled = NackToDlq, dl_announced = [], dl_reported = False\<rparr>, sample_store Gathering, [])"
proof -
  have parsed: "parse_context_result_chunk (sample_chunk (js ''eve'')) =
      Some \<lparr>rc_jobId = js ''j'', rc_userId = js ''eve'', rc_sequence = 3,
        rc_body = StatusBody PhCompleted None None\<rparr>"
    by simp
  show ?thesis
    using rejected_chunk_changes_nothing [OF parsed, of sample_chunk_deps "sample_store Gathering" 5]
    by (simp add: new_job_doc_def sample_data_def)
qed

text \<open>A chunk whose sequence number the job already recorded is a duplicate: it changes no job
  and makes no call, however it differs from the first.\<close>

theorem repeated_chunk_is_duplicate:
  assumes "st (rc_jobId c) = Some doc" and "pd_user_id doc = rc_userId c"
    and "rc_sequence c \<in> set (pd_chunk_sequences doc)"
    and "cd_fault d = None" and "cd_arriving d st = st"
  shows "\<exists>j. handle_chunk d c now st = (Inr (chunk_answer Duplicate (Some j) False), st, [])"
  by (rule repeated_chunk_lemma [OF assms])

theorem repeated_chunk_is_duplicate_witness:
  "\<exists>j. handle_chunk sample_chunk_deps \<lparr>rc_jobId = js ''j'', rc_userId = js ''u'', rc_sequence = 3,
      rc_body = StatusBody PhCompleted None None\<rparr> 5
      [js ''j'' \<mapsto> (new_job_doc sample_data 0)\<lparr>pd_status := Gathering, pd_chunk_sequences := [3]\<rparr>] =
    (Inr (chunk_answer Duplicate (Some j) False),
     [js ''j'' \<mapsto> (new_job_doc sample_data 0)\<lparr>pd_status := Gathering, pd_chunk_sequences := [3]\<rparr>], [])"
  by (rule repeated_chunk_is_duplicate) (auto simp: new_job_doc_def sample_data_def)

text \<open>What the planner gets does not depend on the order in which the data chunks arrived: with
  the sequence numbers recorded once, the assembled context is the chunks in sequence order.\<close>

theorem assembled_context_order_free:
  assumes "chunks_ok d" and "chunks_ok d'" and "mset (pd_data_chunks d) = mset (pd_data_chunks d')"
  shows "assemble_context (pd_data_chunks d) = assemble_context (pd_data_chunks d') \<and>
    sorted (map dc_sequence (sort_key dc_sequence (pd_data_chunks d)))"
proof -
  have "distinct (map dc_sequence (pd_data_chunks d))"
    by (rule chunks_ok_distinct [OF assms(1)])
  then have "inj_on dc_sequence (set (pd_data_chunks d))" by (simp add: distinct_map)
  from sort_key_mset_eq [OF assms(3) this] show ?thesis by (simp add: assemble_context_def)
qed

definition sample_arrived :: "data_chunk list \<Rightarrow> planning_job_doc" where
  "sample_arrived cs = (new_job_doc sample_data 0)\<lparr>pd_status := Gathering,
     pd_chunk_sequences := map dc_sequence cs, pd_data_chunks := cs\<rparr>"

definition sample_data_chunk :: "int \<Rightarrow> data_chunk" where
  "sample_data_chunk n = \<lparr>dc_sequence = n, dc_provider = js ''notion'', dc_content = js ''x'',
     dc_tokenEstimate = None\<rparr>"

theorem assembled_context_order_free_witness:
  "assemble_context [sample_data_chunk 2, sample_data_chunk 1] =
     assemble_context [sample_data_chunk 1, sample_data_chunk 2]"
  using assembled_context_order_free [of "sample_arrived [sample_data_chunk 2, sample_data_chunk 1]"
      "sample_arrived [sample_data_chunk 1, sample_data_chunk 2]"]
  by (simp add: chunks_ok_def sample_arrived_def sample_data_chunk_def add_mset_commute)

text \<open>A completed chunk that is new to a gathering job ends it in the same delivery, if nothing
  else intervenes: the context assembled from every recorded data chunk goes through the planning
  phase, and the job is stored completed or failed and is announced to its owner.\<close>

theorem completed_chunk_ends_job:
  assumes "st (rc_jobId c) = Some doc" and "pd_user_id doc = rc_userId c"
    and "pd_status doc = Gathering" and "rc_sequence c \<notin> set (pd_chunk_sequences doc)"
    and "rc_body c = StatusBody PhCompleted message code"
    and "cd_fault d = None" and "rd_write_error d = None"
    and "cd_arriving d = id" and "cd_claiming d = id" and "rd_meanwhile d = id"
    and "handle_chunk d c now st = (r, st', calls)"
  shows "\<exists>after. st' = st(rc_jobId c \<mapsto> after) \<and> pd_user_id after = pd_user_id doc \<and>
    (pd_status after = Completed \<or> pd_status after = Failed) \<and>
    r = Inr (chunk_answer Applied (Some (to_domain (rc_jobId c) after)) True) \<and>
    calls = snd (snd (snd (claimed_attempt (run_deps.truncate d)
      (to_domain (rc_jobId c) ((push_chunk (append_data c) doc)
         \<lparr>pd_status := Planning, pd_context_used := Some (assemble_context (pd_data_chunks doc))\<rparr>))
      (assemble_context (pd_data_chunks doc)))))"
proof -
  let ?i = "rc_jobId c" and ?ctx = "assemble_context (pd_data_chunks doc)"
  let ?doc = "push_chunk (append_data c) doc"
  let ?plan = "?doc\<lparr>pd_status := Planning, pd_context_used := Some ?ctx\<rparr>"
  let ?st = "st(?i \<mapsto> ?plan)"
  have chunks: "pd_data_chunks ?doc = pd_data_chunks doc"
    using assms(5) by (simp add: push_chunk_def append_data_def)
  have appended: "append_result_chunk ?i (append_data c) st =
      ((True, Some (to_domain ?i ?doc)), st(?i \<mapsto> ?doc))"
    using assms(1,4) by (simp add: append_result_chunk_def update_where_def)
  have claim: "claim_for_planning ?i ?ctx (st(?i \<mapsto> ?doc)) = (Some (to_domain ?i ?plan), ?st)"
    using assms(3) by (simp add: job_ops update_where_def)
  obtain out version used calls' where att:
    "claimed_attempt (run_deps.truncate d) (to_domain ?i ?plan) ?ctx = (out, version, used, calls')"
    by (cases "claimed_attempt (run_deps.truncate d) (to_domain ?i ?plan) ?ctx")
  obtain r' st'' calls'' where run:
    "run_claimed_planning (run_deps.truncate d) (to_domain ?i ?plan) ?ctx ?st = (r', st'', calls'')"
    by (cases "run_claimed_planning (run_deps.truncate d) (to_domain ?i ?plan) ?ctx ?st")
  have "rd_write_error (run_deps.truncate d) = None" "rd_meanwhile (run_deps.truncate d) = id"
    using assms(7,10) by (simp_all add: run_deps.defs)
  then obtain after where after: "st'' = ?st(?i \<mapsto> after)" "r' = Inr (to_domain ?i after)"
    "pd_user_id after = pd_user_id doc" "pd_status after = Completed \<or> pd_status after = Failed"
    using run att
    by (auto simp: run_claimed_planning_def write_status_def update_status_hit Let_def
        split: sum.splits)
  have "calls'' = calls'" using run_claimed_planning_calls [OF run] att by simp
  moreover have "handle_chunk d c now st =
      (Inr (chunk_answer Applied (Some (to_domain ?i after)) True), st'', calls'')"
    using assms(1-6,8,9) appended claim run after chunks
    by (simp add: handle_chunk_def fault_at_def find_job_def after_append_def finalize_def
        finalize_completed_def)
  ultimately show ?thesis using assms(11) after att by auto
qed

theorem completed_chunk_ends_job_witness:
  "\<exists>after. fst (snd (handle_chunk sample_chunk_deps \<lparr>rc_jobId = js ''j'', rc_userId = js ''u'',
      rc_sequence = 3, rc_body = StatusBody PhCompleted None None\<rparr> 5 (sample_store Gathering))) =
    (sample_store Gathering)(js ''j'' \<mapsto> after)"
proof -
  let ?c = "\<lparr>rc_jobId = js ''j'', rc_userId = js ''u'', rc_sequence = 3,
      rc_body = StatusBody PhCompleted None None\<rparr>"
  let ?run = "handle_chunk sample_chunk_deps ?c 5 (sample_store Gathering)"
  have run: "?run = (fst ?run, fst (snd ?run), snd (snd ?run))" by simp
  have there: "sample_store Gathering (rc_jobId ?c) =
      Some ((new_job_doc sample_data 0)\<lparr>pd_status := Gathering\<rparr>)" by simp
  have "rd_meanwhile sample_chunk_deps = id"
    by (simp add: sample_chunk_deps_def chunk_deps.defs run_deps.defs sample_deps_def)
  then show ?thesis
    using completed_chunk_ends_job [OF there _ _ _ _ _ _ _ _ _ run]
    by (auto simp: new_job_doc_def sample_data_def)
qed

text \<open>The no-result timeout fails a job only while it is still gathering, and announces exactly
  the failure it wrote; a job that a real result already took on, or that is gone, is left as it is
  and nothing is announced.\<close>

theorem timeout_only_fails_gathering:
  "handle_gather_timeout i now st = (r, st') \<Longrightarrow>
    (case st i of
       Some doc \<Rightarrow>
         (if pd_status doc = Gathering
          then st' = st(i \<mapsto> doc\<lparr>pd_status := Failed, pd_error_code := Some gather_timeout_code,
                   pd_error_message := Some gather_timeout_message, pd_finished_at := Some now\<rparr>) \<and>
               process_gather_timeout r = ([PlanningFailed i (pd_user_id doc)
                 (Some gather_timeout_code) (Some gather_timeout_message)], True)
          else st' = st \<and> process_gather_timeout r = ([], False))
     | None \<Rightarrow> st' = st \<and> process_gather_timeout r = ([], False))"
  by (auto simp: handle_gather_timeout_def process_gather_timeout_def job_ops update_where_def
      split: option.splits if_splits)

theorem timeout_only_fails_gathering_witness:
  "fst (process_gather_timeout (fst (handle_gather_timeout (js ''j'') 9 (sample_store Planning)))) = []"
proof -
  have "handle_gather_timeout (js ''j'') 9 (sample_store Planning) =
      (fst (handle_gather_timeout (js ''j'') 9 (sample_store Planning)),
       snd (handle_gather_timeout (js ''j'') 9 (sample_store Planning)))" by simp
  from timeout_only_fails_gathering [OF this] show ?thesis by simp
qed

text \<open>Other requests never change who owns a job: no repository call writes \<open>user_id\<close>.\<close>

definition owners_kept :: "(job_store \<Rightarrow> job_store) \<Rightarrow> bool" where
  "owners_kept f \<longleftrightarrow> (\<forall>st i. map_option pd_user_id (f st i) = map_option pd_user_id (st i))"

lemma owners_keptD: "owners_kept f \<Longrightarrow> f st i = Some d \<Longrightarrow> \<exists>d0. st i = Some d0 \<and> pd_user_id d = pd_user_id d0"
  unfolding owners_kept_def by (metis map_option_eq_Some)

definition owned_by :: "ident \<Rightarrow> ident \<Rightarrow> job_store \<Rightarrow> bool" where
  "owned_by u i st \<longleftrightarrow> (\<forall>d. st i = Some d \<longrightarrow> pd_user_id d = u)"

lemma owned_by_meanwhile: "owners_kept f \<Longrightarrow> owned_by u i st \<Longrightarrow> owned_by u i (f st)"
  unfolding owned_by_def by (metis owners_keptD)

lemma run_claimed_planning_owner:
  assumes "run_claimed_planning d claimed ctx st = (Inr j, st', calls)"
    and "owners_kept (rd_meanwhile d)" and "owned_by u (pj_id claimed) st" and "pj_userId claimed = u"
  shows "pj_userId j = u"
  using assms(1,4) owned_by_meanwhile [OF assms(2,3)]
  by (auto simp: run_claimed_planning_def write_status_def update_status_def domain_result_def
      update_where_def owned_by_def Let_def split: sum.splits option.splits prod.splits)

lemma finalize_owner:
  assumes "finalize d phase code now job st = (Inr (Some j), st', calls)"
    and "owners_kept (rd_meanwhile d)" and "owned_by u (pj_id job) st" and "pj_userId job = u"
  shows "pj_userId j = u"
proof (cases "phase = PhCompleted")
  case True
  with assms(1) obtain claimed st1 r where
    claim: "claim_for_planning (pj_id job) (assemble_context (pj_dataChunks job)) st = (Some claimed, st1)"
    and run: "run_claimed_planning (run_deps.truncate d) claimed (assemble_context (pj_dataChunks job)) st1
      = (Inr j, st', calls)"
    by (auto simp: finalize_def finalize_completed_def Let_def split: option.splits prod.splits)
  from claim obtain doc where "st (pj_id job) = Some doc"
    "claimed = to_domain (pj_id job) (doc\<lparr>pd_status := Planning,
       pd_context_used := Some (assemble_context (pj_dataChunks job))\<rparr>)"
    "st1 = st(pj_id job \<mapsto> doc\<lparr>pd_status := Planning,
       pd_context_used := Some (assemble_context (pj_dataChunks job))\<rparr>)"
    by (auto elim: claim_for_planningE)
  with assms(3) have "pj_userId claimed = u" "owned_by u (pj_id claimed) st1"
    by (auto simp: owned_by_def)
  moreover have "owners_kept (rd_meanwhile (run_deps.truncate d))"
    using assms(2) by (simp add: run_deps.defs)
  ultimately show ?thesis using run_claimed_planning_owner [OF run] by simp
next
  case False
  with assms(1,3) show ?thesis
    by (auto simp: finalize_def finalize_failed_def owned_by_def split: option.splits prod.splits
        elim!: fail_if_still_gathering_cases)
qed

lemma announce_end_owner: "a \<in> set (announce_end i u j) \<Longrightarrow> announced_to a = u"
  by (auto simp: announce_end_def split: job_status.splits)

lemma relay_owner:
  assumes "a \<in> set (relay (Some j) c ended)" and "pj_userId j = rc_userId c"
  shows "announced_to a = rc_userId c"
  using assms announce_end_owner
  by (auto simp: relay_def split: if_splits chunk_body.splits chunk_phase.splits)

text \<open>What a result chunk makes the API push over the websocket is addressed to the owner of the
  job the chunk names, as the store knows the owner, and to nobody else; a chunk for no such job
  pushes nothing.\<close>

theorem chunk_announced_to_owner_only:
  assumes "on_message d parsed now st = (dl, st', calls)" and "a \<in> set (dl_announced dl)"
    and "owners_kept (cd_arriving d)" and "owners_kept (cd_claiming d)" and "owners_kept (rd_meanwhile d)"
  shows "\<exists>c doc. Option.bind parsed parse_context_result_chunk = Some c \<and>
    st (rc_jobId c) = Some doc \<and> announced_to a = pd_user_id doc"
proof -
  obtain c where c: "Option.bind parsed parse_context_result_chunk = Some c"
    using assms(1,2) by (cases "Option.bind parsed parse_context_result_chunk") (auto simp: on_message_def)
  let ?i = "rc_jobId c"
  obtain r where handled: "handle_chunk d c now st = (Inr r, st', calls)"
    and dl: "dl = handle_parsed_chunk r c"
    using assms(1,2) c by (auto simp: on_message_def split: prod.splits sum.splits)
  from dl assms(2) have applied: "cr_outcome r = Applied" and a: "a \<in> set (relay (cr_job r) c (cr_terminal r))"
    by (auto simp: handle_parsed_chunk_def Let_def split: if_splits)
  from handled applied obtain doc where doc: "st ?i = Some doc" "pd_user_id doc = rc_userId c"
    by (auto simp: handle_chunk_def find_job_def split: option.splits if_splits)
  have owned: "owned_by (rc_userId c) ?i (cd_arriving d st)"
    by (rule owned_by_meanwhile [OF assms(3)]) (simp add: owned_by_def doc)
  obtain x where x: "cd_arriving d st ?i = Some x"
    and rest: "after_append d c now (to_domain ?i (push_chunk (append_data c) x))
      ((cd_arriving d st)(?i \<mapsto> push_chunk (append_data c) x)) = (Inr r, st', calls)"
    using handle_chunk_applied [OF handled applied] by blast
  define cur where "cur = to_domain ?i (push_chunk (append_data c) x)"
  define st1 where "st1 = (cd_arriving d st)(?i \<mapsto> push_chunk (append_data c) x)"
  have cur: "pj_id cur = ?i" "pj_userId cur = rc_userId c" and owned1: "owned_by (rc_userId c) ?i st1"
    using owned x by (auto simp: cur_def st1_def owned_by_def)
  note rest = rest [folded cur_def st1_def]
  have "\<exists>j. cr_job r = Some j \<and> pj_userId j = rc_userId c"
  proof (cases "cr_terminal r")
    case False
    with rest cur show ?thesis using applied
      by (auto simp: after_append_def Let_def split: chunk_body.splits if_splits prod.splits
          option.splits)
  next
    case True
    with rest obtain phase code j where "cr_job r = Some j"
      and fin: "finalize d phase code now cur (cd_claiming d st1) = (Inr (Some j), st', calls)"
      using applied
      by (auto simp: after_append_def Let_def
          split: chunk_body.splits if_splits prod.splits option.splits)
    moreover have "owned_by (rc_userId c) (pj_id cur) (cd_claiming d st1)"
      using owned_by_meanwhile [OF assms(4) owned1] cur(1) by simp
    ultimately show ?thesis using finalize_owner [OF fin assms(5)] cur(2) by blast
  qed
  with a relay_owner c doc show ?thesis by auto
qed

theorem chunk_announced_to_owner_only_witness:
  "announced_to ` set (dl_announced (fst (on_message sample_chunk_deps (Some (sample_chunk (js ''u''))) 5
      (sample_store Gathering)))) \<subseteq> {js ''u''}"
proof
  let ?run = "on_message sample_chunk_deps (Some (sample_chunk (js ''u''))) 5 (sample_store Gathering)"
  fix u assume "u \<in> announced_to ` set (dl_announced (fst ?run))"
  then obtain a where u: "u = announced_to a" and a: "a \<in> set (dl_announced (fst ?run))" by blast
  have run: "?run = (fst ?run, fst (snd ?run), snd (snd ?run))" by simp
  have "rd_meanwhile sample_chunk_deps = id"
    by (simp add: sample_chunk_deps_def chunk_deps.defs run_deps.defs sample_deps_def)
  then have "owners_kept (cd_arriving sample_chunk_deps)" "owners_kept (cd_claiming sample_chunk_deps)"
    "owners_kept (rd_meanwhile sample_chunk_deps)"
    by (simp_all add: owners_kept_def)
  from chunk_announced_to_owner_only [OF run a this] show "u \<in> {js ''u''}"
    by (auto simp: u new_job_doc_def sample_data_def)
qed

text \<open>A terminal chunk is recorded before the job is finalized. If the claim that follows fails,
  the message is requeued, but its redelivery is then a duplicate and is acknowledged: the job stays
  in gathering with its complete context, until the timeout fails it.\<close>

theorem terminal_chunk_lost_after_failed_claim:
  assumes "st (rc_jobId c) = Some doc" and "pd_user_id doc = rc_userId c"
    and "pd_status doc = Gathering" and "rc_sequence c \<notin> set (pd_chunk_sequences doc)"
    and "rc_body c = StatusBody PhCompleted message code"
    and "parse_context_result_chunk body = Some c"
    and "cd_fault d = Some (ClaimThrows, err)" and "cd_arriving d = id" and "cd_claiming d = id"
    and "cd_fault d' = None" and "cd_arriving d' = id"
    and "on_message d (Some body) now st = (dl, st1, calls)"
    and "on_message d' (Some body) now' st1 = (dl', st2, calls')"
  shows "dl_settled dl = NackRequeue \<and> dl_settled dl' = Ack \<and> dl_announced dl' = [] \<and>
    calls = [] \<and> calls' = [] \<and> st2 = st1 \<and>
    (\<exists>after. st2 (rc_jobId c) = Some after \<and> pd_status after = Gathering)"
proof -
  let ?doc = "push_chunk (append_data c) doc"
  have appended: "append_result_chunk (rc_jobId c) (append_data c) st =
      ((True, Some (to_domain (rc_jobId c) ?doc)), st(rc_jobId c \<mapsto> ?doc))"
    using assms(1,4) by (simp add: append_result_chunk_def update_where_def)
  then have "handle_chunk d c now st = (Inl err, st(rc_jobId c \<mapsto> ?doc), [])"
    using assms(1-5,7-9)
    by (simp add: handle_chunk_def fault_at_def find_job_def after_append_def finalize_def)
  then have one: "dl_settled dl = NackRequeue" "calls = []" "st1 = st(rc_jobId c \<mapsto> ?doc)"
    using assms(6,12) by (auto simp: on_message_def)
  have "\<exists>j. handle_chunk d' c now' st1 = (Inr (chunk_answer Duplicate (Some j) False), st1, [])"
    by (rule repeated_chunk_lemma [where doc = ?doc]) (use one assms in simp_all)
  then show ?thesis
    using one assms(3,6,13) by (auto simp: on_message_def handle_parsed_chunk_def)
qed

theorem terminal_chunk_lost_after_failed_claim_witness:
  "dl_settled (fst (on_message (sample_chunk_deps\<lparr>cd_fault := Some (ClaimThrows, OtherError [] [])\<rparr>)
     (Some (sample_chunk (js ''u''))) 5 (sample_store Gathering))) = NackRequeue"
proof -
  let ?d = "sample_chunk_deps\<lparr>cd_fault := Some (ClaimThrows, OtherError [] [])\<rparr>"
  let ?run = "on_message ?d (Some (sample_chunk (js ''u''))) 5 (sample_store Gathering)"
  let ?again = "on_message sample_chunk_deps (Some (sample_chunk (js ''u''))) 6 (fst (snd ?run))"
  have run: "?run = (fst ?run, fst (snd ?run), snd (snd ?run))"
    and again: "?again = (fst ?again, fst (snd ?again), snd (snd ?again))" by simp_all
  have parsed: "parse_context_result_chunk (sample_chunk (js ''u'')) =
      Some \<lparr>rc_jobId = js ''j'', rc_userId = js ''u'', rc_sequence = 3,
        rc_body = StatusBody PhCompleted None None\<rparr>"
    by simp
  show ?thesis
    using terminal_chunk_lost_after_failed_claim [OF _ _ _ _ _ parsed _ _ _ _ _ run again]
    by (simp add: new_job_doc_def sample_data_def)
qed

text \<open>A job is readable by its owner only, and for everyone else the answer is the same whether
  the job exists or not: it is a function of the id alone.\<close>

theorem job_read_by_owner_only:
  "get_planning_job i u st =
    (case st i of
       Some doc \<Rightarrow> if pd_user_id doc = u then Inr (to_domain i doc) else get_planning_job i u Map.empty
     | None \<Rightarrow> get_planning_job i u Map.empty)"
  by (auto simp: get_planning_job_def find_job_def split: option.splits)

end
