(* ===== verification/PlanningProtocol.thy ===== *)
theory PlanningProtocol
  imports PlanningResults
begin

text \<open>
  How the parts of the planning feature interleave: submitters, queue workers of both transports,
  result chunks, timeouts and planners act on one store of jobs, in any order. Each step is one
  atomic repository call of the code (the definitions of \<open>PlanningJobs\<close>), guarded by what the
  code knows when it makes the call: which jobs a running use-case holds (\<open>holder\<close>), which are
  queued, and for which the gather request reached the broker. Two faults can be switched on: a use
  case dies between its calls (a process crash, or an exception that leaves it), and the broker
  accepts a request whose publish is then reported as failed.
\<close>

datatype holder =
    HSubmit     \<comment> \<open>\<open>SubmitPlanningJobUseCase\<close> between \<open>create\<close> and \<open>enqueue\<close>\<close>
  | HLegacy     \<comment> \<open>\<open>executeLegacy\<close> after its claim\<close>
  | HTransport  \<comment> \<open>\<open>executeViaTransport\<close> after its claim\<close>
  | HPlanner    \<comment> \<open>\<open>runClaimedPlanning\<close>\<close>

record planning_system =
  ps_jobs :: job_store
  ps_holders :: "(ident \<times> holder) set"
  ps_queued :: "ident set"
  ps_sent :: "ident set"

definition ending :: "status_patch \<Rightarrow> bool" where
  "ending p \<longleftrightarrow> sp_status p = Completed \<or> sp_status p = Failed"

inductive planning_step :: "bool \<Rightarrow> bool \<Rightarrow> planning_system \<Rightarrow> planning_system \<Rightarrow> bool"
  for crashes lossy :: bool where
  submit: "ps_jobs s i = None \<Longrightarrow> create_job i data now (ps_jobs s) = (j, st) \<Longrightarrow>
    planning_step crashes lossy s
      (s\<lparr>ps_jobs := st, ps_holders := insert (i, HSubmit) (ps_holders s)\<rparr>)"
| enqueue: "(i, HSubmit) \<in> ps_holders s \<Longrightarrow>
    planning_step crashes lossy s
      (s\<lparr>ps_holders := ps_holders s - {(i, HSubmit)}, ps_queued := insert i (ps_queued s)\<rparr>)"
| enqueue_failed: "(i, HSubmit) \<in> ps_holders s \<Longrightarrow> sp_status p = Failed \<Longrightarrow>
    update_status i p (ps_jobs s) = (j, st) \<Longrightarrow>
    planning_step crashes lossy s
      (s\<lparr>ps_jobs := st, ps_holders := ps_holders s - {(i, HSubmit)}\<rparr>)"
| legacy_claim: "i \<in> ps_queued s \<Longrightarrow> claim_for_processing i now (ps_jobs s) = (Some j, st) \<Longrightarrow>
    planning_step crashes lossy s
      (s\<lparr>ps_jobs := st, ps_holders := insert (i, HLegacy) (ps_holders s)\<rparr>)"
| legacy_end: "(i, HLegacy) \<in> ps_holders s \<Longrightarrow> ending p \<Longrightarrow>
    update_status i p (ps_jobs s) = (j, st) \<Longrightarrow>
    planning_step crashes lossy s
      (s\<lparr>ps_jobs := st, ps_holders := ps_holders s - {(i, HLegacy)}\<rparr>)"
| gather_claim: "i \<in> ps_queued s \<Longrightarrow> claim_for_gathering i now (ps_jobs s) = (Some j, st) \<Longrightarrow>
    planning_step crashes lossy s
      (s\<lparr>ps_jobs := st, ps_holders := insert (i, HTransport) (ps_holders s)\<rparr>)"
| gather_failed: "(i, HTransport) \<in> ps_holders s \<Longrightarrow> sp_status p = Failed \<Longrightarrow>
    update_status i p (ps_jobs s) = (j, st) \<Longrightarrow>
    planning_step crashes lossy s
      (s\<lparr>ps_jobs := st, ps_holders := ps_holders s - {(i, HTransport)}\<rparr>)"
| gather_nothing: "(i, HTransport) \<in> ps_holders s \<Longrightarrow>
    claim_for_planning i [] (ps_jobs s) = (Some j, st) \<Longrightarrow>
    planning_step crashes lossy s
      (s\<lparr>ps_jobs := st, ps_holders := insert (i, HPlanner) (ps_holders s - {(i, HTransport)})\<rparr>)"
| gather_sent: "(i, HTransport) \<in> ps_holders s \<Longrightarrow>
    planning_step crashes lossy s
      (s\<lparr>ps_holders := ps_holders s - {(i, HTransport)}, ps_sent := insert i (ps_sent s)\<rparr>)"
| gather_sent_unconfirmed: "lossy \<Longrightarrow> (i, HTransport) \<in> ps_holders s \<Longrightarrow>
    planning_step crashes lossy s (s\<lparr>ps_sent := insert i (ps_sent s)\<rparr>)"
| chunk_recorded: "i \<in> ps_sent s \<Longrightarrow> append_result_chunk i c (ps_jobs s) = (r, st) \<Longrightarrow>
    planning_step crashes lossy s (s\<lparr>ps_jobs := st\<rparr>)"
| chunk_completed: "i \<in> ps_sent s \<Longrightarrow> claim_for_planning i ctx (ps_jobs s) = (Some j, st) \<Longrightarrow>
    planning_step crashes lossy s
      (s\<lparr>ps_jobs := st, ps_holders := insert (i, HPlanner) (ps_holders s)\<rparr>)"
| gathering_failed: "i \<in> ps_sent s \<Longrightarrow> fail_if_still_gathering i code msg now (ps_jobs s) = (r, st) \<Longrightarrow>
    planning_step crashes lossy s (s\<lparr>ps_jobs := st\<rparr>)"
| planner_end: "(i, HPlanner) \<in> ps_holders s \<Longrightarrow> ending p \<Longrightarrow>
    update_status i p (ps_jobs s) = (j, st) \<Longrightarrow>
    planning_step crashes lossy s
      (s\<lparr>ps_jobs := st, ps_holders := ps_holders s - {(i, HPlanner)}\<rparr>)"
| dies: "crashes \<Longrightarrow> planning_step crashes lossy s (s\<lparr>ps_holders := ps_holders s - {h}\<rparr>)"

inductive planning_reachable :: "bool \<Rightarrow> bool \<Rightarrow> planning_system \<Rightarrow> bool" for crashes lossy :: bool where
  start: "planning_reachable crashes lossy
    \<lparr>ps_jobs = Map.empty, ps_holders = {}, ps_queued = {}, ps_sent = {}\<rparr>"
| more: "planning_reachable crashes lossy s \<Longrightarrow> planning_step crashes lossy s s' \<Longrightarrow>
    planning_reachable crashes lossy s'"

section \<open>Invariant\<close>

text \<open>Which status a holder's job has.\<close>

fun held_status :: "holder \<Rightarrow> job_status" where
  "held_status HSubmit = Pending"
| "held_status HLegacy = Running"
| "held_status HTransport = Gathering"
| "held_status HPlanner = Planning"

definition job_inv :: "planning_system \<Rightarrow> ident \<Rightarrow> bool" where
  "job_inv s i \<longleftrightarrow>
     (case ps_jobs s i of
        None \<Rightarrow> (\<forall>h. (i, h) \<notin> ps_holders s) \<and> i \<notin> ps_queued s \<and> i \<notin> ps_sent s
      | Some d \<Rightarrow> chunks_ok d \<and>
          (\<forall>h. (i, h) \<in> ps_holders s \<longrightarrow> pd_status d = held_status h) \<and>
          ((i, HSubmit) \<in> ps_holders s \<longrightarrow> i \<notin> ps_queued s) \<and>
          ((i, HTransport) \<in> ps_holders s \<longrightarrow> i \<notin> ps_sent s) \<and>
          (i \<in> ps_sent s \<longrightarrow> pd_status d \<notin> {Pending, Running}))"

text \<open>Without crashes every job that is not at rest has someone who will move it on.\<close>

definition attended :: "planning_system \<Rightarrow> ident \<Rightarrow> bool" where
  "attended s i \<longleftrightarrow>
     (case ps_jobs s i of
        None \<Rightarrow> True
      | Some d \<Rightarrow>
          (case pd_status d of
             Pending \<Rightarrow> (i, HSubmit) \<in> ps_holders s \<or> i \<in> ps_queued s
           | Running \<Rightarrow> (i, HLegacy) \<in> ps_holders s
           | Gathering \<Rightarrow> (i, HTransport) \<in> ps_holders s \<or> i \<in> ps_sent s
           | Planning \<Rightarrow> (i, HPlanner) \<in> ps_holders s
           | _ \<Rightarrow> True))"

text \<open>The effect of each repository call on one job.\<close>

lemma update_status_store:
  "snd (update_status i p st) = (case st i of None \<Rightarrow> st | Some d \<Rightarrow> st(i \<mapsto> apply_patch p d))"
  by (auto simp: update_status_def domain_result_def update_where_def split: option.splits)

lemma append_result_chunk_store:
  "snd (append_result_chunk i c st) =
     (case st i of None \<Rightarrow> st
      | Some d \<Rightarrow> if ac_sequence c \<in> set (pd_chunk_sequences d) then st else st(i \<mapsto> push_chunk c d))"
  by (auto simp: append_result_chunk_def update_where_def split: option.splits)

lemma fail_if_still_gathering_store:
  "snd (fail_if_still_gathering i code msg now st) =
     (case st i of None \<Rightarrow> st
      | Some d \<Rightarrow> if pd_status d = Gathering
          then st(i \<mapsto> d\<lparr>pd_status := Failed, pd_error_code := Some code, pd_error_message := Some msg,
                     pd_finished_at := Some now\<rparr>) else st)"
  by (auto simp: job_ops update_where_def split: option.splits)

lemma update_status_result:
  "update_status i p st = (j, st') \<Longrightarrow>
    st' = (case st i of None \<Rightarrow> st | Some d \<Rightarrow> st(i \<mapsto> apply_patch p d))"
  using update_status_store [of i p st] by simp

lemma append_result_chunk_result:
  "append_result_chunk i c st = (r, st') \<Longrightarrow> st' = (case st i of None \<Rightarrow> st
      | Some d \<Rightarrow> if ac_sequence c \<in> set (pd_chunk_sequences d) then st else st(i \<mapsto> push_chunk c d))"
  using append_result_chunk_store [of i c st] by simp

lemma fail_if_still_gathering_result:
  "fail_if_still_gathering i code msg now st = (r, st') \<Longrightarrow> st' = (case st i of None \<Rightarrow> st
      | Some d \<Rightarrow> if pd_status d = Gathering
          then st(i \<mapsto> d\<lparr>pd_status := Failed, pd_error_code := Some code, pd_error_message := Some msg,
                     pd_finished_at := Some now\<rparr>) else st)"
  using fail_if_still_gathering_store [of i code msg now st] by simp

lemma chunks_ok_fields:
  "chunks_ok (d\<lparr>pd_status := s\<rparr>) = chunks_ok d"
  "chunks_ok (d\<lparr>pd_started_at := a\<rparr>) = chunks_ok d"
  "chunks_ok (d\<lparr>pd_context_used := u\<rparr>) = chunks_ok d"
  "chunks_ok (d\<lparr>pd_error_code := e\<rparr>) = chunks_ok d"
  "chunks_ok (d\<lparr>pd_error_message := e\<rparr>) = chunks_ok d"
  "chunks_ok (d\<lparr>pd_finished_at := t\<rparr>) = chunks_ok d"
  "chunks_ok (apply_patch p d) = chunks_ok d"
  "chunks_ok (new_job_doc data now)"
  by (simp_all add: chunks_ok_def new_job_doc_def)

lemma new_job_doc_status: "pd_status (new_job_doc data now) = Pending"
  by (simp add: new_job_doc_def)

lemma held_status_inj: "held_status h = held_status h' \<longleftrightarrow> h = h'"
  by (cases h; cases h') simp_all

lemma held_status_eq [simp]:
  "held_status h = Pending \<longleftrightarrow> h = HSubmit" "held_status h = Running \<longleftrightarrow> h = HLegacy"
  "held_status h = Gathering \<longleftrightarrow> h = HTransport" "held_status h = Planning \<longleftrightarrow> h = HPlanner"
  "Pending = held_status h \<longleftrightarrow> h = HSubmit" "Running = held_status h \<longleftrightarrow> h = HLegacy"
  "Gathering = held_status h \<longleftrightarrow> h = HTransport" "Planning = held_status h \<longleftrightarrow> h = HPlanner"
  "held_status h \<noteq> Completed" "held_status h \<noteq> Failed" "Completed \<noteq> held_status h" "Failed \<noteq> held_status h"
  by (cases h; simp)+

lemma holder_unique:
  assumes "job_inv s i" and "(i, h) \<in> ps_holders s" and "(i, h') \<in> ps_holders s"
  shows "h = h'"
proof (cases "ps_jobs s i")
  case None
  with assms show ?thesis by (simp add: job_inv_def)
next
  case (Some d)
  with assms(1) have "\<forall>h. (i, h) \<in> ps_holders s \<longrightarrow> pd_status d = held_status h"
    by (simp add: job_inv_def)
  with assms(2,3) have "held_status h = held_status h'" by metis
  then show ?thesis by (simp add: held_status_inj)
qed

lemma job_inv_step:
  assumes "planning_step crashes False s s'" and "\<And>i. job_inv s i"
  shows "job_inv s' k"
  using assms(1)
proof cases
  case (submit i data now j st)
  then show ?thesis using assms(2) [of k]
    by (cases "k = i") (auto simp: job_inv_def create_job_def Let_def chunks_ok_fields
        new_job_doc_status split: option.splits)
next
  case (enqueue i)
  then show ?thesis using assms(2) [of k] by (auto simp: job_inv_def split: option.splits)
next
  case (enqueue_failed i p j st)
  from update_status_result [OF enqueue_failed(4)] enqueue_failed(1-3) show ?thesis
    using assms(2) [of k] holder_unique [OF assms(2) enqueue_failed(2)]
    by (cases "k = i") (auto simp: job_inv_def chunks_ok_fields split: option.splits)
next
  case (legacy_claim i now j st)
  then show ?thesis using assms(2) [of k]
    by (cases "k = i") (auto simp: job_inv_def chunks_ok_fields split: option.splits
        elim!: claim_for_processingE)
next
  case (legacy_end i p j st)
  from update_status_result [OF legacy_end(4)] legacy_end(1-3) show ?thesis
    using assms(2) [of k] holder_unique [OF assms(2) legacy_end(2)]
    by (cases "k = i") (auto simp: job_inv_def chunks_ok_fields ending_def split: option.splits)
next
  case (gather_claim i now j st)
  then show ?thesis using assms(2) [of k]
    by (cases "k = i") (auto simp: job_inv_def chunks_ok_fields split: option.splits
        elim!: claim_for_gatheringE)
next
  case (gather_failed i p j st)
  from update_status_result [OF gather_failed(4)] gather_failed(1-3) show ?thesis
    using assms(2) [of k] holder_unique [OF assms(2) gather_failed(2)]
    by (cases "k = i") (auto simp: job_inv_def chunks_ok_fields split: option.splits)
next
  case (gather_nothing i j st)
  then show ?thesis using assms(2) [of k]
    by (cases "k = i") (auto simp: job_inv_def chunks_ok_fields split: option.splits
        elim!: claim_for_planningE)
next
  case (gather_sent i)
  then show ?thesis using assms(2) [of k] by (auto simp: job_inv_def split: option.splits)
next
  case (gather_sent_unconfirmed i)
  then show ?thesis by simp
next
  case (chunk_recorded i c r st)
  from append_result_chunk_result [OF chunk_recorded(3)] chunk_recorded(1,2) show ?thesis using assms(2) [of k] chunks_ok_push
    by (cases "k = i") (auto simp: job_inv_def split: option.splits)
next
  case (chunk_completed i ctx j st)
  then show ?thesis using assms(2) [of k]
    by (cases "k = i") (auto simp: job_inv_def chunks_ok_fields split: option.splits
        elim!: claim_for_planningE)
next
  case (gathering_failed i code msg now r st)
  from fail_if_still_gathering_result [OF gathering_failed(3)] gathering_failed(1,2) show ?thesis using assms(2) [of k]
    by (cases "k = i") (auto simp: job_inv_def chunks_ok_fields split: option.splits)
next
  case (planner_end i p j st)
  from update_status_result [OF planner_end(4)] planner_end(1-3) show ?thesis
    using assms(2) [of k] holder_unique [OF assms(2) planner_end(2)]
    by (cases "k = i") (auto simp: job_inv_def chunks_ok_fields ending_def split: option.splits)
next
  case (dies h)
  then show ?thesis using assms(2) [of k] by (auto simp: job_inv_def split: option.splits)
qed

lemma reachable_inv: "planning_reachable crashes False s \<Longrightarrow> job_inv s i"
proof (induction arbitrary: i rule: planning_reachable.induct)
  case start
  show ?case by (simp add: job_inv_def)
next
  case (more s s')
  show ?case by (rule job_inv_step [OF more.hyps(2)]) (rule more.IH)
qed

section \<open>What a step does to one job\<close>

text \<open>The part of a job that its owner is told about.\<close>

definition outcome_of :: "planning_job_doc \<Rightarrow>
    job_status \<times> json_obj option \<times> js_string option \<times> js_string option \<times> time option" where
  "outcome_of d = (pd_status d, pd_result d, pd_error_code d, pd_error_message d, pd_finished_at d)"

fun progress :: "job_status \<Rightarrow> nat" where
  "progress Pending = 0"
| "progress Running = 1"
| "progress Gathering = 1"
| "progress Planning = 2"
| "progress Completed = 3"
| "progress Failed = 3"

lemma ending_progress: "ending p \<Longrightarrow> progress (sp_status p) = 3"
  by (auto simp: ending_def)

lemma outcome_push_chunk [simp]: "outcome_of (push_chunk c d) = outcome_of d"
  by (simp add: outcome_of_def push_chunk_def)

text \<open>One step either leaves a job's outcome alone or moves it strictly on.\<close>

definition moves_on :: "planning_job_doc \<Rightarrow> planning_job_doc option \<Rightarrow> bool" where
  "moves_on d after \<longleftrightarrow> (\<exists>d'. after = Some d' \<and>
     (outcome_of d' = outcome_of d \<or> progress (pd_status d) < progress (pd_status d')))"

lemma moves_on_refl: "ps_jobs s k = Some d \<Longrightarrow> moves_on d (ps_jobs s k)"
  by (simp add: moves_on_def)

lemma moves_on_ending:
  assumes "job_inv s i" and "(i, h) \<in> ps_holders s" and "ending p"
    and "ps_jobs s k = Some d" and "update_status i p (ps_jobs s) = (j, st)"
  shows "moves_on d (st k)"
proof (cases "k = i")
  case True
  with assms(1,2,4) have "pd_status d = held_status h" by (auto simp: job_inv_def)
  with update_status_result [OF assms(5)] assms(3,4) True show ?thesis
    by (cases h) (auto simp: moves_on_def ending_progress)
qed (use update_status_result [OF assms(5)] assms(4) in \<open>auto simp: moves_on_def split: option.splits\<close>)

lemma step_moves_on:
  assumes "planning_step crashes False s s'" and "\<And>i. job_inv s i" and "ps_jobs s k = Some d"
  shows "moves_on d (ps_jobs s' k)"
  using assms(1)
proof cases
  case (submit i data now j st)
  with assms(3) show ?thesis by (cases "k = i") (auto simp: moves_on_def create_job_def Let_def)
next
  case (enqueue_failed i p j st)
  from moves_on_ending [OF assms(2) enqueue_failed(2) _ assms(3) enqueue_failed(4)] enqueue_failed(1,3) show ?thesis
    by (simp add: ending_def)
next
  case (legacy_claim i now j st)
  with assms(3) show ?thesis by (cases "k = i") (auto simp: moves_on_def elim!: claim_for_processingE)
next
  case (legacy_end i p j st)
  from moves_on_ending [OF assms(2) legacy_end(2,3) assms(3) legacy_end(4)] legacy_end(1) show ?thesis by simp
next
  case (gather_claim i now j st)
  with assms(3) show ?thesis by (cases "k = i") (auto simp: moves_on_def elim!: claim_for_gatheringE)
next
  case (gather_failed i p j st)
  from moves_on_ending [OF assms(2) gather_failed(2) _ assms(3) gather_failed(4)] gather_failed(1,3) show ?thesis
    by (simp add: ending_def)
next
  case (gather_nothing i j st)
  with assms(3) show ?thesis by (cases "k = i") (auto simp: moves_on_def elim!: claim_for_planningE)
next
  case (chunk_recorded i c r st)
  from append_result_chunk_result [OF chunk_recorded(3)] chunk_recorded(1,2) show ?thesis using assms(3)
    by (cases "k = i") (auto simp: moves_on_def split: option.splits)
next
  case (chunk_completed i ctx j st)
  with assms(3) show ?thesis by (cases "k = i") (auto simp: moves_on_def elim!: claim_for_planningE)
next
  case (gathering_failed i code msg now r st)
  from fail_if_still_gathering_result [OF gathering_failed(3)] gathering_failed(1,2) show ?thesis using assms(3)
    by (cases "k = i") (auto simp: moves_on_def split: option.splits)
next
  case (planner_end i p j st)
  from moves_on_ending [OF assms(2) planner_end(2,3) assms(3) planner_end(4)] planner_end(1) show ?thesis by simp
qed (use assms(3) in \<open>auto intro: moves_on_refl simp: moves_on_def\<close>)

lemma finished_stays:
  assumes "planning_reachable crashes False s" and "(planning_step crashes False)\<^sup>*\<^sup>* s s'"
    and "ps_jobs s i = Some d" and "progress (pd_status d) = 3"
  shows "planning_reachable crashes False s' \<and>
    (\<exists>d'. ps_jobs s' i = Some d' \<and> outcome_of d' = outcome_of d)"
  using assms(2)
proof (induction rule: rtranclp_induct)
  case base
  with assms show ?case by auto
next
  case (step t u)
  then obtain d' where reach: "planning_reachable crashes False t" and d': "ps_jobs t i = Some d'"
    "outcome_of d' = outcome_of d" by blast
  then have "progress (pd_status d') = 3" using assms(4) by (simp add: outcome_of_def)
  moreover have "progress s \<le> 3" for s by (cases s) simp_all
  ultimately have "\<not> progress (pd_status d') < progress (pd_status x)" for x
    by (metis not_le)
  moreover have "moves_on d' (ps_jobs u i)"
    by (rule step_moves_on [OF step.hyps(2) reachable_inv [OF reach] d'(1)])
  moreover have "planning_reachable crashes False u"
    using reach step.hyps(2) by (rule planning_reachable.more)
  ultimately show ?case using d'(2) by (auto simp: moves_on_def)
qed

lemma attended_step:
  assumes "planning_step False False s s'" and "\<And>i. job_inv s i" and "\<And>i. attended s i"
  shows "attended s' k"
  using assms(1)
proof cases
  case (submit i data now j st)
  then show ?thesis using assms(3) [of k]
    by (cases "k = i") (auto simp: attended_def create_job_def Let_def new_job_doc_status split: option.splits job_status.splits)
next
  case (enqueue i)
  then show ?thesis using assms(3) [of k]
    by (auto simp: attended_def split: option.splits job_status.splits)
next
  case (enqueue_failed i p j st)
  from update_status_result [OF enqueue_failed(4)] enqueue_failed(1-3) show ?thesis using assms(3) [of k] assms(2) [of i]
    by (cases "k = i") (auto simp: attended_def job_inv_def split: option.splits job_status.splits)
next
  case (legacy_claim i now j st)
  then show ?thesis using assms(3) [of k]
    by (cases "k = i") (auto simp: attended_def split: option.splits job_status.splits
        elim!: claim_for_processingE)
next
  case (legacy_end i p j st)
  from update_status_result [OF legacy_end(4)] legacy_end(1-3) show ?thesis using assms(3) [of k]
    by (cases "k = i") (auto simp: attended_def ending_def split: option.splits job_status.splits)
next
  case (gather_claim i now j st)
  then show ?thesis using assms(3) [of k]
    by (cases "k = i") (auto simp: attended_def split: option.splits job_status.splits
        elim!: claim_for_gatheringE)
next
  case (gather_failed i p j st)
  from update_status_result [OF gather_failed(4)] gather_failed(1-3) show ?thesis using assms(3) [of k]
    by (cases "k = i") (auto simp: attended_def split: option.splits job_status.splits)
next
  case (gather_nothing i j st)
  then show ?thesis using assms(3) [of k]
    by (cases "k = i") (auto simp: attended_def split: option.splits job_status.splits
        elim!: claim_for_planningE)
next
  case (gather_sent i)
  then show ?thesis using assms(3) [of k] assms(2) [of i]
    by (auto simp: attended_def job_inv_def split: option.splits job_status.splits)
next
  case (chunk_recorded i c r st)
  from append_result_chunk_result [OF chunk_recorded(3)] chunk_recorded(1,2) show ?thesis using assms(3) [of k]
    by (cases "k = i") (auto simp: attended_def split: option.splits job_status.splits)
next
  case (chunk_completed i ctx j st)
  then show ?thesis using assms(3) [of k]
    by (cases "k = i") (auto simp: attended_def split: option.splits job_status.splits
        elim!: claim_for_planningE)
next
  case (gathering_failed i code msg now r st)
  from fail_if_still_gathering_result [OF gathering_failed(3)] gathering_failed(1,2) show ?thesis using assms(3) [of k]
    by (cases "k = i") (auto simp: attended_def split: option.splits job_status.splits)
next
  case (planner_end i p j st)
  from update_status_result [OF planner_end(4)] planner_end(1-3) show ?thesis using assms(3) [of k]
    by (cases "k = i") (auto simp: attended_def ending_def split: option.splits job_status.splits)
qed simp_all

lemma reachable_attended: "planning_reachable False False s \<Longrightarrow> attended s i"
proof (induction arbitrary: i rule: planning_reachable.induct)
  case start
  show ?case by (simp add: attended_def)
next
  case (more s s')
  show ?case by (rule attended_step [OF more.hyps(2) reachable_inv [OF more.hyps(1)]]) (rule more.IH)
qed

text \<open>A run that takes one job from its submission to its end over the broker, used below.\<close>

definition job_at :: "job_status \<Rightarrow> job_store" where
  "job_at st = [js ''j'' \<mapsto> (new_job_doc sample_data 0)\<lparr>pd_status := st\<rparr>]"

definition gathering_store :: job_store where
  "gathering_store = snd (claim_for_gathering (js ''j'') 1 (job_at Pending))"

definition planning_store :: job_store where
  "planning_store = snd (claim_for_planning (js ''j'') [] gathering_store)"

definition done_patch :: status_patch where
  "done_patch = completed_patch \<lparr>vr_fields = [], vr_model = None\<rparr> 2"

definition done_store :: job_store where
  "done_store = snd (update_status (js ''j'') done_patch planning_store)"

lemma sample_run:
  "planning_reachable crashes lossy \<lparr>ps_jobs = gathering_store,
     ps_holders = {(js ''j'', HTransport)}, ps_queued = {js ''j''}, ps_sent = {}\<rparr>"
proof -
  let ?i = "js ''j''"
  let ?s0 = "\<lparr>ps_jobs = Map.empty, ps_holders = {}, ps_queued = {}, ps_sent = {}\<rparr>"
  let ?s1 = "\<lparr>ps_jobs = job_at Pending, ps_holders = {(?i, HSubmit)}, ps_queued = {}, ps_sent = {}\<rparr>"
  let ?s2 = "\<lparr>ps_jobs = job_at Pending, ps_holders = {}, ps_queued = {?i}, ps_sent = {}\<rparr>"
  have pend: "(new_job_doc sample_data 0)\<lparr>pd_status := Pending\<rparr> = new_job_doc sample_data 0"
    by (simp add: new_job_doc_def)
  have "planning_reachable crashes lossy ?s1"
    by (rule planning_reachable.more [OF planning_reachable.start])
       (use planning_step.submit [of ?s0 ?i sample_data 0 "to_domain ?i (new_job_doc sample_data 0)"
          "job_at Pending"] in \<open>simp add: create_job_def job_at_def pend Let_def\<close>)
  then have "planning_reachable crashes lossy ?s2"
    by (rule planning_reachable.more) (use planning_step.enqueue [of ?i ?s1] in simp)
  then show ?thesis
    by (rule planning_reachable.more)
       (use planning_step.gather_claim [of ?i ?s2 1 "the (fst (claim_for_gathering ?i 1 (job_at Pending)))"
          gathering_store]
        in \<open>simp add: gathering_store_def job_at_def job_ops update_where_def\<close>)
qed

lemma gathering_store_j: "gathering_store (js ''j'') =
    Some ((new_job_doc sample_data 0)\<lparr>pd_status := Gathering, pd_started_at := Some 1\<rparr>)"
  by (simp add: gathering_store_def job_at_def job_ops update_where_def)

lemma sample_planning:
  assumes "planning_reachable crashes lossy \<lparr>ps_jobs = gathering_store, ps_holders = hs,
      ps_queued = {js ''j''}, ps_sent = {js ''j''}\<rparr>"
  shows "planning_reachable crashes lossy \<lparr>ps_jobs = done_store,
      ps_holders = hs - {(js ''j'', HPlanner)}, ps_queued = {js ''j''}, ps_sent = {js ''j''}\<rparr>"
proof -
  let ?i = "js ''j''"
  let ?s = "\<lparr>ps_jobs = gathering_store, ps_holders = hs, ps_queued = {?i}, ps_sent = {?i}\<rparr>"
  let ?t = "\<lparr>ps_jobs = planning_store, ps_holders = insert (?i, HPlanner) hs, ps_queued = {?i}, ps_sent = {?i}\<rparr>"
  have "claim_for_planning ?i [] gathering_store =
      (Some (the (fst (claim_for_planning ?i [] gathering_store))), planning_store)"
    by (simp add: planning_store_def gathering_store_j job_ops update_where_def)
  then have "planning_step crashes lossy ?s ?t"
    using planning_step.chunk_completed [of ?i ?s "[]"] by simp
  with assms have t: "planning_reachable crashes lossy ?t" by (rule planning_reachable.more)
  have "update_status ?i done_patch planning_store =
      (fst (update_status ?i done_patch planning_store), done_store)"
    by (simp add: done_store_def)
  then have "planning_step crashes lossy ?t \<lparr>ps_jobs = done_store,
      ps_holders = insert (?i, HPlanner) hs - {(?i, HPlanner)}, ps_queued = {?i}, ps_sent = {?i}\<rparr>"
    using planning_step.planner_end [of ?i ?t done_patch] by (simp add: ending_def done_patch_def)
  from planning_reachable.more [OF t this] show ?thesis by simp
qed

lemma done_store_j: "\<exists>d. done_store (js ''j'') = Some d \<and> pd_status d = Completed"
  by (simp add: done_store_def planning_store_def gathering_store_j job_ops update_where_def done_patch_def)

lemma sample_done:
  "planning_reachable crashes lossy \<lparr>ps_jobs = done_store, ps_holders = {}, ps_queued = {js ''j''},
     ps_sent = {js ''j''}\<rparr>"
proof -
  let ?s = "\<lparr>ps_jobs = gathering_store, ps_holders = {(js ''j'', HTransport)}, ps_queued = {js ''j''}, ps_sent = {}\<rparr>"
  have "planning_step crashes lossy ?s \<lparr>ps_jobs = gathering_store, ps_holders = {},
      ps_queued = {js ''j''}, ps_sent = {js ''j''}\<rparr>"
    using planning_step.gather_sent [of "js ''j''" ?s] by simp
  from sample_planning [OF planning_reachable.more [OF sample_run this]] show ?thesis by simp
qed

section \<open>Properties\<close>







text \<open>The assumption on the broker is needed. If a publish is reported as failed although the
  request was delivered, the worker's write of the publish failure is not guarded by the job's
  status: a job that the chunks already completed ends up failed.\<close>

theorem unconfirmed_publish_overwrites_result:
  "\<exists>s s' d d'. planning_reachable False True s \<and> planning_step False True s s' \<and>
    ps_jobs s (js ''j'') = Some d \<and> pd_status d = Completed \<and>
    ps_jobs s' (js ''j'') = Some d' \<and> pd_status d' = Failed"
proof -
  let ?i = "js ''j''"
  let ?s = "\<lparr>ps_jobs = gathering_store, ps_holders = {(?i, HTransport)}, ps_queued = {?i}, ps_sent = {}\<rparr>"
  let ?d = "\<lparr>ps_jobs = done_store, ps_holders = {(?i, HTransport)}, ps_queued = {?i}, ps_sent = {?i}\<rparr>"
  have "planning_step False True ?s \<lparr>ps_jobs = gathering_store, ps_holders = {(?i, HTransport)},
      ps_queued = {?i}, ps_sent = {?i}\<rparr>"
    using planning_step.gather_sent_unconfirmed [of True ?i ?s] by simp
  from sample_planning [OF planning_reachable.more [OF sample_run this]]
  have reach: "planning_reachable False True ?d" by simp
  obtain d where d: "done_store ?i = Some d" "pd_status d = Completed" using done_store_j by blast
  let ?p = "patch_status Failed"
  let ?e = "\<lparr>ps_jobs = done_store(?i \<mapsto> apply_patch ?p d), ps_holders = {}, ps_queued = {?i}, ps_sent = {?i}\<rparr>"
  have "planning_step False True ?d ?e"
    using planning_step.gather_failed [of ?i ?d ?p] update_status_hit [of done_store ?i d ?p] d(1) by simp
  with reach d show ?thesis by fastforce
qed

end
