(* ===== verification/Documents.thy ===== *)
theory Documents
  imports Stores Events JsText "HOL-Library.Multiset"
begin

text \<open>
  Documents and their sections: \<open>domain/documents\<close>, the TypeORM repositories of
  \<open>infrastructure/persistence/documents\<close> and the use-cases of \<open>application/documents\<close>. The
  tables are lists of rows in insertion order, which is also how equal sort keys come back. A use
  case that awaits between a check and a write takes the change \<open>meanwhile\<close> that others make.
\<close>

section \<open>Data\<close>

record document =
  dm_id :: ident
  dm_userId :: ident
  dm_title :: js_string
  dm_docType :: js_string
  dm_status :: js_string
  dm_styleConfig :: json_obj
  dm_createdAt :: time
  dm_updatedAt :: time

record document_patch =
  dp_title :: "js_string option"
  dp_docType :: "js_string option"
  dp_status :: "js_string option"
  dp_styleConfig :: "json_obj option"

record doc_section =
  sn_id :: ident
  sn_documentId :: ident
  sn_title :: js_string
  sn_content :: js_string
  sn_order :: int
  sn_status :: js_string
  sn_wordCount :: nat
  sn_createdAt :: time
  sn_updatedAt :: time

record section_patch =
  np_title :: "js_string option"
  np_content :: "js_string option"
  np_status :: "js_string option"
  np_wordCount :: "nat option"

text \<open>\<open>ReplaceSectionData\<close>.\<close>

record section_data =
  sd_title :: js_string
  sd_content :: js_string
  sd_order :: int
  sd_status :: js_string
  sd_wordCount :: nat

record docs_state =
  ds_documents :: "document list"
  ds_sections :: "doc_section list"
  ds_emitted :: "event list"

text \<open>\<open>wordCount\<close>.\<close>

definition word_count :: "js_string \<Rightarrow> nat" where
  "word_count content =
     (let trimmed = trim content in if trimmed = [] then 0 else length (split_ws trimmed))"

text \<open>A field of a patch: \<open>undefined\<close> keeps the old value.\<close>

definition patched :: "'a option \<Rightarrow> 'a \<Rightarrow> 'a" where
  "patched p old = (case p of None \<Rightarrow> old | Some v \<Rightarrow> v)"

section \<open>Repositories\<close>

definition find_document :: "ident \<Rightarrow> document list \<Rightarrow> document option" where
  "find_document i t = find (\<lambda>d. dm_id d = i) t"

definition find_documents_by_user :: "ident \<Rightarrow> document list \<Rightarrow> document list" where
  "find_documents_by_user u t = filter (\<lambda>d. dm_userId d = u) t"

definition patch_document :: "document_patch \<Rightarrow> time \<Rightarrow> document \<Rightarrow> document" where
  "patch_document p now d = d\<lparr>dm_title := patched (dp_title p) (dm_title d),
     dm_docType := patched (dp_docType p) (dm_docType d),
     dm_status := patched (dp_status p) (dm_status d),
     dm_styleConfig := patched (dp_styleConfig p) (dm_styleConfig d), dm_updatedAt := now\<rparr>"

definition document_not_found :: "ident \<Rightarrow> http_error" where
  "document_not_found i = NotFound (js ''Document '' @ i @ js '' not found'')"

definition section_not_found :: "ident \<Rightarrow> http_error" where
  "section_not_found i = NotFound (js ''Section '' @ i @ js '' not found'')"

definition update_document_row ::
    "ident \<Rightarrow> document_patch \<Rightarrow> time \<Rightarrow> document list \<Rightarrow> (http_error + document) \<times> document list" where
  "update_document_row i p now t =
     (case find_document i t of
        None \<Rightarrow> (Inl (document_not_found i), t)
      | Some d \<Rightarrow> (Inr (patch_document p now d), sql_update (\<lambda>d. dm_id d = i) (patch_document p now) t))"

text \<open>Deleting a document cascades to its sections.\<close>

definition delete_document_row :: "ident \<Rightarrow> docs_state \<Rightarrow> docs_state" where
  "delete_document_row i s = s\<lparr>ds_documents := sql_delete (\<lambda>d. dm_id d = i) (ds_documents s),
     ds_sections := sql_delete (\<lambda>n. sn_documentId n = i) (ds_sections s)\<rparr>"

definition find_section :: "ident \<Rightarrow> doc_section list \<Rightarrow> doc_section option" where
  "find_section i t = find (\<lambda>n. sn_id n = i) t"

text \<open>\<open>findByDocument\<close>: by \<open>order\<close>, then by \<open>createdAt\<close>.\<close>

definition find_sections_by_document :: "ident \<Rightarrow> doc_section list \<Rightarrow> doc_section list" where
  "find_sections_by_document i t =
     sort_key sn_order (sort_key sn_createdAt (filter (\<lambda>n. sn_documentId n = i) t))"

definition find_titles_by_document :: "ident \<Rightarrow> doc_section list \<Rightarrow> (ident \<times> js_string) list" where
  "find_titles_by_document i t =
     map (\<lambda>n. (sn_id n, sn_title n)) (find_sections_by_document i t)"

definition patch_section :: "section_patch \<Rightarrow> time \<Rightarrow> doc_section \<Rightarrow> doc_section" where
  "patch_section p now n = n\<lparr>sn_title := patched (np_title p) (sn_title n),
     sn_content := patched (np_content p) (sn_content n),
     sn_status := patched (np_status p) (sn_status n),
     sn_wordCount := patched (np_wordCount p) (sn_wordCount n), sn_updatedAt := now\<rparr>"

definition update_section_row ::
    "ident \<Rightarrow> section_patch \<Rightarrow> time \<Rightarrow> doc_section list \<Rightarrow> (http_error + doc_section) \<times> doc_section list" where
  "update_section_row i p now t =
     (let t' = sql_update (\<lambda>n. sn_id n = i) (patch_section p now) t in
      case find_section i t' of
        None \<Rightarrow> (Inl (section_not_found i), t')
      | Some n \<Rightarrow> (Inr n, t'))"

definition max_order :: "ident \<Rightarrow> doc_section list \<Rightarrow> int option" where
  "max_order i t =
     (case filter (\<lambda>n. sn_documentId n = i) t of
        [] \<Rightarrow> None
      | n # ns \<Rightarrow> Some (Max (sn_order ` set (n # ns))))"

text \<open>\<open>reorder\<close>: one \<open>UPDATE\<close> per id, in the order of the list.\<close>

fun reorder_from :: "int \<Rightarrow> ident \<Rightarrow> time \<Rightarrow> ident list \<Rightarrow> doc_section list \<Rightarrow> doc_section list" where
  "reorder_from k doc now [] t = t"
| "reorder_from k doc now (i # is) t =
     reorder_from (k + 1) doc now is
       (sql_update (\<lambda>n. sn_id n = i \<and> sn_documentId n = doc) (\<lambda>n. n\<lparr>sn_order := k, sn_updatedAt := now\<rparr>) t)"

definition new_section :: "ident \<Rightarrow> ident \<Rightarrow> section_data \<Rightarrow> time \<Rightarrow> doc_section" where
  "new_section i doc d now = \<lparr>sn_id = i, sn_documentId = doc, sn_title = sd_title d,
     sn_content = sd_content d, sn_order = sd_order d, sn_status = sd_status d,
     sn_wordCount = sd_wordCount d, sn_createdAt = now, sn_updatedAt = now\<rparr>"

definition fk_violation :: http_error where
  "fk_violation = InternalError (js ''insert or update on table violates foreign key constraint'')"

text \<open>
  \<open>create\<close> and \<open>replaceAll\<close> insert rows that reference the document; without it, PostgreSQL
  refuses the insert and the transaction is rolled back.
\<close>

definition create_section_row ::
    "ident \<Rightarrow> ident \<Rightarrow> section_data \<Rightarrow> time \<Rightarrow> docs_state \<Rightarrow> (http_error + doc_section) \<times> docs_state" where
  "create_section_row i doc d now s =
     (if find_document doc (ds_documents s) = None then (Inl fk_violation, s)
      else (Inr (new_section i doc d now),
            s\<lparr>ds_sections := ds_sections s @ [new_section i doc d now]\<rparr>))"

definition replace_all_sections ::
    "ident list \<Rightarrow> ident \<Rightarrow> section_data list \<Rightarrow> time \<Rightarrow> docs_state \<Rightarrow> (http_error + nat) \<times> docs_state" where
  "replace_all_sections ids doc ds now s =
     (if ds \<noteq> [] \<and> find_document doc (ds_documents s) = None then (Inl fk_violation, s)
      else (Inr (length ds),
            s\<lparr>ds_sections := sql_delete (\<lambda>n. sn_documentId n = doc) (ds_sections s) @
                map2 (\<lambda>i d. new_section i doc d now) ids ds\<rparr>))"

section \<open>Use-cases\<close>

definition emit_doc :: "event \<Rightarrow> docs_state \<Rightarrow> docs_state" where
  "emit_doc e s = s\<lparr>ds_emitted := ds_emitted s @ [e]\<rparr>"

definition get_document :: "ident \<Rightarrow> ident \<Rightarrow> docs_state \<Rightarrow> http_error + document" where
  "get_document user doc s =
     (case find_document doc (ds_documents s) of
        None \<Rightarrow> Inl (document_not_found doc)
      | Some d \<Rightarrow> (if dm_userId d \<noteq> user then Inl (document_not_found doc) else Inr d))"

definition get_section :: "ident \<Rightarrow> ident \<Rightarrow> ident \<Rightarrow> docs_state \<Rightarrow> http_error + doc_section" where
  "get_section user doc i s =
     (case get_document user doc s of
        Inl e \<Rightarrow> Inl e
      | Inr _ \<Rightarrow>
          (case find_section i (ds_sections s) of
             None \<Rightarrow> Inl (section_not_found i)
           | Some n \<Rightarrow> (if sn_documentId n \<noteq> doc then Inl (section_not_found i) else Inr n)))"

definition list_documents :: "ident \<Rightarrow> docs_state \<Rightarrow> document list" where
  "list_documents user s = find_documents_by_user user (ds_documents s)"

definition list_sections :: "ident \<Rightarrow> ident \<Rightarrow> docs_state \<Rightarrow> http_error + doc_section list" where
  "list_sections user doc s =
     map_sum id (\<lambda>_. find_sections_by_document doc (ds_sections s)) (get_document user doc s)"

definition create_document ::
    "ident \<Rightarrow> ident \<Rightarrow> js_string \<Rightarrow> js_string \<Rightarrow> js_string option \<Rightarrow> json_obj option \<Rightarrow> time \<Rightarrow>
      docs_state \<Rightarrow> document \<times> docs_state" where
  "create_document new_id user title doc_type status style now s =
     (let d = \<lparr>dm_id = new_id, dm_userId = user, dm_title = title, dm_docType = doc_type,
               dm_status = (case status of None \<Rightarrow> js ''draft'' | Some x \<Rightarrow> x),
               dm_styleConfig = (case style of None \<Rightarrow> [] | Some c \<Rightarrow> c),
               dm_createdAt = now, dm_updatedAt = now\<rparr>
      in (d, emit_doc (DocumentCreated user new_id) (s\<lparr>ds_documents := ds_documents s @ [d]\<rparr>)))"

definition update_document ::
    "(docs_state \<Rightarrow> docs_state) \<Rightarrow> ident \<Rightarrow> ident \<Rightarrow> document_patch \<Rightarrow> time \<Rightarrow> docs_state \<Rightarrow>
      (http_error + document) \<times> docs_state" where
  "update_document meanwhile user doc p now s =
     (case get_document user doc s of
        Inl e \<Rightarrow> (Inl e, s)
      | Inr _ \<Rightarrow>
          (let s1 = meanwhile s; (r, t) = update_document_row doc p now (ds_documents s1)
           in (r, s1\<lparr>ds_documents := t\<rparr>)))"

definition delete_document :: "ident \<Rightarrow> ident \<Rightarrow> docs_state \<Rightarrow> (http_error + unit) \<times> docs_state" where
  "delete_document user doc s =
     (case get_document user doc s of
        Inl e \<Rightarrow> (Inl e, s)
      | Inr _ \<Rightarrow> (Inr (), delete_document_row doc s))"

definition create_section ::
    "(docs_state \<Rightarrow> docs_state) \<Rightarrow> ident \<Rightarrow> ident \<Rightarrow> ident \<Rightarrow> js_string \<Rightarrow> js_string \<Rightarrow> js_string option \<Rightarrow>
      time \<Rightarrow> docs_state \<Rightarrow> (http_error + doc_section) \<times> docs_state" where
  "create_section meanwhile new_id user doc title content status now s =
     (case get_document user doc s of
        Inl e \<Rightarrow> (Inl e, s)
      | Inr _ \<Rightarrow>
          (let order = (case max_order doc (ds_sections s) of None \<Rightarrow> -1 | Some m \<Rightarrow> m) + 1;
               data = \<lparr>sd_title = title, sd_content = content, sd_order = order,
                       sd_status = (case status of None \<Rightarrow> js ''draft'' | Some x \<Rightarrow> x),
                       sd_wordCount = word_count content\<rparr>
           in case create_section_row new_id doc data now (meanwhile s) of
                (Inl e, s') \<Rightarrow> (Inl e, s')
              | (Inr n, s') \<Rightarrow> (Inr n, emit_doc (SectionCreated user doc (sn_id n)) s')))"

definition update_section ::
    "(docs_state \<Rightarrow> docs_state) \<Rightarrow> ident \<Rightarrow> ident \<Rightarrow> ident \<Rightarrow> section_patch \<Rightarrow> time \<Rightarrow> docs_state \<Rightarrow>
      (http_error + doc_section) \<times> docs_state" where
  "update_section meanwhile user doc i p now s =
     (case get_section user doc i s of
        Inl e \<Rightarrow> (Inl e, s)
      | Inr _ \<Rightarrow>
          (let s1 = meanwhile s;
               p' = p\<lparr>np_wordCount := (case np_content p of None \<Rightarrow> None | Some c \<Rightarrow> Some (word_count c))\<rparr>
           in case update_section_row i p' now (ds_sections s1) of
                (Inl e, t) \<Rightarrow> (Inl e, s1\<lparr>ds_sections := t\<rparr>)
              | (Inr n, t) \<Rightarrow> (Inr n, emit_doc (SectionUpdated user doc (sn_id n) (sn_wordCount n))
                                (s1\<lparr>ds_sections := t\<rparr>))))"

definition delete_section ::
    "ident \<Rightarrow> ident \<Rightarrow> ident \<Rightarrow> docs_state \<Rightarrow> (http_error + unit) \<times> docs_state" where
  "delete_section user doc i s =
     (case get_section user doc i s of
        Inl e \<Rightarrow> (Inl e, s)
      | Inr _ \<Rightarrow> (Inr (), s\<lparr>ds_sections := sql_delete (\<lambda>n. sn_id n = i) (ds_sections s)\<rparr>))"

definition reorder_message :: js_string where
  "reorder_message = js ''sectionIds must be exactly the set of this document'' @ [0x2019] @
     js ''s section ids''"

definition reorder_sections ::
    "(docs_state \<Rightarrow> docs_state) \<Rightarrow> ident \<Rightarrow> ident \<Rightarrow> ident list \<Rightarrow> time \<Rightarrow> docs_state \<Rightarrow>
      (http_error + doc_section list) \<times> docs_state" where
  "reorder_sections meanwhile user doc ids now s =
     (case get_document user doc s of
        Inl e \<Rightarrow> (Inl e, s)
      | Inr _ \<Rightarrow>
          (let existing = map sn_id (find_sections_by_document doc (ds_sections s)) in
           if card (set existing) \<noteq> card (set ids) \<or> length ids \<noteq> length existing \<or>
              \<not> set existing \<subseteq> set ids
           then (Inl (BadRequest reorder_message), s)
           else
             (let s1 = meanwhile s; t = reorder_from 0 doc now ids (ds_sections s1)
              in (Inr (find_sections_by_document doc t), s1\<lparr>ds_sections := t\<rparr>))))"

section \<open>Lemmas\<close>

definition document_owner :: "docs_state \<Rightarrow> ident \<Rightarrow> ident option" where
  "document_owner s i = map_option dm_userId (find_document i (ds_documents s))"

lemma get_document_Inr:
  "get_document u i s = Inr d \<longleftrightarrow> find_document i (ds_documents s) = Some d \<and> dm_userId d = u"
  by (auto simp: get_document_def split: option.splits)

lemma get_document_refused:
  "document_owner s i \<noteq> Some u \<Longrightarrow> get_document u i s = Inl (document_not_found i)"
  by (auto simp: get_document_def document_owner_def split: option.splits)

text \<open>The use-cases that act on one document, its sections included.\<close>

definition document_ops :: "(ident \<Rightarrow> ident \<Rightarrow> docs_state \<Rightarrow> (http_error + unit) \<times> docs_state) set" where
  "document_ops =
     {\<lambda>u i. answer_only (\<lambda>s. (get_document u i s, s))} \<union>
     {\<lambda>u i. answer_only (\<lambda>s. (list_sections u i s, s))} \<union>
     {\<lambda>u i. answer_only (\<lambda>s. (get_section u i n s, s)) | n. True} \<union>
     {\<lambda>u i. answer_only (update_document m u i p now) | m p now. True} \<union>
     {\<lambda>u i. answer_only (delete_document u i)} \<union>
     {\<lambda>u i. answer_only (create_section m new u i title content status now) |
        m new title content status now. True} \<union>
     {\<lambda>u i. answer_only (update_section m u i n p now) | m n p now. True} \<union>
     {\<lambda>u i. answer_only (delete_section u i n) | n. True} \<union>
     {\<lambda>u i. answer_only (reorder_sections m u i ids now) | m ids now. True}"

interpretation docs: owner_scoped document_owner document_not_found document_ops
proof
  fix f :: "ident \<Rightarrow> ident \<Rightarrow> docs_state \<Rightarrow> (http_error + unit) \<times> docs_state" and s i u
  assume "f \<in> document_ops" and "document_owner s i \<noteq> Some u"
  from get_document_refused [OF this(2)] this(1) show "f u i s = (Inl (document_not_found i), s)"
    unfolding document_ops_def
    by (auto simp: answer_only_def list_sections_def get_section_def update_document_def
        delete_document_def create_section_def update_section_def delete_section_def
        reorder_sections_def)
qed

subsection \<open>Reordering\<close>

text \<open>The position of an id in the requested order.\<close>

definition position :: "ident \<Rightarrow> ident list \<Rightarrow> nat" where
  "position i is = length (takeWhile (\<lambda>j. j \<noteq> i) is)"

lemma position_Cons: "position i (j # is) = (if i = j then 0 else Suc (position i is))"
  by (simp add: position_def)

lemma position_nth: "distinct is \<Longrightarrow> k < length is \<Longrightarrow> position (is ! k) is = k"
proof (induction "is" arbitrary: k)
  case (Cons i "is")
  then show ?case by (cases k) (auto simp: position_Cons)
qed simp

definition reordered :: "int \<Rightarrow> ident \<Rightarrow> time \<Rightarrow> ident list \<Rightarrow> doc_section \<Rightarrow> doc_section" where
  "reordered k doc now is n = (if sn_documentId n = doc \<and> sn_id n \<in> set is
     then n\<lparr>sn_order := k + int (position (sn_id n) is), sn_updatedAt := now\<rparr> else n)"

lemma reorder_from_map:
  "distinct is \<Longrightarrow> reorder_from k doc now is t = map (reordered k doc now is) t"
proof (induction "is" arbitrary: k t)
  case Nil
  then show ?case by (simp add: reordered_def cong: map_cong)
next
  case (Cons i "is")
  then show ?case
    by (auto simp: sql_update_def reordered_def position_Cons)
qed

lemma sections_by_document_mset:
  "mset (find_sections_by_document i t) = mset (filter (\<lambda>n. sn_documentId n = i) t)"
  by (simp add: find_sections_by_document_def)

lemma set_sections_by_document:
  "set (find_sections_by_document i t) = {n \<in> set t. sn_documentId n = i}"
  by (simp add: find_sections_by_document_def)

lemma distinct_section_ids:
  "distinct (map sn_id t) \<Longrightarrow> distinct (map sn_id (find_sections_by_document i t))"
proof -
  assume "distinct (map sn_id t)"
  then have "distinct (map sn_id (filter (\<lambda>n. sn_documentId n = i) t))"
    by (rule distinct_map_filter)
  moreover have "mset (map sn_id (find_sections_by_document i t)) =
      mset (map sn_id (filter (\<lambda>n. sn_documentId n = i) t))"
    by (simp add: sections_by_document_mset)
  ultimately show ?thesis by (metis mset_eq_imp_distinct_iff)
qed

text \<open>The check of the use-case: the same number of ids, and every section among them.\<close>

lemma reorder_check:
  assumes "distinct (map sn_id t)"
  shows "(card (set (map sn_id (find_sections_by_document i t))) = card (set ids) \<and>
      length ids = length (map sn_id (find_sections_by_document i t)) \<and>
      set (map sn_id (find_sections_by_document i t)) \<subseteq> set ids) \<longleftrightarrow>
    mset ids = mset (map sn_id (find_sections_by_document i t))" (is "?l \<longleftrightarrow> ?r")
proof
  let ?e = "map sn_id (find_sections_by_document i t)"
  assume l: ?l
  then have "set ?e = set ids" by (intro card_subset_eq) auto
  moreover have "distinct ?e" by (rule distinct_section_ids [OF assms])
  moreover from this l have "distinct ids"
    by (metis card_distinct distinct_card)
  ultimately show ?r by (metis set_eq_iff_mset_eq_distinct)
next
  let ?e = "map sn_id (find_sections_by_document i t)"
  assume r: ?r
  then have "set ids = set ?e" "length ids = length ?e"
    by (metis mset_eq_setD) (metis r mset_eq_length)
  then show ?l by simp
qed

lemma reordered_listing:
  assumes "distinct ids" and "mset ids = mset (map sn_id (find_sections_by_document doc t))"
  shows "map sn_id (find_sections_by_document doc (map (reordered 0 doc now ids) t)) = ids \<and>
    map sn_order (find_sections_by_document doc (map (reordered 0 doc now ids) t)) = map int [0..<length ids]"
proof -
  let ?out = "find_sections_by_document doc (map (reordered 0 doc now ids) t)"
  let ?p = "\<lambda>i. position i ids"
  have ids: "set ids = sn_id ` {n \<in> set t. sn_documentId n = doc}"
    using mset_eq_setD [OF assms(2)] by (simp add: set_sections_by_document)
  have ord: "map sn_order ?out = map (int \<circ> ?p \<circ> sn_id) ?out"
  proof (rule map_cong [OF refl])
    fix n assume "n \<in> set ?out"
    then obtain m where m: "m \<in> set t" "n = reordered 0 doc now ids m" "sn_documentId n = doc"
      unfolding set_sections_by_document by auto
    then have doc: "sn_documentId m = doc" by (simp add: reordered_def split: if_splits)
    with m(1) have "sn_id m \<in> set ids" unfolding ids by blast
    with m(2) doc show "sn_order n = (int \<circ> ?p \<circ> sn_id) n" by (simp add: reordered_def)
  qed
  have "map sn_id (filter (\<lambda>n. sn_documentId n = doc) (map (reordered 0 doc now ids) t)) =
      map sn_id (filter (\<lambda>n. sn_documentId n = doc) t)"
    by (induction t) (auto simp: reordered_def)
  from arg_cong [OF this, of mset] have perm: "mset (map sn_id ?out) = mset ids"
    using assms(2) by (simp add: sections_by_document_mset)
  have pos: "map ?p ids = [0..<length ids]"
    using position_nth [OF assms(1)] by (intro nth_equalityI) auto
  then have inj: "inj_on ?p (set ids)" by (metis distinct_map distinct_upt)
  have "sorted (map sn_order ?out)" unfolding find_sections_by_document_def by simp
  then have "sorted (map ?p (map sn_id ?out))"
    unfolding ord by (simp add: sorted_map sorted_wrt_map)
  moreover have "sorted (map ?p ids)" using pos by simp
  moreover have "sort_key ?p (map sn_id ?out) = sort_key ?p ids"
    by (rule sort_key_mset_eq [OF perm]) (use inj mset_eq_setD [OF perm] in simp)
  ultimately have eq: "map sn_id ?out = ids" by (simp only: sort_key_id_if_sorted)
  have "map sn_order ?out = map int (map ?p (map sn_id ?out))" unfolding ord by simp
  then show ?thesis unfolding eq pos by (rule conjI [OF refl])
qed

lemma reorder_sections_run:
  assumes "distinct (map sn_id (ds_sections s))" and "document_owner s doc = Some user"
  shows "reorder_sections m user doc ids now s =
    (if mset ids = mset (map sn_id (find_sections_by_document doc (ds_sections s)))
     then (Inr (find_sections_by_document doc (reorder_from 0 doc now ids (ds_sections (m s)))),
           (m s)\<lparr>ds_sections := reorder_from 0 doc now ids (ds_sections (m s))\<rparr>)
     else (Inl (BadRequest reorder_message), s))"
proof -
  let ?e = "map sn_id (find_sections_by_document doc (ds_sections s))"
  obtain d where d: "get_document user doc s = Inr d"
    using assms(2) by (auto simp: document_owner_def get_document_Inr)
  have "(card (set ?e) \<noteq> card (set ids) \<or> length ids \<noteq> length ?e \<or> \<not> set ?e \<subseteq> set ids) \<longleftrightarrow>
      \<not> mset ids = mset ?e"
    using reorder_check [OF assms(1), of doc ids] by blast
  then show ?thesis by (simp only: reorder_sections_def d sum.case Let_def if_not_P) simp
qed

lemma sort_key_append_max:
  assumes "\<forall>x \<in> set xs. f x < f n"
  shows "sort_key f (sort_key g (xs @ [n])) = sort_key f (sort_key g xs) @ [n]"
proof (rule properties_for_sort_key)
  show "mset (sort_key f (sort_key g xs) @ [n]) = mset (sort_key g (xs @ [n]))" by simp
  show "sorted (map f (sort_key f (sort_key g xs) @ [n]))"
    using assms by (auto simp: sorted_append less_imp_le)
  fix k assume k: "k \<in> set (sort_key f (sort_key g xs) @ [n])"
  show "filter (\<lambda>x. f k = f x) (sort_key f (sort_key g xs) @ [n]) =
      filter (\<lambda>x. f k = f x) (sort_key g (xs @ [n]))"
  proof (cases "f k = f n")
    case True
    then have "filter (\<lambda>x. f k = f x) xs = []" using assms by (auto simp: filter_empty_conv)
    with True show ?thesis by (simp add: filter_sort)
  next
    case False
    have "filter (\<lambda>x. f k = f x) (sort_key f (sort_key g xs)) = filter (\<lambda>x. f k = f x) (sort_key g xs)"
      unfolding eq_commute [of "f k"] by (rule sort_key_stable)
    also have "\<dots> = sort_key g (filter (\<lambda>x. f k = f x) (xs @ [n]))"
      using False by (simp add: filter_sort)
    also have "\<dots> = filter (\<lambda>x. f k = f x) (sort_key g (xs @ [n]))" by (simp only: filter_sort)
    finally show ?thesis using False by simp
  qed
qed

lemma max_order_less:
  assumes "n \<in> set t" and "sn_documentId n = doc"
  shows "sn_order n < (case max_order doc t of None \<Rightarrow> -1 | Some m \<Rightarrow> m) + 1"
proof -
  let ?ns = "filter (\<lambda>n. sn_documentId n = doc) t"
  from assms have n: "n \<in> set ?ns" by simp
  then have "max_order doc t = Some (Max (sn_order ` set ?ns))"
    unfolding max_order_def by (cases ?ns) (simp_all only: list.case list.set(1) empty_iff)
  moreover have "sn_order n \<le> Max (sn_order ` set ?ns)" using n by (intro Max_ge) auto
  ultimately show ?thesis by simp
qed

subsection \<open>Counting words\<close>

text \<open>The number of maximal runs without white space; \<open>b\<close> tells whether the code unit before is one.\<close>

fun word_starts :: "bool \<Rightarrow> js_string \<Rightarrow> nat" where
  "word_starts b [] = 0"
| "word_starts b (c # s) =
     (if js_ws c then word_starts True s else (if b then 1 else 0) + word_starts False s)"

lemma word_starts_dropWhile: "word_starts True (dropWhile js_ws s) = word_starts True s"
  by (induction s) auto

lemma word_starts_ws: "\<forall>c \<in> set s. js_ws c \<Longrightarrow> word_starts b s = 0"
  by (induction s arbitrary: b) auto

lemma word_starts_append_ws: "\<forall>c \<in> set w. js_ws c \<Longrightarrow> word_starts b (s @ w) = word_starts b s"
  by (induction s arbitrary: b) (auto simp: word_starts_ws)

lemma word_starts_trim: "word_starts True (trim s) = word_starts True s"
proof -
  let ?u = "dropWhile js_ws s"
  have "?u = trim_end ?u @ rev (takeWhile js_ws (rev ?u))"
    unfolding trim_end_def by (metis rev_append rev_rev_ident takeWhile_dropWhile_id)
  then have "word_starts True ?u = word_starts True (trim_end ?u)"
    by (metis set_rev set_takeWhileD word_starts_append_ws)
  then show ?thesis by (simp add: trim_def trim_start_def word_starts_dropWhile)
qed

text \<open>Splitting at white space: a string that ends in a word has as many parts as words.\<close>

lemma split_ws_nonempty: "split_ws s \<noteq> []"
  by (induction s rule: split_ws.induct) (auto split: list.splits)

lemma length_split_ws:
  "s = [] \<or> \<not> js_ws (last s) \<Longrightarrow>
    length (split_ws s) = (if s = [] \<or> js_ws (hd s) then 1 else 0) + word_starts True s"
proof (induction s rule: split_ws.induct)
  case 1
  then show ?case by simp
next
  case (2 c s)
  show ?case
  proof (cases "js_ws c")
    case True
    let ?t = "dropWhile js_ws s"
    have s: "s \<noteq> []" using 2(3) True by auto
    have t: "?t \<noteq> []"
    proof
      assume "?t = []"
      then have "js_ws (last s)" using s last_in_set by (auto simp: dropWhile_eq_Nil_conv)
      with 2(3) s show False by simp
    qed
    have "last ?t = last s" using t by (metis dropWhile_eq_Nil_conv last_appendR takeWhile_dropWhile_id)
    moreover have "\<not> js_ws (hd ?t)" using t by (rule hd_dropWhile)
    ultimately have "length (split_ws ?t) = word_starts True ?t" using 2 True s t by simp
    with True show ?thesis by (simp add: word_starts_dropWhile)
  next
    case False
    have step: "length (split_ws (c # s)) = length (split_ws s)"
      using False split_ws_nonempty [of s] by (auto split: list.splits)
    have "s = [] \<or> \<not> js_ws (last s)" using 2(3) by auto
    then have IH: "length (split_ws s) = (if s = [] \<or> js_ws (hd s) then 1 else 0) + word_starts True s"
      using 2(2) False by simp
    show ?thesis
    proof (cases s)
      case (Cons d u)
      with IH step False show ?thesis by auto
    qed (use IH step False in simp)
  qed
qed

section \<open>Properties\<close>

text \<open>C13: Someone who does not own a document can neither change it nor learn that it exists: any
  sequence of calls to the document and section use-cases on documents that are missing or belong to
  others leaves the tables and the emitted events as they are, and each call answers the same 404
  that a document that does not exist gets.\<close>

theorem foreign_document_untouched:
  assumes "\<forall>(f, i) \<in> set calls. f \<in> document_ops \<and> document_owner s i \<noteq> Some u"
  shows "fold (\<lambda>(f, i) s. snd (f u i s)) calls s = s \<and>
    (\<forall>(f, i) \<in> set calls. \<forall>s'. document_owner s' i = None \<longrightarrow> fst (f u i s) = fst (f u i s'))"
proof
  show "fold (\<lambda>(f, i) s. snd (f u i s)) calls s = s" by (rule docs.intruder_run [OF assms])
  show "\<forall>(f, i) \<in> set calls. \<forall>s'. document_owner s' i = None \<longrightarrow> fst (f u i s) = fst (f u i s')"
    using assms docs.hides_existence by blast
qed

definition sample_docs :: docs_state where
  "sample_docs = snd (create_section id (js ''s'') (js ''u'') (js ''d'') (js ''t'') (js ''a b'') None 2
     (snd (create_document (js ''d'') (js ''u'') (js ''t'') (js ''k'') None None 1
       \<lparr>ds_documents = [], ds_sections = [], ds_emitted = []\<rparr>)))"

theorem foreign_document_untouched_witness:
  "snd (answer_only (delete_document (js ''eve'') (js ''d'')) sample_docs) = sample_docs"
proof -
  have op: "(\<lambda>u i. answer_only (delete_document u i)) \<in> document_ops" by (simp add: document_ops_def)
  have "document_owner sample_docs (js ''d'') \<noteq> Some (js ''eve'')"
    by (simp add: document_owner_def sample_docs_def create_document_def create_section_def
        create_section_row_def get_document_def find_document_def emit_doc_def Let_def)
  with op have "\<forall>(f, i) \<in> set [(\<lambda>u i. answer_only (delete_document u i), js ''d'')].
      f \<in> document_ops \<and> document_owner sample_docs i \<noteq> Some (js ''eve'')" by simp
  from foreign_document_untouched [OF this] show ?thesis by simp
qed

text \<open>C14: Reordering the sections of one's document succeeds exactly when the given ids are a
  permutation of its sections' ids, and is refused without a change otherwise. Afterwards the listing
  has the sections in the order of the given ids, numbered from 0, and nothing but \<open>order\<close> and
  \<open>updatedAt\<close> of these sections differs in the table.\<close>

theorem reorder_sections_permutes:
  assumes "distinct (map sn_id (ds_sections s))" and "document_owner s doc = Some user"
    and "reorder_sections id user doc ids now s = (r, s')"
  shows "(if mset ids = mset (map sn_id (find_sections_by_document doc (ds_sections s)))
     then \<exists>out. r = Inr out \<and> out = find_sections_by_document doc (ds_sections s') \<and>
        map sn_id out = ids \<and> map sn_order out = map int [0..<length ids]
     else r = Inl (BadRequest reorder_message) \<and> s' = s) \<and>
    map (\<lambda>n. n\<lparr>sn_order := 0, sn_updatedAt := 0\<rparr>) (ds_sections s') =
      map (\<lambda>n. n\<lparr>sn_order := 0, sn_updatedAt := 0\<rparr>) (ds_sections s) \<and>
    filter (\<lambda>n. sn_documentId n \<noteq> doc) (ds_sections s') = filter (\<lambda>n. sn_documentId n \<noteq> doc) (ds_sections s)"
proof -
  let ?e = "map sn_id (find_sections_by_document doc (ds_sections s))"
  let ?t = "reorder_from 0 doc now ids (ds_sections s)"
  have frame: "map (\<lambda>n. n\<lparr>sn_order := 0, sn_updatedAt := 0\<rparr>) (map (reordered 0 doc now ids) t) =
      map (\<lambda>n. n\<lparr>sn_order := 0, sn_updatedAt := 0\<rparr>) t" for t
    by (simp add: reordered_def)
  have others: "filter (\<lambda>n. sn_documentId n \<noteq> doc) (map (reordered 0 doc now ids) t) =
      filter (\<lambda>n. sn_documentId n \<noteq> doc) t" for t
    by (induction t) (auto simp: reordered_def)
  show ?thesis
  proof (cases "mset ids = mset ?e")
    case False
    then have "r = Inl (BadRequest reorder_message)" "s' = s"
      using assms(3) reorder_sections_run [OF assms(1,2), of id ids now] by simp_all
    with False show ?thesis by simp
  next
    case True
    have ids: "distinct ids" "set ids = set ?e"
      using True distinct_section_ids [OF assms(1), of doc]
      by (metis mset_eq_imp_distinct_iff) (metis True mset_eq_setD)
    note t = reorder_from_map [OF ids(1), of 0 doc now "ds_sections s"]
    have run: "r = Inr (find_sections_by_document doc ?t)" "s' = s\<lparr>ds_sections := ?t\<rparr>"
      using assms(3) reorder_sections_run [OF assms(1,2), of id ids now] True by simp_all
    have "map sn_id (find_sections_by_document doc ?t) = ids \<and>
        map sn_order (find_sections_by_document doc ?t) = map int [0..<length ids]"
      unfolding t by (rule reordered_listing [OF ids(1) True])
    with True run show ?thesis using frame others by (simp add: t)
  qed
qed

theorem reorder_sections_permutes_witness:
  "fst (reorder_sections id (js ''u'') (js ''d'') [js ''s'', js ''s''] 9 sample_docs) =
     Inl (BadRequest reorder_message)"
proof -
  let ?run = "reorder_sections id (js ''u'') (js ''d'') [js ''s'', js ''s''] 9 sample_docs"
  have run: "?run = (fst ?run, snd ?run)" by simp
  have rows: "map sn_id (ds_sections sample_docs) = [js ''s'']"
    "document_owner sample_docs (js ''d'') = Some (js ''u'')"
    by (simp_all add: document_owner_def sample_docs_def create_document_def create_section_def
        create_section_row_def get_document_def find_document_def emit_doc_def Let_def new_section_def)
  have "size (mset (find_sections_by_document (js ''d'') (ds_sections sample_docs))) \<le>
      length (map sn_id (ds_sections sample_docs))"
    unfolding sections_by_document_mset mset_filter length_map
    by (metis size_filter_mset_lesseq size_mset)
  then have "length (find_sections_by_document (js ''d'') (ds_sections sample_docs)) \<le> 1"
    unfolding rows by simp
  then have "mset [js ''s'', js ''s''] \<noteq>
      mset (map sn_id (find_sections_by_document (js ''d'') (ds_sections sample_docs)))"
    by (auto dest: arg_cong [of _ _ size])
  then show ?thesis
    using reorder_sections_permutes [OF _ rows(2) run] rows(1) by simp
qed

text \<open>A new section of one's document goes to the end of the document: the listing afterwards is
  the listing before with the new section appended, with its words counted, and its creation is
  announced once.\<close>

theorem new_section_is_last:
  assumes "document_owner s doc = Some user"
    and "create_section id new_id user doc title content status now s = (r, s')"
  shows "\<exists>n. r = Inr n \<and> sn_title n = title \<and> sn_content n = content \<and>
    sn_wordCount n = word_count content \<and>
    find_sections_by_document doc (ds_sections s') = find_sections_by_document doc (ds_sections s) @ [n] \<and>
    ds_emitted s' = ds_emitted s @ [SectionCreated user doc new_id]"
proof -
  let ?order = "(case max_order doc (ds_sections s) of None \<Rightarrow> -1 | Some m \<Rightarrow> m) + 1"
  let ?n = "new_section new_id doc \<lparr>sd_title = title, sd_content = content, sd_order = ?order,
      sd_status = (case status of None \<Rightarrow> js ''draft'' | Some x \<Rightarrow> x), sd_wordCount = word_count content\<rparr> now"
  obtain d where d: "find_document doc (ds_documents s) = Some d" "dm_userId d = user"
    using assms(1) by (auto simp: document_owner_def)
  then have "create_section id new_id user doc title content status now s =
      (Inr ?n, emit_doc (SectionCreated user doc new_id) (s\<lparr>ds_sections := ds_sections s @ [?n]\<rparr>))"
    by (simp add: create_section_def get_document_def create_section_row_def Let_def new_section_def)
  with assms(2) have r: "r = Inr ?n"
    and s': "s' = emit_doc (SectionCreated user doc new_id) (s\<lparr>ds_sections := ds_sections s @ [?n]\<rparr>)" by auto
  have last: "sn_documentId ?n = doc" "sn_order ?n = ?order" by (simp_all add: new_section_def)
  have "find_sections_by_document doc (ds_sections s @ [?n]) =
      find_sections_by_document doc (ds_sections s) @ [?n]"
    unfolding find_sections_by_document_def filter_append
    using sort_key_append_max [of "filter (\<lambda>n. sn_documentId n = doc) (ds_sections s)" sn_order ?n sn_createdAt]
      max_order_less [of _ "ds_sections s" doc] last by simp
  with r s' show ?thesis by (simp add: emit_doc_def new_section_def)
qed

theorem new_section_is_last_witness:
  "\<exists>n. fst (create_section id (js ''s2'') (js ''u'') (js ''d'') [] [] None 9 sample_docs) = Inr n"
proof -
  let ?run = "create_section id (js ''s2'') (js ''u'') (js ''d'') [] [] None 9 sample_docs"
  have run: "?run = (fst ?run, snd ?run)" by simp
  have "document_owner sample_docs (js ''d'') = Some (js ''u'')"
    by (simp add: document_owner_def sample_docs_def create_document_def create_section_def
        create_section_row_def get_document_def find_document_def emit_doc_def Let_def)
  from new_section_is_last [OF this run] show ?thesis by blast
qed

text \<open>The word count of a section's content is the number of its maximal runs without white
  space: leading, trailing and repeated white space never counts.\<close>

theorem word_count_counts_words: "word_count content = word_starts True content"
proof (cases "trim content = []")
  case True
  then show ?thesis
    using word_starts_trim [of content] by (simp add: word_count_def)
next
  case False
  with trim_ends [OF False] length_split_ws [of "trim content"] word_starts_trim [of content]
  show ?thesis by (simp add: word_count_def)
qed

end
