(* ===== verification/AiQuota.thy ===== *)
theory AiQuota
  imports AppErrors
begin

text \<open>
  The daily AI usage caps (\<open>domain/ai/ai-quota.port.ts\<close>,
  \<open>infrastructure/ai/redis-ai-quota.ts\<close>). Redis is a map from keys to a counter with its expiry
  (unix seconds); an expired key reads as absent. The Lua script runs atomically on it. SHA-256 is
  the parameter \<open>sha\<close>; a UTC day is its number since 1970, of which the key holds the date text.
\<close>

section \<open>Days and keys\<close>

definition utc_day :: "time \<Rightarrow> int" where
  "utc_day at = at div 86400000"

definition seconds_until_utc_midnight :: "time \<Rightarrow> int" where
  "seconds_until_utc_midnight at =
     (let next = (utc_day at + 1) * 86400000 in max 1 (- ((- (next - at)) div 1000)))"

datatype quota_key = UserKey js_string int | GlobalKey int

definition user_quota_key :: "(js_string \<Rightarrow> js_string) \<Rightarrow> ident \<Rightarrow> int \<Rightarrow> quota_key" where
  "user_quota_key sha user day = UserKey (sha user) day"

definition global_quota_key :: "int \<Rightarrow> quota_key" where
  "global_quota_key day = GlobalKey day"

definition expiry_grace_seconds :: int where
  "expiry_grace_seconds = 3600"

section \<open>The script\<close>

type_synonym counters = "quota_key \<rightharpoonup> int \<times> int"

datatype quota_mode = Reserve | Check

definition live_count :: "int \<Rightarrow> counters \<Rightarrow> quota_key \<Rightarrow> int" where
  "live_count now_s st k = (case st k of None \<Rightarrow> 0 | Some (n, expiry) \<Rightarrow> if expiry \<le> now_s then 0 else n)"

definition quota_script ::
    "int \<Rightarrow> quota_key \<Rightarrow> quota_key \<Rightarrow> int \<Rightarrow> int \<Rightarrow> int \<Rightarrow> quota_mode \<Rightarrow> counters \<Rightarrow> bool \<times> counters" where
  "quota_script now_s user_key global_key user_limit global_limit expire_at mode st =
     (let user_count = live_count now_s st user_key; global_count = live_count now_s st global_key in
      if user_limit \<le> user_count \<or> global_limit \<le> global_count then (False, st)
      else (True,
        case mode of
          Reserve \<Rightarrow> st(user_key \<mapsto> (user_count + 1, expire_at), global_key \<mapsto> (global_count + 1, expire_at))
        | Check \<Rightarrow> st))"

section \<open>\<open>RedisAiQuota\<close>\<close>

record quota_config =
  qc_sha :: "js_string \<Rightarrow> js_string"
  qc_userLimit :: int
  qc_globalLimit :: int

definition default_quota_config :: "(js_string \<Rightarrow> js_string) \<Rightarrow> quota_config" where
  "default_quota_config sha = \<lparr>qc_sha = sha, qc_userLimit = 10, qc_globalLimit = 40\<rparr>"

text \<open>\<open>run\<close>; \<open>reachable\<close> tells whether Redis answers.\<close>

definition quota_run ::
    "quota_config \<Rightarrow> bool \<Rightarrow> quota_mode \<Rightarrow> ident \<Rightarrow> time \<Rightarrow> counters \<Rightarrow> (app_error + unit) \<times> counters" where
  "quota_run c reachable mode user now st =
     (let day = utc_day now;
          retry_after = seconds_until_utc_midnight now;
          expire_at = now div 1000 + retry_after + expiry_grace_seconds
      in if \<not> reachable then (Inl AiQuotaUnavailable, st)
         else
           (case quota_script (now div 1000) (user_quota_key (qc_sha c) user day) (global_quota_key day)
                   (qc_userLimit c) (qc_globalLimit c) expire_at mode st of
              (allowed, st') \<Rightarrow>
                (if allowed then Inr () else Inl (AiQuotaExceeded retry_after), st')))"

definition quota_reserve ::
    "quota_config \<Rightarrow> bool \<Rightarrow> ident \<Rightarrow> time \<Rightarrow> counters \<Rightarrow> (app_error + unit) \<times> counters" where
  "quota_reserve c reachable = quota_run c reachable Reserve"

definition quota_check ::
    "quota_config \<Rightarrow> bool \<Rightarrow> ident \<Rightarrow> time \<Rightarrow> counters \<Rightarrow> (app_error + unit) \<times> counters" where
  "quota_check c reachable = quota_run c reachable Check"

section \<open>Lemmas\<close>

lemma utc_day_bounds: "utc_day at * 86400000 \<le> at" "at < (utc_day at + 1) * 86400000"
proof -
  have "at = utc_day at * 86400000 + at mod 86400000"
    by (simp add: utc_day_def)
  moreover have "0 \<le> at mod 86400000" "at mod 86400000 < 86400000" by simp_all
  moreover have "(utc_day at + 1) * 86400000 = utc_day at * 86400000 + 86400000" by simp
  ultimately show "utc_day at * 86400000 \<le> at" "at < (utc_day at + 1) * 86400000" by linarith+
qed

text \<open>The floor of the time and the ceiling of the rest of the day add up to midnight.\<close>

lemma expiry_is_midnight:
  "at div 1000 + seconds_until_utc_midnight at = (utc_day at + 1) * 86400"
proof -
  let ?m = "(utc_day at + 1) * 86400"
  have next_eq: "(utc_day at + 1) * 86400000 = ?m * 1000" by simp
  have ceil: "- ((- (?m * 1000 - at)) div 1000) = ?m - at div 1000"
  proof -
    have "- (?m * 1000 - at) = at + (- ?m) * 1000" by simp
    then have "(- (?m * 1000 - at)) div 1000 = at div 1000 - ?m" by simp
    then show ?thesis by simp
  qed
  have "at < ?m * 1000" using utc_day_bounds(2) [of at] by simp
  then have "at div 1000 < ?m" by (simp add: div_less_iff_less_mult)
  then show ?thesis unfolding seconds_until_utc_midnight_def Let_def next_eq ceil by simp
qed

text \<open>
  The counters while their day lasts: a key that is present expires an hour after the end of its day.
\<close>

definition key_day :: "quota_key \<Rightarrow> int" where
  "key_day k = (case k of UserKey _ d \<Rightarrow> d | GlobalKey d \<Rightarrow> d)"

definition counters_ok :: "counters \<Rightarrow> bool" where
  "counters_ok st \<longleftrightarrow> (\<forall>k n e. st k = Some (n, e) \<longrightarrow> e = (key_day k + 1) * 86400 + expiry_grace_seconds)"

definition day_count :: "counters \<Rightarrow> quota_key \<Rightarrow> int" where
  "day_count st k = (case st k of None \<Rightarrow> 0 | Some (n, _) \<Rightarrow> n)"

lemma live_day_count:
  assumes "counters_ok st" and "key_day k = utc_day now"
  shows "live_count (now div 1000) st k = day_count st k"
proof (cases "st k")
  case None
  then show ?thesis by (simp add: live_count_def day_count_def)
next
  case (Some p)
  obtain n e where p: "p = (n, e)" by (cases p)
  have "e = (key_day k + 1) * 86400 + expiry_grace_seconds"
    using assms(1) [unfolded counters_ok_def, rule_format, of k n e] Some p by simp
  moreover have "now div 1000 < (utc_day now + 1) * 86400"
    using utc_day_bounds(2) [of now] by (simp add: div_less_iff_less_mult)
  ultimately have "\<not> e \<le> now div 1000"
    by (simp add: assms(2) expiry_grace_seconds_def)
  then show ?thesis using Some p by (simp add: live_count_def day_count_def)
qed

lemma quota_reserve_effect:
  fixes u :: ident and now :: time
  defines "expiry \<equiv> (utc_day now + 1) * 86400 + expiry_grace_seconds"
  assumes "counters_ok st" and ku: "ku = user_quota_key (qc_sha c) u (utc_day now)"
    and kg: "kg = global_quota_key (utc_day now)"
  shows "quota_reserve c True u now st =
    (if day_count st ku < qc_userLimit c \<and> day_count st kg < qc_globalLimit c
     then (Inr (), st(ku \<mapsto> (day_count st ku + 1, expiry), kg \<mapsto> (day_count st kg + 1, expiry)))
     else (Inl (AiQuotaExceeded (seconds_until_utc_midnight now)), st))"
proof -
  have keys: "key_day ku = utc_day now" "key_day kg = utc_day now"
    by (simp_all add: ku kg key_day_def user_quota_key_def global_quota_key_def)
  note live = live_day_count [OF assms(2) keys(1)] live_day_count [OF assms(2) keys(2)]
  show ?thesis
    unfolding quota_reserve_def quota_run_def quota_script_def Let_def expiry_is_midnight
    using live by (auto simp: ku kg expiry_def)
qed

lemmas reserve_effect = quota_reserve_effect [OF _ refl refl]

lemma counters_ok_reserve: "counters_ok st \<Longrightarrow> counters_ok (snd (quota_reserve c True u now st))"
  by (auto simp: reserve_effect counters_ok_def key_day_def user_quota_key_def global_quota_key_def)

text \<open>An early check answers what a reservation at the same moment would answer.\<close>

lemma check_predicts_reserve: "fst (quota_check c up u now st) = fst (quota_reserve c up u now st)"
  by (auto simp: quota_check_def quota_reserve_def quota_run_def quota_script_def Let_def)

section \<open>Properties\<close>

text \<open>A day of provider attempts: whether each reservation was granted.\<close>

fun reservations :: "quota_config \<Rightarrow> (ident \<times> time) list \<Rightarrow> counters \<Rightarrow> (ident \<times> time \<times> bool) list" where
  "reservations c [] st = []"
| "reservations c ((u, now) # rs) st =
     (case quota_reserve c True u now st of
        (r, st') \<Rightarrow> (u, now, r = Inr ()) # reservations c rs st')"

definition granted :: "((ident \<times> time \<times> bool) \<Rightarrow> bool) \<Rightarrow> (ident \<times> time \<times> bool) list \<Rightarrow> int" where
  "granted p xs = int (length (filter (\<lambda>x. p x \<and> snd (snd x)) xs))"

lemma granted_Cons: "granted p (x # xs) = (if p x \<and> snd (snd x) then 1 else 0) + granted p xs"
  by (simp add: granted_def)

text \<open>A counter that every matching reservation raises and that never passes its limit bounds them.\<close>

lemma day_count_upd [simp]: "day_count (st(k \<mapsto> (n, e))) k' = (if k' = k then n else day_count st k')"
  by (simp add: day_count_def)

lemma granted_bound:
  assumes step: "\<And>v now st. counters_ok st \<Longrightarrow> day_count st k \<le> M \<Longrightarrow>
      day_count (snd (quota_reserve c True v now st)) k \<le> M \<and>
      day_count st k + (if q v now \<and> fst (quota_reserve c True v now st) = Inr () then 1 else 0)
        \<le> day_count (snd (quota_reserve c True v now st)) k"
  shows "counters_ok st \<Longrightarrow> day_count st k \<le> M \<Longrightarrow>
    granted (\<lambda>x. q (fst x) (fst (snd x))) (reservations c rs st) \<le> M - day_count st k"
proof (induction rs arbitrary: st)
  case Nil
  then show ?case by (simp add: granted_def)
next
  case (Cons r rs)
  obtain v now where r: "r = (v, now)" by (cases r)
  let ?s = "quota_reserve c True v now st"
  note s = step [OF Cons(2,3), of v now]
  have "granted (\<lambda>x. q (fst x) (fst (snd x))) (reservations c rs (snd ?s)) \<le> M - day_count (snd ?s) k"
    using Cons(1) [OF counters_ok_reserve [OF Cons(2)]] s by blast
  with s show ?case by (simp add: r granted_Cons case_prod_beta split: if_splits)
qed

lemma raised_within:
  "x' = (if e then x + 1 else x) \<Longrightarrow> y < l \<Longrightarrow> (e \<Longrightarrow> y = x) \<Longrightarrow> (q \<longrightarrow> e) \<Longrightarrow> x \<le> max 0 l \<Longrightarrow>
    x' \<le> max 0 l \<and> x + (if q then 1 else 0) \<le> (x' :: int)"
  by (auto split: if_splits)

lemma reserve_raises_user:
  assumes "counters_ok st" and "day_count st (user_quota_key (qc_sha c) u d) \<le> max 0 (qc_userLimit c)"
  shows "day_count (snd (quota_reserve c True v now st)) (user_quota_key (qc_sha c) u d) \<le> max 0 (qc_userLimit c) \<and>
    day_count st (user_quota_key (qc_sha c) u d) +
      (if (v = u \<and> utc_day now = d) \<and> fst (quota_reserve c True v now st) = Inr () then 1 else 0)
      \<le> day_count (snd (quota_reserve c True v now st)) (user_quota_key (qc_sha c) u d)"
proof (cases "fst (quota_reserve c True v now st) = Inr ()")
  case True
  then have y: "day_count st (user_quota_key (qc_sha c) v (utc_day now)) < qc_userLimit c"
    by (simp add: reserve_effect [OF assms(1)] split: if_splits)
  from True have x: "day_count (snd (quota_reserve c True v now st)) (user_quota_key (qc_sha c) u d) =
      (if user_quota_key (qc_sha c) u d = user_quota_key (qc_sha c) v (utc_day now) then day_count st (user_quota_key (qc_sha c) u d) + 1 else day_count st (user_quota_key (qc_sha c) u d))"
    by (simp add: reserve_effect [OF assms(1)] user_quota_key_def global_quota_key_def split: if_splits)
  show ?thesis by (rule raised_within [OF x y _ _ assms(2)]) (simp_all add: user_quota_key_def)
next
  case False
  then have "snd (quota_reserve c True v now st) = st"
    by (auto simp: reserve_effect [OF assms(1)] split: if_splits)
  with False assms(2) show ?thesis by simp
qed

lemma reserve_raises_global:
  assumes "counters_ok st" and "day_count st (global_quota_key d) \<le> max 0 (qc_globalLimit c)"
  shows "day_count (snd (quota_reserve c True v now st)) (global_quota_key d) \<le> max 0 (qc_globalLimit c) \<and>
    day_count st (global_quota_key d) +
      (if utc_day now = d \<and> fst (quota_reserve c True v now st) = Inr () then 1 else 0)
      \<le> day_count (snd (quota_reserve c True v now st)) (global_quota_key d)"
proof (cases "fst (quota_reserve c True v now st) = Inr ()")
  case True
  then have y: "day_count st (global_quota_key (utc_day now)) < qc_globalLimit c"
    by (simp add: reserve_effect [OF assms(1)] split: if_splits)
  from True have x: "day_count (snd (quota_reserve c True v now st)) (global_quota_key d) =
      (if global_quota_key d = global_quota_key (utc_day now) then day_count st (global_quota_key d) + 1 else day_count st (global_quota_key d))"
    by (simp add: reserve_effect [OF assms(1)] user_quota_key_def global_quota_key_def split: if_splits)
  show ?thesis by (rule raised_within [OF x y _ _ assms(2)]) (simp_all add: user_quota_key_def)
next
  case False
  then have "snd (quota_reserve c True v now st) = st"
    by (auto simp: reserve_effect [OF assms(1)] split: if_splits)
  with False assms(2) show ?thesis by simp
qed

text \<open>C36: The caps hold: however many users ask, in whatever order and at whatever times, on any UTC
  day at most \<open>userLimit\<close> reservations of one user are granted and at most \<open>globalLimit\<close>
  reservations in all. In particular no counter expires while its day lasts.\<close>

theorem daily_caps_hold:
  "granted (\<lambda>x. fst x = u \<and> utc_day (fst (snd x)) = d) (reservations c rs Map.empty) \<le> max 0 (qc_userLimit c) \<and>
   granted (\<lambda>x. utc_day (fst (snd x)) = d) (reservations c rs Map.empty) \<le> max 0 (qc_globalLimit c)"
proof -
  have ok: "counters_ok Map.empty" and zero: "day_count Map.empty k = 0" for k
    by (simp_all add: counters_ok_def day_count_def)
  show ?thesis
    using granted_bound [where q = "\<lambda>v now. v = u \<and> utc_day now = d" and st = Map.empty and rs = rs,
        OF reserve_raises_user ok]
      granted_bound [where q = "\<lambda>v now. utc_day now = d" and st = Map.empty and rs = rs,
        OF reserve_raises_global ok]
    by (simp add: zero)
qed

end
