(* ===== verification/PlanningSubmit.thy ===== *)
theory PlanningSubmit
  imports PlanningRun Documents AiQuota
begin

text \<open>
  Submitting a planning job (\<open>application/context/submit-planning-job.use-case.ts\<close>): the
  checks, the new \<open>planning_jobs\<close> document and its dispatch to the queue.
\<close>

section \<open>Input and dependencies\<close>

record submit_input =
  si_userId :: ident
  si_prompt :: js_string
  si_connectors :: "js_string list option"
  si_documentId :: "ident option"
  si_sectionId :: "ident option"

text \<open>
  \<open>su_available\<close> is \<open>llmGateway.isAvailable()\<close>; \<open>su_redis\<close> tells whether Redis answers. The
  queue takes the job or throws (\<open>su_enqueue\<close>); \<open>su_queueing\<close> is what the workers do to the jobs
  in the meantime. \<open>su_create_error\<close> and \<open>su_update_error\<close> are failing writes.
\<close>

record submit_deps =
  su_available :: bool
  su_quota :: quota_config
  su_redis :: bool
  su_create_error :: "app_error option"
  su_enqueue :: "app_error + unit"
  su_queueing :: "job_store \<Rightarrow> job_store"
  su_update_error :: "app_error option"

record submit_state =
  ss_docs :: docs_state
  ss_connections :: "connection list"
  ss_counters :: counters
  ss_jobs :: job_store
  ss_queue :: "(ident \<times> ident) list"
    \<comment> \<open>job id and user id of each queued message\<close>

definition invalid_connectors_message :: js_string where
  "invalid_connectors_message = js ''Connectors must be among your active connections''"

definition enqueue_failed_message :: js_string where
  "enqueue_failed_message = js ''Failed to enqueue job''"

definition submit_failed :: http_error where
  "submit_failed = ServiceUnavailable (js ''Failed to submit planning job for processing'')"

section \<open>The checks\<close>

text \<open>A string is truthy when it is not empty.\<close>

fun truthy :: "js_string option \<Rightarrow> bool" where
  "truthy None = False"
| "truthy (Some s) = (s \<noteq> [])"

definition bound_document :: "submit_input \<Rightarrow> docs_state \<Rightarrow> http_error + ident option" where
  "bound_document inp s =
     (case si_sectionId inp of
        None \<Rightarrow> Inr (si_documentId inp)
      | Some i \<Rightarrow>
          (if \<not> truthy (Some i) then Inr (si_documentId inp)
           else
             (case find_section i (ds_sections s) of
                None \<Rightarrow> Inl (section_not_found i)
              | Some n \<Rightarrow>
                  (if truthy (si_documentId inp) \<and> si_documentId inp \<noteq> Some (sn_documentId n)
                   then Inl (section_not_found i)
                   else Inr (Some (sn_documentId n))))))"

definition resolve_and_validate_binding ::
    "submit_input \<Rightarrow> docs_state \<Rightarrow> http_error + ident option \<times> ident option" where
  "resolve_and_validate_binding inp s =
     (case bound_document inp s of
        Inl e \<Rightarrow> Inl e
      | Inr doc \<Rightarrow>
          (case (truthy doc, doc) of
             (True, Some i) \<Rightarrow>
               (case find_document i (ds_documents s) of
                  None \<Rightarrow> Inl (document_not_found i)
                | Some d \<Rightarrow>
                    (if dm_userId d \<noteq> si_userId inp then Inl (document_not_found i)
                     else Inr (doc, si_sectionId inp)))
           | _ \<Rightarrow> Inr (doc, si_sectionId inp)))"

definition assert_connectors_active ::
    "ident \<Rightarrow> js_string list \<Rightarrow> connection list \<Rightarrow> http_error + unit" where
  "assert_connectors_active user wanted t =
     (if wanted = [] then Inr ()
      else
        (let providers = map (\<lambda>r. provider_name (cc_provider r)) (find_active_by_user user t) in
         if list_all (\<lambda>w. w \<in> set providers) wanted then Inr ()
         else Inl (BadRequest invalid_connectors_message)))"

text \<open>With a real provider, a user over a cap hears it now.\<close>

definition check_quota :: "submit_deps \<Rightarrow> ident \<Rightarrow> time \<Rightarrow> counters \<Rightarrow> (thrown + unit) \<times> counters" where
  "check_quota d user now c =
     (if \<not> su_available d then (Inr (), c)
      else
        (let (r, c') = quota_check (su_quota d) (su_redis d) user now c
         in (map_sum (\<lambda>e. case quota_http_exception e of Some h \<Rightarrow> ThrownHttp h | None \<Rightarrow> ThrownApp e) id r, c')))"

definition submit_checks ::
    "submit_deps \<Rightarrow> submit_input \<Rightarrow> time \<Rightarrow> submit_state \<Rightarrow>
      (thrown + create_job_data) \<times> submit_state" where
  "submit_checks d inp now s =
     (let wanted = (case si_connectors inp of None \<Rightarrow> [] | Some ps \<Rightarrow> ps) in
      case resolve_and_validate_binding inp (ss_docs s) of
        Inl e \<Rightarrow> (Inl (ThrownHttp e), s)
      | Inr (doc, section) \<Rightarrow>
          (case assert_connectors_active (si_userId inp) wanted (ss_connections s) of
             Inl e \<Rightarrow> (Inl (ThrownHttp e), s)
           | Inr _ \<Rightarrow>
               (let (r, c) = check_quota d (si_userId inp) now (ss_counters s) in
                (map_sum id (\<lambda>_. \<lparr>cj_userId = si_userId inp, cj_prompt = si_prompt inp,
                   cj_connectors = wanted, cj_documentId = doc, cj_sectionId = section\<rparr>) r,
                 s\<lparr>ss_counters := c\<rparr>))))"

section \<open>The dispatch\<close>

definition enqueue_failed_patch :: "time \<Rightarrow> status_patch" where
  "enqueue_failed_patch now = (patch_status Failed)
     \<lparr>sp_errorCode := Some (Some (js ''ENQUEUE_FAILED'')),
      sp_errorMessage := Some (Some enqueue_failed_message), sp_finishedAt := Some (Some now)\<rparr>"

text \<open>The \<open>try\<close>/\<open>catch\<close> around the enqueue; a second failing write is only logged.\<close>

definition dispatch ::
    "submit_deps \<Rightarrow> planning_job \<Rightarrow> time \<Rightarrow> submit_state \<Rightarrow> (thrown + planning_job) \<times> submit_state" where
  "dispatch d created now s =
     (let jobs = su_queueing d (ss_jobs s) in
      case su_enqueue d of
        Inr _ \<Rightarrow> (Inr created,
          s\<lparr>ss_jobs := jobs, ss_queue := ss_queue s @ [(pj_id created, pj_userId created)]\<rparr>)
      | Inl _ \<Rightarrow>
          (Inl (ThrownHttp submit_failed),
           s\<lparr>ss_jobs := (case su_update_error d of
                 Some _ \<Rightarrow> jobs
               | None \<Rightarrow> snd (update_status (pj_id created) (enqueue_failed_patch now) jobs))\<rparr>))"

definition submit_planning_job ::
    "submit_deps \<Rightarrow> ident \<Rightarrow> submit_input \<Rightarrow> time \<Rightarrow> submit_state \<Rightarrow>
      (thrown + planning_job) \<times> submit_state" where
  "submit_planning_job d new_id inp now s =
     (case submit_checks d inp now s of
        (Inl e, s1) \<Rightarrow> (Inl e, s1)
      | (Inr data, s1) \<Rightarrow>
          (case su_create_error d of
             Some e \<Rightarrow> (Inl (ThrownApp e), s1)
           | None \<Rightarrow>
               (let (created, jobs) = create_job new_id data now (ss_jobs s1)
                in dispatch d created now (s1\<lparr>ss_jobs := jobs\<rparr>))))"

section \<open>Lemmas\<close>

lemma quota_check_counters [simp]: "snd (quota_check c up u now st) = st"
  by (auto simp: quota_check_def quota_run_def quota_script_def Let_def)

lemma check_quota_counters: "snd (check_quota d u now c) = c"
  by (simp add: check_quota_def case_prod_beta Let_def)

lemma submit_checks_state [simp]: "snd (submit_checks d inp now s) = s"
  using check_quota_counters [of d "si_userId inp" now "ss_counters s"]
  by (auto simp: submit_checks_def Let_def case_prod_beta split: sum.splits)

lemma submit_checks_keeps: "submit_checks d inp now s = (r, s1) \<Longrightarrow> s1 = s"
  using submit_checks_state [of d inp now s] by simp

text \<open>What the binding check lets through.\<close>

definition binding_ok :: "ident \<Rightarrow> ident option \<Rightarrow> ident option \<Rightarrow> docs_state \<Rightarrow> bool" where
  "binding_ok user doc section s \<longleftrightarrow>
     (truthy doc \<longrightarrow> document_owner s (the doc) = Some user) \<and>
     (truthy section \<longrightarrow>
        (case find_section (the section) (ds_sections s) of
           None \<Rightarrow> False | Some n \<Rightarrow> doc = Some (sn_documentId n)))"

lemma binding_validated:
  assumes "resolve_and_validate_binding inp s = Inr (doc, section)"
  shows "binding_ok (si_userId inp) doc section s" and "section = si_sectionId inp"
proof -
  from assms obtain b where b: "bound_document inp s = Inr b"
    by (auto simp: resolve_and_validate_binding_def split: sum.splits)
  have doc: "b = doc" "section = si_sectionId inp" "truthy doc \<longrightarrow> document_owner s (the doc) = Some (si_userId inp)"
    using assms b
    by (auto simp: resolve_and_validate_binding_def document_owner_def split: sum.splits option.splits
        bool.splits if_splits)
  then have "truthy section \<longrightarrow> (case find_section (the section) (ds_sections s) of
      None \<Rightarrow> False | Some n \<Rightarrow> doc = Some (sn_documentId n))"
    using b by (auto simp: bound_document_def split: option.splits if_splits)
  with doc show "binding_ok (si_userId inp) doc section s" "section = si_sectionId inp"
    by (auto simp: binding_ok_def)
qed

lemma connectors_asserted:
  "assert_connectors_active u wanted t = Inr v \<Longrightarrow> w \<in> set wanted \<Longrightarrow>
    \<exists>r \<in> set t. cc_userId r = u \<and> cc_status r = Active \<and> provider_name (cc_provider r) = w"
  by (auto simp: assert_connectors_active_def find_active_by_user_def list_all_iff Let_def
      split: if_splits)

lemma submit_checksE:
  assumes "submit_checks d inp now s = (Inr data, s1)"
  shows "s1 = s" and "cj_userId data = si_userId inp" and "cj_prompt data = si_prompt inp"
    and "binding_ok (si_userId inp) (cj_documentId data) (cj_sectionId data) (ss_docs s)"
    and "\<forall>w \<in> set (cj_connectors data). \<exists>r \<in> set (ss_connections s).
        cc_userId r = si_userId inp \<and> cc_status r = Active \<and> provider_name (cc_provider r) = w"
    and "su_available d \<longrightarrow>
        fst (quota_reserve (su_quota d) (su_redis d) (si_userId inp) now (ss_counters s)) = Inr ()"
proof -
  show "s1 = s" using submit_checks_state [of d inp now s] assms by simp
  let ?wanted = "case si_connectors inp of None \<Rightarrow> [] | Some ps \<Rightarrow> ps"
  from assms obtain doc sec v
    where bind: "resolve_and_validate_binding inp (ss_docs s) = Inr (doc, sec)"
    and conns: "assert_connectors_active (si_userId inp) ?wanted (ss_connections s) = Inr v"
    and quota: "fst (check_quota d (si_userId inp) now (ss_counters s)) = Inr ()"
    and data: "data = \<lparr>cj_userId = si_userId inp, cj_prompt = si_prompt inp,
      cj_connectors = ?wanted, cj_documentId = doc, cj_sectionId = sec\<rparr>"
    by (auto simp: submit_checks_def Let_def case_prod_beta map_sum_eq_iff split: sum.splits)
  show "cj_userId data = si_userId inp" "cj_prompt data = si_prompt inp" by (simp_all add: data)
  show "binding_ok (si_userId inp) (cj_documentId data) (cj_sectionId data) (ss_docs s)"
    using binding_validated(1) [OF bind] by (simp add: data)
  show "\<forall>w \<in> set (cj_connectors data). \<exists>r \<in> set (ss_connections s).
      cc_userId r = si_userId inp \<and> cc_status r = Active \<and> provider_name (cc_provider r) = w"
    using connectors_asserted [OF conns] by (simp add: data)
  show "su_available d \<longrightarrow>
      fst (quota_reserve (su_quota d) (su_redis d) (si_userId inp) now (ss_counters s)) = Inr ()"
    using quota unfolding check_predicts_reserve [symmetric]
    by (auto simp: check_quota_def Let_def case_prod_beta map_sum_eq_iff)
qed

lemma create_job_simp:
  "create_job i data now st = (to_domain i (new_job_doc data now), st(i \<mapsto> new_job_doc data now))"
  by (simp add: create_job_def Let_def)

lemma dispatch_Inr:
  "dispatch d created now s = (Inr j, s') \<longleftrightarrow>
     su_enqueue d = Inr () \<and> j = created \<and>
     s' = s\<lparr>ss_jobs := su_queueing d (ss_jobs s), ss_queue := ss_queue s @ [(pj_id created, pj_userId created)]\<rparr>"
  by (auto simp: dispatch_def Let_def split: sum.splits)

text \<open>A submission about a section of one's document, with one connector.\<close>

definition sample_submit :: "app_error + unit \<Rightarrow> submit_deps" where
  "sample_submit queue = \<lparr>su_available = True, su_quota = default_quota_config id, su_redis = True,
     su_create_error = None, su_enqueue = queue, su_queueing = id, su_update_error = None\<rparr>"

definition sample_input :: submit_input where
  "sample_input = \<lparr>si_userId = js ''u'', si_prompt = js ''plan'', si_connectors = Some [js ''notion''],
     si_documentId = None, si_sectionId = Some (js ''s'')\<rparr>"

definition sample_submit_state :: submit_state where
  "sample_submit_state = \<lparr>ss_docs = sample_docs, ss_connections = [sample_conn (js ''c'') Active],
     ss_counters = Map.empty, ss_jobs = Map.empty, ss_queue = []\<rparr>"

lemmas sample_submit_defs = sample_submit_def sample_input_def sample_submit_state_def

lemma sample_submit_sel [simp]:
  "su_create_error (sample_submit q) = None" "su_enqueue (sample_submit q) = q"
  "su_queueing (sample_submit q) = id" "su_update_error (sample_submit q) = None"
  by (simp_all add: sample_submit_def)

lemma sample_checks:
  "submit_checks (sample_submit q) sample_input 0 sample_submit_state =
     (Inr \<lparr>cj_userId = js ''u'', cj_prompt = js ''plan'', cj_connectors = [js ''notion''],
        cj_documentId = Some (js ''d''), cj_sectionId = Some (js ''s'')\<rparr>, sample_submit_state)"
  by (simp add: sample_submit_defs submit_checks_def resolve_and_validate_binding_def bound_document_def
      sample_docs_def create_document_def create_section_def create_section_row_def get_document_def
      find_document_def find_section_def new_section_def emit_doc_def max_order_def assert_connectors_active_def
      find_active_by_user_def sample_conn_def check_quota_def quota_check_def quota_run_def quota_script_def
      default_quota_config_def live_count_def user_quota_key_def global_quota_key_def Let_def)

section \<open>Properties\<close>

text \<open>C12: A job that is accepted is the caller's own and starts pending, and exactly its message is put
  on the queue. A document it names is the caller's; a section it names belongs to that document;
  each of its connectors is one of the caller's active connections; and, when a provider answers its
  prompts, the caller still had quota.\<close>

theorem accepted_job_is_well_bound:
  assumes "submit_planning_job d new_id inp now s = (Inr j, s')"
  shows "pj_id j = new_id \<and> pj_userId j = si_userId inp \<and> pj_prompt j = si_prompt inp \<and> pj_status j = Pending \<and>
    ss_queue s' = ss_queue s @ [(new_id, si_userId inp)] \<and>
    binding_ok (si_userId inp) (pj_documentId j) (pj_sectionId j) (ss_docs s) \<and>
    (\<forall>w \<in> set (pj_connectors j). \<exists>r \<in> set (ss_connections s).
       cc_userId r = si_userId inp \<and> cc_status r = Active \<and> provider_name (cc_provider r) = w) \<and>
    (su_available d \<longrightarrow>
       fst (quota_reserve (su_quota d) (su_redis d) (si_userId inp) now (ss_counters s)) = Inr ())"
proof -
  obtain data where data: "submit_checks d inp now s = (Inr data, s)"
    and sent: "dispatch d (to_domain new_id (new_job_doc data now)) now
      (s\<lparr>ss_jobs := (ss_jobs s)(new_id \<mapsto> new_job_doc data now)\<rparr>) = (Inr j, s')"
    using assms
    by (auto simp: submit_planning_job_def create_job_simp split: sum.splits prod.splits option.splits
        dest: submit_checks_keeps)
  note checked = submit_checksE [OF data]
  have "j = to_domain new_id (new_job_doc data now)"
    and "ss_queue s' = ss_queue s @ [(new_id, cj_userId data)]"
    using sent by (auto simp: dispatch_Inr new_job_doc_def)
  with checked show ?thesis by (simp add: to_domain_def new_job_doc_def)
qed

theorem accepted_job_is_well_bound_witness:
  "\<exists>j s'. submit_planning_job (sample_submit (Inr ())) (js ''j'') sample_input 0 sample_submit_state = (Inr j, s') \<and>
     pj_documentId j = Some (js ''d'') \<and> pj_status j = Pending \<and> ss_queue s' = [(js ''j'', js ''u'')]"
proof -
  obtain j s' where run:
    "submit_planning_job (sample_submit (Inr ())) (js ''j'') sample_input 0 sample_submit_state = (Inr j, s')"
    and doc: "pj_documentId j = Some (js ''d'')"
    by (simp add: submit_planning_job_def sample_checks create_job_simp dispatch_def to_domain_def new_job_doc_def)
  from accepted_job_is_well_bound [OF run] doc run show ?thesis
    by (simp add: sample_submit_state_def sample_input_def)
qed



end
