(* ===== verification/PlanningTypes.thy ===== *)
theory PlanningTypes
  imports PlanningSubmit PlanningResults
begin

text \<open>
  What a stored planning job looks like in each status: an open job has no outcome yet, a
  completed one its result, a failed one its code and message, a finished one the time; and that every
  use-case of the feature keeps all stored jobs so, whatever the others do between its calls.
\<close>

section \<open>Well-formed job documents\<close>

definition no_outcome :: "planning_job_doc \<Rightarrow> bool" where
  "no_outcome d \<longleftrightarrow> pd_result d = None \<and> pd_error_code d = None \<and> pd_error_message d = None \<and> pd_finished_at d = None"

definition job_doc_ok :: "planning_job_doc \<Rightarrow> bool" where
  "job_doc_ok d \<longleftrightarrow> chunks_ok d \<and>
     (case pd_status d of
        Pending \<Rightarrow> no_outcome d \<and> pd_started_at d = None \<and> pd_context_used d = None
      | Running \<Rightarrow> no_outcome d \<and> pd_started_at d \<noteq> None \<and> pd_context_used d = None
      | Gathering \<Rightarrow> no_outcome d \<and> pd_started_at d \<noteq> None \<and> pd_context_used d = None
      | Planning \<Rightarrow> no_outcome d \<and> pd_started_at d \<noteq> None \<and> pd_context_used d \<noteq> None
      | Completed \<Rightarrow> pd_result d \<noteq> None \<and> pd_finished_at d \<noteq> None
      | Failed \<Rightarrow> pd_error_code d \<noteq> None \<and> pd_error_message d \<noteq> None \<and> pd_finished_at d \<noteq> None)"

definition job_docs_ok :: "job_store \<Rightarrow> bool" where
  "job_docs_ok st \<longleftrightarrow> (\<forall>d \<in> ran st. job_doc_ok d)"

definition keeps_docs :: "(job_store \<Rightarrow> job_store) \<Rightarrow> bool" where
  "keeps_docs f \<longleftrightarrow> (\<forall>st. job_docs_ok st \<longrightarrow> job_docs_ok (f st))"

lemma keeps_docsD: "keeps_docs f \<Longrightarrow> job_docs_ok st \<Longrightarrow> job_docs_ok (f st)"
  by (simp add: keeps_docs_def)

lemma keeps_docs_id: "keeps_docs id" "keeps_docs (\<lambda>st. st)"
  by (simp_all add: keeps_docs_def)

lemma job_docs_okD: "job_docs_ok st \<Longrightarrow> st i = Some d \<Longrightarrow> job_doc_ok d"
  unfolding job_docs_ok_def by (blast intro: ranI)

lemma job_docs_ok_upd: "job_docs_ok st \<Longrightarrow> job_doc_ok d \<Longrightarrow> job_docs_ok (st(i \<mapsto> d))"
  by (auto simp: job_docs_ok_def ran_def split: if_splits)

lemma update_where_docs:
  assumes "job_docs_ok st" and "\<And>d. job_doc_ok d \<Longrightarrow> guard d \<Longrightarrow> job_doc_ok (upd d)"
  shows "job_docs_ok (snd (update_where guard upd i st))"
  using assms(1) job_docs_ok_upd [OF assms(1)] assms(2) job_docs_okD [OF assms(1)]
  by (simp add: update_where_def split: option.split)

text \<open>The patches of the code all end a job.\<close>

definition ends_job :: "status_patch \<Rightarrow> bool" where
  "ends_job p \<longleftrightarrow> sp_finishedAt p \<notin> {None, Some None} \<and>
     (case sp_status p of
        Completed \<Rightarrow> sp_result p \<notin> {None, Some None}
      | Failed \<Rightarrow> sp_errorCode p \<notin> {None, Some None} \<and> sp_errorMessage p \<notin> {None, Some None}
      | _ \<Rightarrow> False)"

lemma apply_patch_ok: "ends_job p \<Longrightarrow> job_doc_ok d \<Longrightarrow> job_doc_ok (apply_patch p d)"
  by (cases "sp_status p") (auto simp: ends_job_def job_doc_ok_def apply_patch_def set_field_def chunks_ok_def)

lemma update_status_docs: "ends_job p \<Longrightarrow> job_docs_ok st \<Longrightarrow> job_docs_ok (snd (update_status i p st))"
  by (simp add: update_status_def domain_result_def update_where_docs apply_patch_ok)

lemma create_docs: "job_docs_ok st \<Longrightarrow> job_docs_ok (snd (create_job i data now st))"
  by (simp add: create_job_def Let_def job_docs_ok_upd job_doc_ok_def no_outcome_def new_job_doc_def chunks_ok_def)

lemma claim_docs:
  assumes "job_docs_ok st"
  shows "job_docs_ok (snd (claim_for_processing i now st))" "job_docs_ok (snd (claim_for_gathering i now st))"
    "job_docs_ok (snd (claim_for_planning i ctx st))" "job_docs_ok (snd (fail_if_still_gathering i code msg now st))"
  unfolding claim_for_processing_def claim_for_gathering_def claim_for_planning_def fail_if_still_gathering_def domain_result_def
  by (simp; rule update_where_docs [OF assms]; simp add: job_doc_ok_def no_outcome_def chunks_ok_def)+

lemma push_chunk_keeps:
  "pd_status (push_chunk c d) = pd_status d" "pd_result (push_chunk c d) = pd_result d"
  "pd_error_code (push_chunk c d) = pd_error_code d" "pd_error_message (push_chunk c d) = pd_error_message d"
  "pd_finished_at (push_chunk c d) = pd_finished_at d" "pd_started_at (push_chunk c d) = pd_started_at d"
  "pd_context_used (push_chunk c d) = pd_context_used d"
  by (simp_all add: push_chunk_def)

lemma append_docs:
  assumes "job_docs_ok st"
  shows "job_docs_ok (snd (append_result_chunk i c st))"
proof -
  have "job_doc_ok (push_chunk c d)" if "job_doc_ok d" "ac_sequence c \<notin> set (pd_chunk_sequences d)" for d
    using that chunks_ok_push [of d c] by (cases "pd_status d") (simp_all add: job_doc_ok_def no_outcome_def push_chunk_keeps)
  then have "job_docs_ok (snd (update_where (\<lambda>d. ac_sequence c \<notin> set (pd_chunk_sequences d)) (push_chunk c) i st))"
    by (intro update_where_docs [OF assms]) simp_all
  then show ?thesis by (auto simp: append_result_chunk_def split: prod.split option.split)
qed

text \<open>The same facts for a call whose result is named.\<close>

lemma call_docs_eq:
  assumes "job_docs_ok st"
  shows "ends_job p \<Longrightarrow> update_status i p st = (j, st') \<Longrightarrow> job_docs_ok st'"
    and "create_job i data now st = (k, st') \<Longrightarrow> job_docs_ok st'"
    and "claim_for_processing i now st = (j, st') \<Longrightarrow> job_docs_ok st'"
    and "claim_for_gathering i now st = (j, st') \<Longrightarrow> job_docs_ok st'"
    and "claim_for_planning i ctx st = (j, st') \<Longrightarrow> job_docs_ok st'"
    and "fail_if_still_gathering i code msg now st = (j, st') \<Longrightarrow> job_docs_ok st'"
    and "append_result_chunk i c st = (r, st') \<Longrightarrow> job_docs_ok st'"
  using update_status_docs [OF _ assms] create_docs [OF assms] claim_docs [OF assms] append_docs [OF assms] by (metis snd_conv)+

lemma write_status_docs:
  "write_status d i p st = (r, st') \<Longrightarrow> ends_job p \<Longrightarrow> job_docs_ok st \<Longrightarrow> job_docs_ok st'"
  using call_docs_eq(1) by (auto simp: write_status_def Let_def split: option.splits prod.splits)

lemma patches_end_job [simp]:
  "ends_job ((failed_patch e now)\<lparr>sp_promptVersion := v, sp_contextUsed := u\<rparr>)" "ends_job (failed_patch e now)"
  "ends_job ((completed_patch r now)\<lparr>sp_promptVersion := v, sp_contextUsed := u\<rparr>)" "ends_job (enqueue_failed_patch now)"
  "ends_job ((patch_status Failed)\<lparr>sp_errorCode := Some (Some c), sp_errorMessage := Some (Some m), sp_finishedAt := Some (Some now)\<rparr>)"
  by (simp_all add: ends_job_def failed_patch_def completed_patch_def enqueue_failed_patch_def patch_status_def)

section \<open>The use-cases\<close>

lemma run_claimed_docs:
  assumes "run_claimed_planning d claimed ctx st = (r, st', calls)" and "job_docs_ok st" and "keeps_docs (rd_meanwhile d)"
  shows "job_docs_ok st'"
  using assms(1)
  by (auto simp: run_claimed_planning_def Let_def split: sum.splits prod.splits
      elim!: write_status_docs intro: keeps_docsD [OF assms(3,2)])

lemma execute_legacy_docs:
  assumes "job_docs_ok st" and "keeps_docs (rd_meanwhile d)"
  shows "job_docs_ok (fst (snd (execute_legacy d i now st)))"
proof (cases "claim_for_processing i now st")
  case (Pair claim st1)
  have st1: "job_docs_ok st1" "job_docs_ok (rd_meanwhile d st1)"
    using call_docs_eq(3) [OF assms(1) Pair] keeps_docsD [OF assms(2)] by simp_all
  show ?thesis
    using st1
    by (auto simp: execute_legacy_def Pair Let_def split: option.split sum.split prod.split elim!: write_status_docs)
qed

lemma plan_without_gather_docs:
  assumes "job_docs_ok st" and "keeps_docs (rd_meanwhile d)"
  shows "job_docs_ok (fst (snd (plan_without_gather d claimed st)))"
proof (cases "claim_for_planning (pj_id claimed) [] st")
  case (Pair claim st1)
  have st1: "job_docs_ok st1" by (rule call_docs_eq(5) [OF assms(1) Pair])
  have "keeps_docs (rd_meanwhile (run_deps.truncate d))" using assms(2) by (simp add: run_deps.defs)
  with st1 run_claimed_docs show ?thesis
    by (auto simp: plan_without_gather_def Pair Let_def split: option.split prod.split)
qed

lemma publish_gather_docs:
  assumes "job_docs_ok st" and "keeps_docs (td_publishing d)"
  shows "job_docs_ok (fst (snd (publish_gather d claimed now st)))"
  using keeps_docsD [OF assms(2,1)]
  by (auto simp: publish_gather_def Let_def split: sum.split option.split prod.split elim!: write_status_docs)

lemma execute_via_transport_docs:
  assumes "job_docs_ok st" and "keeps_docs (rd_meanwhile d)" and "keeps_docs (td_checking d)" and "keeps_docs (td_looking_up d)"
    and "keeps_docs (td_publishing d)"
  shows "job_docs_ok (fst (snd (execute_via_transport d i now st)))"
proof (cases "claim_for_gathering i now st")
  case (Pair claim st1)
  have st1: "job_docs_ok st1" by (rule call_docs_eq(4) [OF assms(1) Pair])
  note st2 = keeps_docsD [OF assms(3) st1]
  note st3 = keeps_docsD [OF assms(4) st2]
  show ?thesis
    using st1 st2 st3 plan_without_gather_docs [OF st3 assms(2)] publish_gather_docs [OF st3 assms(5)]
    by (auto simp: execute_via_transport_def Pair Let_def split: option.split sum.split prod.split elim!: write_status_docs)
qed

lemma finalize_docs:
  assumes "job_docs_ok st" and "keeps_docs (rd_meanwhile d)"
  shows "job_docs_ok (fst (snd (finalize d phase code now job st)))"
proof -
  have "keeps_docs (rd_meanwhile (run_deps.truncate d))" using assms(2) by (simp add: run_deps.defs)
  then show ?thesis
    using assms(1) run_claimed_docs call_docs_eq(5,6) [OF assms(1)]
    by (auto simp: finalize_def finalize_completed_def finalize_failed_def Let_def split: option.split prod.split)
qed

lemma handle_chunk_docs:
  assumes "job_docs_ok st" and "keeps_docs (rd_meanwhile d)" and "keeps_docs (cd_arriving d)" and "keeps_docs (cd_claiming d)"
  shows "job_docs_ok (fst (snd (handle_chunk d c now st)))"
proof -
  have after: "job_docs_ok (fst (snd (after_append d c now current st1)))" if "job_docs_ok st1" for current st1
    using that finalize_docs [OF keeps_docsD [OF assms(4) that] assms(2)]
    by (auto simp: after_append_def Let_def case_prod_beta split: chunk_body.split)
  show ?thesis
    using assms(1) keeps_docsD [OF assms(3,1)] after call_docs_eq(7) [OF keeps_docsD [OF assms(3,1)]]
    by (auto simp: handle_chunk_def Let_def split: option.split prod.split)
qed

lemma gather_timeout_docs: "job_docs_ok st \<Longrightarrow> job_docs_ok (snd (handle_gather_timeout i now st))"
  using call_docs_eq(6) by (auto simp: handle_gather_timeout_def split: option.split prod.split)

lemma submit_docs:
  assumes "job_docs_ok (ss_jobs s)" and "keeps_docs (su_queueing d)"
  shows "job_docs_ok (ss_jobs (snd (submit_planning_job d i inp now s)))"
proof -
  have "job_docs_ok (ss_jobs (snd (dispatch d created now (s\<lparr>ss_jobs := jobs\<rparr>))))" if "job_docs_ok jobs" for created jobs
    using keeps_docsD [OF assms(2) that] by (auto simp: dispatch_def Let_def update_status_docs split: sum.split option.split)
  with assms(1) call_docs_eq(2) [OF assms(1)] show ?thesis
    by (auto simp: submit_planning_job_def Let_def dest!: submit_checks_keeps split: sum.split option.split prod.split)
qed

text \<open>C5: Every use-case of the planning feature (submission, both worker transports, a result chunk, the timeout)
  keeps every stored job well-formed for its status: an open job has a start time once it is claimed, its context
  once it is planned, and no result, error or end time; a completed job has its result and a failed one its
  code and message, both with their end time. What other requests do between the calls is any change that keeps jobs so.\<close>

theorem stored_jobs_well_formed:
  assumes "job_docs_ok st" and "ss_jobs s = st"
    and "list_all keeps_docs [su_queueing ds, rd_meanwhile dl, rd_meanwhile dt, td_checking dt, td_looking_up dt, td_publishing dt,
      rd_meanwhile dc, cd_arriving dc, cd_claiming dc]"
  shows "job_docs_ok (ss_jobs (snd (submit_planning_job ds i inp now s))) \<and>
    job_docs_ok (fst (snd (execute_legacy dl i now st))) \<and> job_docs_ok (fst (snd (execute_via_transport dt i now st))) \<and>
    job_docs_ok (fst (snd (handle_chunk dc c now st))) \<and> job_docs_ok (snd (handle_gather_timeout i now st))"
  using assms by (simp add: submit_docs execute_legacy_docs execute_via_transport_docs handle_chunk_docs gather_timeout_docs)

theorem stored_jobs_well_formed_witness:
  "job_docs_ok (fst (snd (execute_legacy sample_legacy (js ''j'') 3 [js ''j'' \<mapsto> new_job_doc sample_data 0])))"
proof -
  let ?st = "[js ''j'' \<mapsto> new_job_doc sample_data 0]" and ?s = "sample_submit_state\<lparr>ss_jobs := [js ''j'' \<mapsto> new_job_doc sample_data 0]\<rparr>"
  have st: "job_docs_ok ?st" "ss_jobs ?s = ?st"
    by (simp_all add: job_docs_ok_upd job_docs_ok_def [of Map.empty] job_doc_ok_def no_outcome_def new_job_doc_def chunks_ok_def)
  have "list_all keeps_docs [su_queueing (sample_submit (Inr ())), rd_meanwhile sample_legacy, rd_meanwhile sample_transport,
      td_checking sample_transport, td_looking_up sample_transport, td_publishing sample_transport,
      rd_meanwhile sample_chunk_deps, cd_arriving sample_chunk_deps, cd_claiming sample_chunk_deps]"
    by (simp add: keeps_docs_id sample_submit_def sample_legacy_def sample_transport_def sample_chunk_deps_def sample_deps_def
        run_deps.defs transport_deps.defs chunk_deps.defs)
  from stored_jobs_well_formed [OF st this] show ?thesis by blast
qed

end
