(* ===== verification/LoginLimiter.thy ===== *)
theory LoginLimiter
  imports Prelude
begin

text \<open>
  The per-account login throttle (\<open>domain/auth/login-attempt-limiter.port.ts\<close>,
  \<open>infrastructure/auth/redis-login-attempt-limiter.ts\<close>). Redis is a map from keys to a counter and
  its expiry in milliseconds, if it has one; an expired key reads as absent. SHA-256 (in hex) is the
  parameter \<open>sha\<close>.
\<close>

section \<open>Limiter\<close>

type_synonym attempts_store = "js_string \<rightharpoonup> int \<times> time option"

record login_attempt_result =
  la_allowed :: bool
  la_retryAfterSeconds :: int
  la_attempts :: int

definition login_max_attempts :: int where
  "login_max_attempts = 10"

definition login_attempt_window_seconds :: int where
  "login_attempt_window_seconds = 15 * 60"

definition login_attempt_key :: "(js_string \<Rightarrow> js_string) \<Rightarrow> js_string \<Rightarrow> js_string" where
  "login_attempt_key sha email = js ''login-attempts:'' @ sha email"

definition live_attempts :: "time \<Rightarrow> attempts_store \<Rightarrow> js_string \<Rightarrow> (int \<times> time option) option" where
  "live_attempts now st k =
     (case st k of
        Some (n, Some e) \<Rightarrow> if e \<le> now then None else Some (n, Some e)
      | other \<Rightarrow> other)"

text \<open>\<open>INCR\<close>, \<open>PTTL\<close> and, for a first attempt or a key without expiry, \<open>PEXPIRE\<close>.\<close>

definition incr_with_expiry ::
    "time \<Rightarrow> js_string \<Rightarrow> int \<Rightarrow> attempts_store \<Rightarrow> (int \<times> int) \<times> attempts_store" where
  "incr_with_expiry now k window st =
     (let (n, expiry) = (case live_attempts now st k of None \<Rightarrow> (0, None) | Some p \<Rightarrow> p);
          count = n + 1;
          ttl = (case expiry of None \<Rightarrow> - 1 | Some e \<Rightarrow> e - now)
      in if count = 1 \<or> ttl < 0 then ((count, window), st(k \<mapsto> (count, Some (now + window))))
         else ((count, ttl), st(k \<mapsto> (count, expiry))))"

text \<open>\<open>Math.ceil(ms / 1000)\<close>.\<close>

definition ceil_seconds :: "int \<Rightarrow> int" where
  "ceil_seconds ms = - ((- ms) div 1000)"

definition register_attempt ::
    "(js_string \<Rightarrow> js_string) \<Rightarrow> bool \<Rightarrow> js_string \<Rightarrow> time \<Rightarrow> attempts_store \<Rightarrow> login_attempt_result \<times> attempts_store" where
  "register_attempt sha reachable email now st =
     (if \<not> reachable then (\<lparr>la_allowed = True, la_retryAfterSeconds = 0, la_attempts = 0\<rparr>, st)
      else
        (case incr_with_expiry now (login_attempt_key sha email) (login_attempt_window_seconds * 1000) st of
           ((count, ttl), st') \<Rightarrow>
             (\<lparr>la_allowed = (count \<le> login_max_attempts), la_retryAfterSeconds = max 1 (ceil_seconds ttl),
               la_attempts = count\<rparr>, st')))"

definition clear_attempts ::
    "(js_string \<Rightarrow> js_string) \<Rightarrow> bool \<Rightarrow> js_string \<Rightarrow> attempts_store \<Rightarrow> attempts_store" where
  "clear_attempts sha reachable email st =
     (if reachable then st(login_attempt_key sha email := None) else st)"

section \<open>A window\<close>

text \<open>The answers to a sequence of attempts for one account, each at its time.\<close>

fun attempt_results ::
    "(js_string \<Rightarrow> js_string) \<Rightarrow> js_string \<Rightarrow> time list \<Rightarrow> attempts_store \<Rightarrow> login_attempt_result list" where
  "attempt_results sha email [] st = []"
| "attempt_results sha email (t # ts) st =
     (case register_attempt sha True email t st of (r, st') \<Rightarrow> r # attempt_results sha email ts st')"

definition counted :: "time \<Rightarrow> time \<Rightarrow> int \<Rightarrow> login_attempt_result" where
  "counted e t k = \<lparr>la_allowed = (k \<le> login_max_attempts), la_retryAfterSeconds = max 1 (ceil_seconds (e - t)),
     la_attempts = k\<rparr>"

lemma ceil_seconds_covers: "ms \<le> ceil_seconds ms * 1000"
proof -
  have "(- ms) div 1000 * 1000 + (- ms) mod 1000 = - ms" by simp
  moreover have "0 \<le> (- ms) mod 1000" by simp
  moreover have "ceil_seconds ms * 1000 = - ((- ms) div 1000 * 1000)" by (simp add: ceil_seconds_def)
  ultimately show ?thesis by linarith
qed

lemma register_running:
  assumes "st (login_attempt_key sha email) = Some (n, Some e)" and "0 < n" and "t < e"
  shows "register_attempt sha True email t st =
    (counted e t (n + 1), st(login_attempt_key sha email \<mapsto> (n + 1, Some e)))"
  using assms by (simp add: register_attempt_def incr_with_expiry_def live_attempts_def counted_def Let_def)

lemma running_results:
  assumes "st (login_attempt_key sha email) = Some (n, Some e)" and "0 < n" and "list_all (\<lambda>t. t < e) ts"
  shows "attempt_results sha email ts st = map2 (counted e) ts [n + 1..n + int (length ts)]"
  using assms
proof (induction ts arbitrary: n st)
  case (Cons t ts)
  let ?st = "st(login_attempt_key sha email \<mapsto> (n + 1, Some e))"
  have "attempt_results sha email ts ?st = map2 (counted e) ts [n + 1 + 1..n + 1 + int (length ts)]"
    using Cons by (intro Cons.IH) simp_all
  moreover have "[n + 1..n + int (length (t # ts))] = (n + 1) # [n + 1 + 1..n + 1 + int (length ts)]"
    by (simp add: upto_rec1 ac_simps)
  ultimately show ?case using Cons.prems by (simp add: register_running)
qed simp

section \<open>Properties\<close>



end
