(* ===== verification/Auth.thy ===== *)
theory Auth
  imports Users LoginLimiter
begin

text \<open>
  Login, logout, password and email tokens: \<open>application/auth\<close>, \<open>domain/auth\<close>,
  \<open>infrastructure/persistence/auth\<close>, the token and password writes of
  \<open>user.typeorm.repository.ts\<close>, and the request guards of \<open>presentation/auth\<close>. bcrypt
  (\<open>matches password hash\<close>), SHA-256 (\<open>sha\<close>) and random tokens are parameters. An access token is its
  payload: signing and the expiry check are \<open>JwtService\<close>'s. A transaction is one step: the row lock
  on the user serialises those that share one.
\<close>

section \<open>Data\<close>

datatype auth_token_type = PasswordReset | EmailVerification

record auth_token =
  at_id :: ident
  at_userId :: ident
  at_type :: auth_token_type
  at_tokenHash :: js_string
  at_expiresAt :: time
  at_usedAt :: "time option"
  at_createdAt :: time

record jwt_payload =
  jp_sub :: ident
  jp_email :: js_string
  jp_tv :: "int option"

record email_message =
  em_to :: js_string
  em_subject :: js_string
  em_text :: js_string

record auth_state =
  au_accounts :: users_state
  au_tokens :: "auth_token list"
  au_attempts :: attempts_store
  au_mails :: "email_message list"

fun auth_token_ttl_ms :: "auth_token_type \<Rightarrow> int" where
  "auth_token_ttl_ms PasswordReset = 60 * 60 * 1000"
| "auth_token_ttl_ms EmailVerification = 24 * 60 * 60 * 1000"

definition auth_token_min_interval_ms :: int where
  "auth_token_min_interval_ms = 5 * 60 * 1000"

definition emit_auth :: "event \<Rightarrow> auth_state \<Rightarrow> auth_state" where
  "emit_auth e s = s\<lparr>au_accounts := emit_user e (au_accounts s)\<rparr>"

definition auth_users :: "auth_state \<Rightarrow> user_row list" where
  "auth_users s = us_users (au_accounts s)"

definition set_auth_users :: "user_row list \<Rightarrow> auth_state \<Rightarrow> auth_state" where
  "set_auth_users t s = s\<lparr>au_accounts := (au_accounts s)\<lparr>us_users := t\<rparr>\<rparr>"

section \<open>Token writes of the repositories\<close>

text \<open>\<open>token_hash\<close> is unique. \<open>now\<close> is the database's clock.\<close>

definition find_token :: "js_string \<Rightarrow> auth_token list \<Rightarrow> auth_token option" where
  "find_token h t = find (\<lambda>r. at_tokenHash r = h) t"

definition issue_token ::
    "ident \<Rightarrow> ident \<Rightarrow> auth_token_type \<Rightarrow> js_string \<Rightarrow> time \<Rightarrow> int \<Rightarrow> time \<Rightarrow> auth_token list \<Rightarrow>
     (http_error + bool) \<times> auth_token list" where
  "issue_token new_id user ty h expires_at min_interval now t =
     (if list_ex (\<lambda>r. at_userId r = user \<and> at_type r = ty \<and> now - min_interval < at_createdAt r) t then (Inr False, t)
      else if find_token h t \<noteq> None
      then (Inl (InternalError (js ''duplicate key value violates unique constraint'')), t)
      else (Inr True, t @ [\<lparr>at_id = new_id, at_userId = user, at_type = ty, at_tokenHash = h,
              at_expiresAt = expires_at, at_usedAt = None, at_createdAt = now\<rparr>]))"

definition mark_used :: "time \<Rightarrow> auth_token \<Rightarrow> auth_token" where
  "mark_used now r = r\<lparr>at_usedAt := Some now\<rparr>"

definition lock_owner_and_consume ::
    "js_string \<Rightarrow> auth_token_type \<Rightarrow> time \<Rightarrow> user_row list \<Rightarrow> auth_token list \<Rightarrow> ident option \<times> auth_token list" where
  "lock_owner_and_consume h ty now users t =
     (case find_token h t of
        None \<Rightarrow> (None, t)
      | Some r \<Rightarrow>
          (if at_type r \<noteq> ty then (None, t)
           else
             (case find (\<lambda>u. ur_id u = at_userId r) users of
                None \<Rightarrow> (None, t)
              | Some u \<Rightarrow>
                  (if ur_disabled_at u \<noteq> None then (None, t)
                   else if at_usedAt r = None \<and> now < at_expiresAt r
                   then (Some (at_userId r), sql_update (\<lambda>q. at_tokenHash q = h) (mark_used now) t)
                   else (None, t)))))"

definition verify_email_with_token ::
    "js_string \<Rightarrow> time \<Rightarrow> time \<Rightarrow> auth_state \<Rightarrow> ident option \<times> auth_state" where
  "verify_email_with_token h at now s =
     (case lock_owner_and_consume h EmailVerification now (auth_users s) (au_tokens s) of
        (None, t) \<Rightarrow> (None, s\<lparr>au_tokens := t\<rparr>)
      | (Some i, t) \<Rightarrow> (Some i, set_auth_users (sql_update (\<lambda>u. ur_id u = i)
          (\<lambda>u. u\<lparr>ur_email_verified_at := (case ur_email_verified_at u of None \<Rightarrow> Some at | v \<Rightarrow> v)\<rparr>) (auth_users s))
          (s\<lparr>au_tokens := t\<rparr>)))"

definition use_all_tokens :: "ident \<Rightarrow> time \<Rightarrow> auth_token list \<Rightarrow> auth_token list" where
  "use_all_tokens i at t = sql_update (\<lambda>r. at_userId r = i \<and> at_usedAt r = None) (mark_used at) t"

definition reset_password_with_token ::
    "js_string \<Rightarrow> js_string \<Rightarrow> time \<Rightarrow> time \<Rightarrow> auth_state \<Rightarrow> ident option \<times> auth_state" where
  "reset_password_with_token h password_hash at now s =
     (case lock_owner_and_consume h PasswordReset now (auth_users s) (au_tokens s) of
        (None, t) \<Rightarrow> (None, s\<lparr>au_tokens := t\<rparr>)
      | (Some i, t) \<Rightarrow> (Some i, set_auth_users (sql_update (\<lambda>u. ur_id u = i)
          (\<lambda>u. u\<lparr>ur_password_hash := password_hash, ur_token_version := ur_token_version u + 1,
             ur_email_verified_at := (case ur_email_verified_at u of None \<Rightarrow> Some at | v \<Rightarrow> v)\<rparr>) (auth_users s))
          (s\<lparr>au_tokens := use_all_tokens i at t\<rparr>)))"

definition user_row_missing :: http_error where
  "user_row_missing = InternalError (js ''User not found'')"

definition revoke_sessions :: "ident \<Rightarrow> user_row list \<Rightarrow> (http_error + int) \<times> user_row list" where
  "revoke_sessions i t =
     (case find (\<lambda>u. ur_id u = i) t of
        None \<Rightarrow> (Inl user_row_missing, t)
      | Some u \<Rightarrow> (Inr (ur_token_version u + 1),
          sql_update (\<lambda>u. ur_id u = i) (\<lambda>u. u\<lparr>ur_token_version := ur_token_version u + 1\<rparr>) t))"

definition change_password_row ::
    "ident \<Rightarrow> js_string \<Rightarrow> time \<Rightarrow> auth_state \<Rightarrow> (http_error + int) \<times> auth_state" where
  "change_password_row i password_hash now s =
     (case find (\<lambda>u. ur_id u = i) (auth_users s) of
        None \<Rightarrow> (Inl user_row_missing, s)
      | Some u \<Rightarrow> (Inr (ur_token_version u + 1),
          set_auth_users (sql_update (\<lambda>u. ur_id u = i)
            (\<lambda>u. u\<lparr>ur_password_hash := password_hash, ur_token_version := ur_token_version u + 1\<rparr>) (auth_users s))
          (s\<lparr>au_tokens := use_all_tokens i now (au_tokens s)\<rparr>)))"

section \<open>Use-cases\<close>

record auth_deps =
  ad_lower :: "js_string \<Rightarrow> js_string"
  ad_sha :: "js_string \<Rightarrow> js_string"
  ad_matches :: "js_string \<Rightarrow> js_string \<Rightarrow> bool"
  ad_redis :: bool

definition dummy_password_hash :: js_string where
  "dummy_password_hash = js ''$2b$10$6beIFBDfQh6MC8Fn/Mw4I.GJBGlN7Nxmn79JZ2rW/SHYEnUnPVAOq''"

definition login_throttled :: "int \<Rightarrow> http_error" where
  "login_throttled retry = TooManyRequests (js ''Too many login attempts. Try again later.'') retry"

definition invalid_credentials :: http_error where
  "invalid_credentials = Unauthorized (js ''Invalid email or password'')"

text \<open>The third component: the hashes a password was compared with, one entry per bcrypt call.\<close>

definition login_user ::
    "auth_deps \<Rightarrow> js_string \<Rightarrow> js_string \<Rightarrow> time \<Rightarrow> auth_state \<Rightarrow>
     (http_error + jwt_payload) \<times> auth_state \<times> js_string list" where
  "login_user d raw_email password now s =
     (let email = normalize_email (ad_lower d) raw_email in
      case register_attempt (ad_sha d) (ad_redis d) email now (au_attempts s) of
        (attempt, st) \<Rightarrow>
          (let s1 = s\<lparr>au_attempts := st\<rparr> in
           if \<not> la_allowed attempt
           then (Inl (login_throttled (la_retryAfterSeconds attempt)),
                 (if la_attempts attempt = login_max_attempts + 1 then emit_auth (AuthLoginThrottled email) s1 else s1), [])
           else
             (case find_user_by_email email (auth_users s1) of
                None \<Rightarrow> (Inl invalid_credentials, emit_auth (AuthLoginFailed None email) s1, [dummy_password_hash])
              | Some u \<Rightarrow>
                  (if \<not> ad_matches d password (u_passwordHash u) \<or> is_disabled u
                   then (Inl invalid_credentials, emit_auth (AuthLoginFailed (Some (u_id u)) email) s1, [u_passwordHash u])
                   else
                     (let s2 = s1\<lparr>au_attempts := clear_attempts (ad_sha d) (ad_redis d) email (au_attempts s1)\<rparr>;
                          s3 = set_auth_users (update_last_active_at (u_id u) now (auth_users s2)) s2
                      in (Inr \<lparr>jp_sub = u_id u, jp_email = u_email u, jp_tv = Some (u_tokenVersion u)\<rparr>,
                          emit_auth (AuthLogin (u_id u)) s3, [u_passwordHash u]))))))"

definition logout_user :: "ident \<Rightarrow> auth_state \<Rightarrow> (http_error + unit) \<times> auth_state" where
  "logout_user i s =
     (case revoke_sessions i (auth_users s) of
        (Inl e, t) \<Rightarrow> (Inl e, set_auth_users t s)
      | (Inr _, t) \<Rightarrow> (Inr (), emit_auth (AuthLogout i) (emit_auth (UserSessionsRevoked i) (set_auth_users t s))))"

definition invalid_token :: http_error where
  "invalid_token = BadRequest (js ''Invalid or expired token'')"

definition verify_email ::
    "auth_deps \<Rightarrow> js_string \<Rightarrow> time \<Rightarrow> time \<Rightarrow> auth_state \<Rightarrow> (http_error + unit) \<times> auth_state" where
  "verify_email d token at now s =
     (case verify_email_with_token (ad_sha d token) at now s of
        (None, s1) \<Rightarrow> (Inl invalid_token, s1)
      | (Some i, s1) \<Rightarrow> (Inr (), emit_auth (AuthEmailVerified i) s1))"

definition resend_verification :: "user \<Rightarrow> auth_state \<Rightarrow> auth_state" where
  "resend_verification u s = (if is_email_verified u then s else emit_auth (AuthVerificationRequested (u_id u)) s)"

definition forgot_password :: "auth_deps \<Rightarrow> js_string \<Rightarrow> auth_state \<Rightarrow> auth_state" where
  "forgot_password d email s =
     emit_auth (AuthResetLinkRequested (normalize_email (ad_lower d) email) ForgotPassword) s"

text \<open>\<open>u\<close> is the account as the request loaded it.\<close>

definition change_password ::
    "auth_deps \<Rightarrow> user \<Rightarrow> js_string \<Rightarrow> js_string \<Rightarrow> time \<Rightarrow> auth_state \<Rightarrow>
     (http_error + jwt_payload) \<times> auth_state" where
  "change_password d u current_password new_hash now s =
     (if \<not> ad_matches d current_password (u_passwordHash u)
      then (Inl (BadRequest (js ''Current password is incorrect'')), s)
      else
        (case change_password_row (u_id u) new_hash now s of
           (Inl e, s1) \<Rightarrow> (Inl e, s1)
         | (Inr tv, s1) \<Rightarrow> (Inr \<lparr>jp_sub = u_id u, jp_email = u_email u, jp_tv = Some tv\<rparr>,
             emit_auth (AuthPasswordChanged (u_id u)) (emit_auth (UserSessionsRevoked (u_id u)) s1))))"

definition clear_login_counter :: "auth_deps \<Rightarrow> ident \<Rightarrow> auth_state \<Rightarrow> auth_state" where
  "clear_login_counter d i s =
     (case find_user_by_id i (auth_users s) of
        None \<Rightarrow> s
      | Some u \<Rightarrow> s\<lparr>au_attempts :=
          clear_attempts (ad_sha d) (ad_redis d) (normalize_email (ad_lower d) (u_email u)) (au_attempts s)\<rparr>)"

definition reset_password ::
    "auth_deps \<Rightarrow> js_string \<Rightarrow> js_string \<Rightarrow> time \<Rightarrow> time \<Rightarrow> auth_state \<Rightarrow> (http_error + unit) \<times> auth_state" where
  "reset_password d token new_hash at now s =
     (case reset_password_with_token (ad_sha d token) new_hash at now s of
        (None, s1) \<Rightarrow> (Inl invalid_token, s1)
      | (Some i, s1) \<Rightarrow> (Inr (), emit_auth (AuthPasswordResetCompleted i)
          (emit_auth (UserSessionsRevoked i) (clear_login_counter d i s1))))"

section \<open>Mails\<close>

definition join_url :: "js_string \<Rightarrow> js_string \<Rightarrow> js_string \<Rightarrow> js_string" where
  "join_url base path token = rev (dropWhile (\<lambda>c. c = 47) (rev base)) @ path @ js ''#token='' @ token"

definition build_reset_link :: "js_string \<Rightarrow> js_string \<Rightarrow> js_string" where
  "build_reset_link base token = join_url base (js ''/reset-password'') token"

definition build_verify_link :: "js_string \<Rightarrow> js_string \<Rightarrow> js_string" where
  "build_verify_link base token = join_url base (js ''/verify-email'') token"

definition verification_email :: "js_string \<Rightarrow> js_string \<Rightarrow> email_message" where
  "verification_email to link = \<lparr>em_to = to, em_subject = js ''Verify your MemoFlow email'',
     em_text = join [10] [js ''Welcome to MemoFlow.'', [],
       js ''Confirm your email address by opening this link (valid for 24 hours):'', link, [],
       js ''If you didn'' @ [39] @ js ''t create this account, ignore this email and the address will stay unverified.'']\<rparr>"

definition password_reset_email :: "js_string \<Rightarrow> js_string \<Rightarrow> email_message" where
  "password_reset_email to link = \<lparr>em_to = to, em_subject = js ''Reset your MemoFlow password'',
     em_text = join [10] [js ''We received a request to reset your MemoFlow password.'', [],
       js ''Choose a new password by opening this link (valid for 1 hour):'', link, [],
       js ''If you did not ask for this, you can ignore this message.'']\<rparr>"

definition existing_account_email :: "js_string \<Rightarrow> js_string \<Rightarrow> email_message" where
  "existing_account_email to link = \<lparr>em_to = to, em_subject = js ''You already have a MemoFlow account'',
     em_text = join [10] [
       js ''Someone tried to sign up for MemoFlow with this email address, but an account already exists.'', [],
       js ''If it was you, you can log in as usual, or reset your password here (valid for 1 hour):'', link, [],
       js ''If it was not you, you can ignore this message.'']\<rparr>"

definition send_mail :: "email_message \<Rightarrow> auth_state \<Rightarrow> auth_state" where
  "send_mail m s = s\<lparr>au_mails := au_mails s @ [m]\<rparr>"

text \<open>
  The two listeners' use-cases. \<open>base\<close> is \<open>APP_BASE_URL\<close>; \<open>delivered\<close> whether the mail sender takes
  the message. An error goes to the listener, which logs it.
\<close>

definition send_verification_email ::
    "auth_deps \<Rightarrow> js_string option \<Rightarrow> bool \<Rightarrow> ident \<Rightarrow> js_string \<Rightarrow> ident \<Rightarrow> time \<Rightarrow> time \<Rightarrow> auth_state \<Rightarrow> auth_state" where
  "send_verification_email d base delivered new_id token user at now s =
     (case find_user_by_id user (auth_users s) of
        None \<Rightarrow> s
      | Some u \<Rightarrow>
          (if is_disabled u \<or> is_email_verified u then s
           else
             (case base of
                None \<Rightarrow> s
              | Some url \<Rightarrow>
                  (if url = [] then s
                   else
                     (case issue_token new_id (u_id u) EmailVerification (ad_sha d token)
                             (at + auth_token_ttl_ms EmailVerification) auth_token_min_interval_ms now (au_tokens s) of
                        (Inr True, t) \<Rightarrow>
                          (let s1 = s\<lparr>au_tokens := t\<rparr> in
                           if delivered then send_mail (verification_email (u_email u) (build_verify_link url token)) s1 else s1)
                      | (_, t) \<Rightarrow> s\<lparr>au_tokens := t\<rparr>)))))"

definition send_password_reset_email ::
    "auth_deps \<Rightarrow> js_string option \<Rightarrow> bool \<Rightarrow> ident \<Rightarrow> js_string \<Rightarrow> js_string \<Rightarrow> reset_link_reason \<Rightarrow> time \<Rightarrow> time \<Rightarrow>
     auth_state \<Rightarrow> auth_state" where
  "send_password_reset_email d base delivered new_id token email reason at now s =
     (case find_user_by_email (normalize_email (ad_lower d) email) (auth_users s) of
        None \<Rightarrow> s
      | Some u \<Rightarrow>
          (if is_disabled u then s
           else
             (case base of
                None \<Rightarrow> s
              | Some url \<Rightarrow>
                  (if url = [] then s
                   else
                     (case issue_token new_id (u_id u) PasswordReset (ad_sha d token)
                             (at + auth_token_ttl_ms PasswordReset) auth_token_min_interval_ms now (au_tokens s) of
                        (Inr True, t) \<Rightarrow>
                          (let s1 = s\<lparr>au_tokens := t\<rparr>; link = build_reset_link url token in
                           if delivered
                           then emit_auth (AuthPasswordResetRequested (u_id u))
                                  (send_mail (if reason = ExistingAccount then existing_account_email (u_email u) link
                                     else password_reset_email (u_email u) link) s1)
                           else s1)
                      | (_, t) \<Rightarrow> s\<lparr>au_tokens := t\<rparr>)))))"

section \<open>Guards of a request\<close>

definition validate_jwt :: "jwt_payload \<Rightarrow> user_row list \<Rightarrow> http_error + user" where
  "validate_jwt p t =
     (case get_user_by_id (jp_sub p) t of
        Inl (NotFound _) \<Rightarrow> Inl (Unauthorized (js ''Invalid token''))
      | Inl e \<Rightarrow> Inl e
      | Inr u \<Rightarrow>
          (if is_disabled u then Inl (Unauthorized (js ''Invalid token''))
           else if (case jp_tv p of None \<Rightarrow> 0 | Some v \<Rightarrow> v) \<noteq> u_tokenVersion u
           then Inl (Unauthorized (js ''Invalid token''))
           else Inr u))"

definition roles_guard :: "user_role list option \<Rightarrow> user option \<Rightarrow> http_error option" where
  "roles_guard required u =
     (case required of
        None \<Rightarrow> None
      | Some [] \<Rightarrow> None
      | Some rs \<Rightarrow>
          (case u of
             None \<Rightarrow> Some (Forbidden (js ''Insufficient role''))
           | Some v \<Rightarrow> if u_role v \<in> set rs then None else Some (Forbidden (js ''Insufficient role''))))"

definition ai_consent_guard :: "user option \<Rightarrow> http_error option" where
  "ai_consent_guard u =
     (case u of
        Some v \<Rightarrow> if has_current_ai_consent v then None else Some (Forbidden ai_consent_required_message)
      | None \<Rightarrow> Some (Forbidden ai_consent_required_message))"

definition email_verified_guard :: "bool \<Rightarrow> user option \<Rightarrow> http_error option" where
  "email_verified_guard required u =
     (if \<not> required then None
      else
        (case u of
           Some v \<Rightarrow> if is_email_verified v then None else Some (Forbidden (js ''Email not verified''))
         | None \<Rightarrow> Some (Forbidden (js ''Email not verified''))))"

section \<open>Every operation\<close>

definition on_accounts :: "(users_state \<Rightarrow> users_state) \<Rightarrow> auth_state \<Rightarrow> auth_state" where
  "on_accounts f s = s\<lparr>au_accounts := f (au_accounts s)\<rparr>"

definition auth_steps :: "auth_deps \<Rightarrow> (auth_state \<Rightarrow> auth_state) set" where
  "auth_steps d =
     {\<lambda>s. fst (snd (login_user d email password now s)) | email password now. True} \<union>
     {\<lambda>s. snd (logout_user i s) | i. True} \<union>
     {\<lambda>s. snd (verify_email d token at now s) | token at now. True} \<union>
     {\<lambda>s. snd (change_password d u current new_hash now s) | u current new_hash now. True} \<union>
     {\<lambda>s. snd (reset_password d token new_hash at now s) | token new_hash at now. True} \<union>
     {resend_verification u | u. True} \<union> {forgot_password d email | email. True} \<union>
     {send_verification_email d base delivered new_id token user at now |
        base delivered new_id token user at now. True} \<union>
     {send_password_reset_email d base delivered new_id token email reason at now |
        base delivered new_id token email reason at now. True} \<union>
     {on_accounts (\<lambda>a. snd (register_user (ad_lower d) email name hash new_id others now a)) |
        email name hash new_id others now. True} \<union>
     {on_accounts (\<lambda>a. snd (disable_user actor role target now a)) | actor role target now. True} \<union>
     {on_accounts (\<lambda>a. snd (enable_user actor role target a)) | actor role target. True} \<union>
     {on_accounts (\<lambda>a. snd (accept_ai_consent i version now a)) | i version now. True} \<union>
     {on_accounts (withdraw_ai_consent i) | i. True}"

lemma au_emit [simp]:
  "auth_users (emit_auth e s) = auth_users s" "au_tokens (emit_auth e s) = au_tokens s"
  "au_attempts (emit_auth e s) = au_attempts s" "au_mails (emit_auth e s) = au_mails s"
  by (simp_all add: auth_users_def emit_auth_def emit_user_def)

lemma au_set [simp]:
  "auth_users (set_auth_users t s) = t" "au_tokens (set_auth_users t s) = au_tokens s"
  "auth_users (s\<lparr>au_tokens := ts\<rparr>) = auth_users s" "auth_users (s\<lparr>au_attempts := st\<rparr>) = auth_users s"
  "auth_users (s\<lparr>au_mails := ms\<rparr>) = auth_users s" "auth_users (send_mail m s) = auth_users s"
  "au_tokens (send_mail m s) = au_tokens s" "au_tokens (on_accounts f s) = au_tokens s"
  "auth_users (on_accounts f s) = us_users (f (au_accounts s))"
  "us_users (emit_user e a) = us_users a"
  by (simp_all add: auth_users_def set_auth_users_def send_mail_def on_accounts_def emit_user_def)

text \<open>Rows of the two tables stay: versions of sessions grow, used tokens stay used.\<close>

definition users_grow :: "user_row list \<Rightarrow> user_row list \<Rightarrow> bool" where
  "users_grow t t' \<longleftrightarrow> (\<forall>i r. find (\<lambda>u. ur_id u = i) t = Some r \<longrightarrow>
     (\<exists>r'. find (\<lambda>u. ur_id u = i) t' = Some r' \<and> ur_token_version r \<le> ur_token_version r'))"

definition tokens_grow :: "auth_token list \<Rightarrow> auth_token list \<Rightarrow> bool" where
  "tokens_grow t t' \<longleftrightarrow> (\<forall>h r. find_token h t = Some r \<longrightarrow>
     (\<exists>r'. find_token h t' = Some r' \<and> (at_usedAt r \<noteq> None \<longrightarrow> at_usedAt r' \<noteq> None)))"

lemma users_grow_intros [intro]:
  "users_grow t t" "users_grow t (t @ us)"
  "(\<And>r. ur_id (f r) = ur_id r) \<Longrightarrow> (\<And>r. ur_token_version r \<le> ur_token_version (f r)) \<Longrightarrow> users_grow t (sql_update p f t)"
proof -
  assume "\<And>r. ur_id (f r) = ur_id r" and "\<And>r. ur_token_version r \<le> ur_token_version (f r)"
  then show "users_grow t (sql_update p f t)"
    using find_sql_update_key [of ur_id f _ p t] by (simp add: users_grow_def)
qed (auto simp: users_grow_def find_append)

lemma tokens_grow_intros [intro]:
  "tokens_grow t t" "tokens_grow t (t @ us)" "tokens_grow t (sql_update p (mark_used now) t)"
proof -
  show "tokens_grow t (sql_update p (mark_used now) t)"
    unfolding tokens_grow_def find_token_def
    using find_sql_update_key [of at_tokenHash "mark_used now" _ p t] by (simp add: mark_used_def)
qed (auto simp: tokens_grow_def find_token_def find_append)

lemma users_grow_trans: "users_grow t u \<Longrightarrow> users_grow u v \<Longrightarrow> users_grow t v"
  unfolding users_grow_def by (meson order_trans)

lemma tokens_grow_trans: "tokens_grow t u \<Longrightarrow> tokens_grow u v \<Longrightarrow> tokens_grow t v"
  unfolding tokens_grow_def by meson

definition state_grows :: "auth_state \<Rightarrow> auth_state \<Rightarrow> bool" where
  "state_grows s s' \<longleftrightarrow> users_grow (auth_users s) (auth_users s') \<and> tokens_grow (au_tokens s) (au_tokens s')"

lemma consume_grows: "tokens_grow t (snd (lock_owner_and_consume h ty now users t))"
  by (auto simp: lock_owner_and_consume_def split: option.split)

lemma issue_grows: "tokens_grow t (snd (issue_token i u ty h e m now t))"
  by (auto simp: issue_token_def)

lemma user_writes_grow:
  "users_grow t (update_last_active_at i now t)" "users_grow t (set_disabled_at i da t)"
  "users_grow t (set_ai_consent i ca v t)" "users_grow t (snd (revoke_sessions i t))"
  by (auto simp: update_last_active_at_def set_disabled_at_def set_ai_consent_def revoke_sessions_def split: option.split)

lemma verify_with_token_grows: "state_grows s (snd (verify_email_with_token h at now s))"
  using consume_grows [of "au_tokens s" h EmailVerification now "auth_users s"]
  by (auto simp: verify_email_with_token_def state_grows_def split: prod.split option.split)

lemma reset_with_token_grows: "state_grows s (snd (reset_password_with_token h ph at now s))"
  using consume_grows [of "au_tokens s" h PasswordReset now "auth_users s"]
  by (auto simp: reset_password_with_token_def state_grows_def use_all_tokens_def split: prod.split option.split
      intro: tokens_grow_trans)

lemma change_row_grows: "state_grows s (snd (change_password_row i ph now s))"
  by (auto simp: change_password_row_def state_grows_def use_all_tokens_def split: option.split)

lemma state_grows_parts:
  "users_grow (auth_users s) (auth_users s') \<Longrightarrow> au_tokens s' = au_tokens s \<Longrightarrow> state_grows s s'"
  "tokens_grow (au_tokens s) (au_tokens s') \<Longrightarrow> auth_users s' = auth_users s \<Longrightarrow> state_grows s s'"
  by (auto simp: state_grows_def)

lemma login_grows: "state_grows s (fst (snd (login_user d email password now s)))"
  by (intro state_grows_parts(1))
    (auto simp: login_user_def Let_def user_writes_grow split: prod.split option.split)

lemma logout_grows: "state_grows s (snd (logout_user i s))"
  using user_writes_grow(4) [of "auth_users s" i]
  by (intro state_grows_parts(1)) (auto simp: logout_user_def split: prod.split sum.split)

lemma mail_grows:
  "state_grows s (send_verification_email d base delivered new_id token user at now s)"
  "state_grows s (send_password_reset_email d base delivered new_id token email reason at now s)"
proof -
  have "tokens_grow (au_tokens s) t" if "issue_token i u ty h e m n (au_tokens s) = (r, t)" for i u ty h e m n r t
    using issue_grows [of "au_tokens s" i u ty h e m n] that by simp
  then show "state_grows s (send_verification_email d base delivered new_id token user at now s)"
    and "state_grows s (send_password_reset_email d base delivered new_id token email reason at now s)"
    by (intro state_grows_parts(2);
        auto simp: send_verification_email_def send_password_reset_email_def Let_def
          split: option.split prod.split sum.split bool.split)+
qed

lemma accounts_grow:
  "users_grow (us_users a) (us_users (snd (register_user lower email name hash new_id others now a)))"
  "users_grow (us_users a) (us_users (snd (disable_user actor role target now a)))"
  "users_grow (us_users a) (us_users (snd (enable_user actor role target a)))"
  "users_grow (us_users a) (us_users (snd (accept_ai_consent i version now a)))"
  "users_grow (us_users a) (us_users (withdraw_ai_consent i a))"
proof -
  have "users_grow (us_users a) t" if "create_user i e h n w (us_users a @ others) = (r, t)" for i e h n w r t
    using that by (auto simp: create_user_def Let_def split: if_splits)
  then show "users_grow (us_users a) (us_users (snd (register_user lower email name hash new_id others now a)))"
    by (auto simp: register_user_def Let_def split: option.split prod.split sum.split http_error.split)
qed (auto simp: disable_user_def enable_user_def accept_ai_consent_def withdraw_ai_consent_def Let_def user_writes_grow
    split: option.split)

lemma step_grows: "f \<in> auth_steps d \<Longrightarrow> state_grows s (f s)"
proof -
  have verify: "state_grows s (snd (verify_email d token at now s))" for token at now
    using verify_with_token_grows [of s "ad_sha d token" at now]
    by (auto simp: verify_email_def state_grows_def split: prod.split option.split)
  have change: "state_grows s (snd (change_password d u current new_hash now s))" for u current new_hash now
    using change_row_grows [of s "u_id u" new_hash now]
    by (auto simp: change_password_def state_grows_def split: prod.split sum.split)
  have reset: "state_grows s (snd (reset_password d token new_hash at now s))" for token new_hash at now
    using reset_with_token_grows [of s "ad_sha d token" new_hash at now]
    by (auto simp: reset_password_def clear_login_counter_def state_grows_def split: prod.split option.split)
  have plain: "state_grows s (resend_verification u s)" "state_grows s (forgot_password d email s)" for u email
    by (auto simp: resend_verification_def forgot_password_def state_grows_def)
  have accounts: "state_grows s (on_accounts g s)" if "users_grow (us_users (au_accounts s)) (us_users (g (au_accounts s)))" for g
    using that by (intro state_grows_parts(1)) (auto simp: auth_users_def on_accounts_def)
  show "f \<in> auth_steps d \<Longrightarrow> state_grows s (f s)"
    unfolding auth_steps_def
    by (elim UnE CollectE exE conjE)
      (simp_all add: login_grows logout_grows verify change reset plain mail_grows accounts accounts_grow)
qed

lemma steps_grow: "set fs \<subseteq> auth_steps d \<Longrightarrow> state_grows s (fold (\<lambda>f. f) fs s)"
proof (induction fs arbitrary: s)
  case (Cons f fs)
  then have "state_grows s (f s)" "state_grows (f s) (fold (\<lambda>f. f) fs (f s))"
    using step_grows [of f d s] Cons.IH [of "f s"] by simp_all
  then show ?case unfolding state_grows_def fold_simps comp_apply using users_grow_trans tokens_grow_trans by blast
qed (auto simp: state_grows_def)

section \<open>Sessions\<close>

lemma find_key: "distinct (map k t) \<Longrightarrow> u \<in> set t \<Longrightarrow> find (\<lambda>r. k r = k u) t = Some u"
  by (induction t) (auto simp: image_iff)

definition session_version :: "auth_state \<Rightarrow> ident \<Rightarrow> int option" where
  "session_version s i = map_option ur_token_version (find (\<lambda>u. ur_id u = i) (auth_users s))"

lemma session_version_grows:
  assumes "state_grows s s'" and "session_version s i = Some v"
  obtains v' where "session_version s' i = Some v'" "v \<le> v'"
  using assms by (fastforce simp: state_grows_def users_grow_def session_version_def)

lemma login_payload:
  assumes "login_user d email password now s = (Inr p, s1, cs)" and "distinct (map ur_id (auth_users s))"
  shows "\<exists>v. session_version s (jp_sub p) = Some v \<and> jp_tv p = Some v"
proof -
  obtain u where u: "u \<in> set (auth_users s)"
    and p: "p = \<lparr>jp_sub = ur_id u, jp_email = ur_email u, jp_tv = Some (ur_token_version u)\<rparr>"
    using assms(1)
    by (auto simp: login_user_def Let_def find_user_by_email_def dest!: find_SomeD
        split: prod.splits option.splits if_splits)
  have "find (\<lambda>r. ur_id r = ur_id u) (auth_users s) = Some u"
    by (rule find_key [OF assms(2) u])
  with p show ?thesis by (simp add: session_version_def)
qed

lemma validate_jwt_version:
  "validate_jwt p (auth_users s) = Inr u \<Longrightarrow> session_version s (jp_sub p) = Some (case jp_tv p of None \<Rightarrow> 0 | Some v \<Rightarrow> v)"
  by (auto simp: validate_jwt_def get_user_by_id_def find_user_by_id_def session_version_def
      split: option.splits sum.splits http_error.splits if_splits)

text \<open>The operations that end all sessions of an account, when they succeed.\<close>

definition revocations :: "auth_deps \<Rightarrow> ident \<Rightarrow> (auth_state \<Rightarrow> (http_error + unit) \<times> auth_state) set" where
  "revocations d i = {logout_user i} \<union>
     {answer_only (change_password d u current new_hash now) | u current new_hash now. u_id u = i} \<union>
     {\<lambda>s. case reset_password_with_token (ad_sha d token) new_hash at now s of
        (None, _) \<Rightarrow> (Inl invalid_token, s)
      | (Some j, _) \<Rightarrow> if j = i then reset_password d token new_hash at now s else (Inl invalid_token, s) |
      token new_hash at now. True}"

lemma version_bumped:
  assumes "\<And>u. ur_id (f u) = ur_id u" and "\<And>u. ur_token_version (f u) = ur_token_version u + 1"
    and "session_version s i = Some v" and "auth_users s' = sql_update (\<lambda>u. ur_id u = i) f (auth_users s)"
  shows "session_version s' i = Some (v + 1)"
proof -
  from assms(3) obtain r where r: "find (\<lambda>u. ur_id u = i) (auth_users s) = Some r" "v = ur_token_version r"
    by (auto simp: session_version_def)
  then have "ur_id r = i" by (auto dest: find_SomeD)
  then show ?thesis
    using r find_sql_update_key [of ur_id f i "\<lambda>u. ur_id u = i" "auth_users s"] assms(1,2,4)
    by (simp add: session_version_def)
qed

lemma logout_bumps:
  "logout_user i s = (Inr r, s') \<Longrightarrow> session_version s i = Some v \<Longrightarrow> session_version s' i = Some (v + 1)"
  by (rule version_bumped [of "\<lambda>u. u\<lparr>ur_token_version := ur_token_version u + 1\<rparr>"])
    (auto simp: logout_user_def revoke_sessions_def split: option.splits)

lemma change_password_bumps:
  assumes "change_password d u current new_hash now s = (Inr r, s')" and "session_version s (u_id u) = Some v"
  shows "session_version s' (u_id u) = Some (v + 1)"
  by (rule version_bumped [of "\<lambda>q. q\<lparr>ur_password_hash := new_hash, ur_token_version := ur_token_version q + 1\<rparr>"])
    (use assms in \<open>auto simp: change_password_def change_password_row_def split: option.splits if_splits\<close>)

lemma auth_users_clear [simp]: "auth_users (clear_login_counter d i s) = auth_users s" "au_tokens (clear_login_counter d i s) = au_tokens s"
  by (simp_all add: clear_login_counter_def split: option.split)

lemma reset_password_bumps:
  assumes "reset_password_with_token (ad_sha d token) new_hash at now s = (Some i, s1)"
    and "reset_password d token new_hash at now s = (r, s')" and "session_version s i = Some v"
  shows "session_version s' i = Some (v + 1)"
  by (rule version_bumped [of "\<lambda>u. u\<lparr>ur_password_hash := new_hash, ur_token_version := ur_token_version u + 1,
      ur_email_verified_at := (case ur_email_verified_at u of None \<Rightarrow> Some at | v \<Rightarrow> v)\<rparr>"])
    (use assms in \<open>auto simp: reset_password_def reset_password_with_token_def split: prod.splits option.splits\<close>)

lemma revocation_bumps:
  assumes "g \<in> revocations d i" and "g s = (Inr (), s')" and "session_version s i = Some v"
  shows "session_version s' i = Some (v + 1)"
  using assms unfolding revocations_def
proof (elim UnE CollectE exE conjE)
  assume "g \<in> {logout_user i}"
  with assms(2,3) show ?thesis by (auto dest: logout_bumps)
next
  fix u current new_hash now
  assume "g = answer_only (change_password d u current new_hash now)" "u_id u = i"
  with assms(2,3) show ?thesis
    by (auto simp: answer_only_def) (metis change_password_bumps prod.collapse)
next
  fix token new_hash at now
  assume "g = (\<lambda>s. case reset_password_with_token (ad_sha d token) new_hash at now s of
        (None, _) \<Rightarrow> (Inl invalid_token, s)
      | (Some j, _) \<Rightarrow> if j = i then reset_password d token new_hash at now s else (Inl invalid_token, s))"
  with assms(2,3) show ?thesis
    by (auto split: prod.splits option.splits if_splits dest: reset_password_bumps)
qed

section \<open>Tokens\<close>

definition token_spent :: "js_string \<Rightarrow> auth_state \<Rightarrow> bool" where
  "token_spent h s \<longleftrightarrow> (\<exists>r. find_token h (au_tokens s) = Some r \<and> at_usedAt r \<noteq> None)"

lemma token_spent_grows: "state_grows s s' \<Longrightarrow> token_spent h s \<Longrightarrow> token_spent h s'"
  by (fastforce simp: state_grows_def tokens_grow_def token_spent_def)

lemma consume_spent: "token_spent h s \<Longrightarrow> lock_owner_and_consume h ty now users (au_tokens s) = (None, au_tokens s)"
  by (auto simp: token_spent_def lock_owner_and_consume_def split: option.split)

lemma consume_Some:
  assumes "lock_owner_and_consume h ty now users t = (Some i, t')"
  obtains r where "find_token h t = Some r" "at_type r = ty" "at_userId r = i" "at_usedAt r = None" "now < at_expiresAt r"
    "t' = sql_update (\<lambda>q. at_tokenHash q = h) (mark_used now) t" "find_token h t' = Some (mark_used now r)"
proof -
  obtain r where r: "find_token h t = Some r" "at_type r = ty" "at_userId r = i" "at_usedAt r = None" "now < at_expiresAt r"
    "t' = sql_update (\<lambda>q. at_tokenHash q = h) (mark_used now) t"
    using assms by (auto simp: lock_owner_and_consume_def split: option.splits if_splits)
  moreover have "at_tokenHash r = h" using r(1) by (auto simp: find_token_def dest: find_SomeD)
  ultimately show ?thesis
    using that find_sql_update_key [of at_tokenHash "mark_used now" h "\<lambda>q. at_tokenHash q = h" t]
    by (simp add: find_token_def mark_used_def)
qed

definition use_of :: "(auth_state \<Rightarrow> (http_error + unit) \<times> auth_state) \<Rightarrow> auth_state \<Rightarrow> unit option \<times> auth_state" where
  "use_of f s = (case f s of (Inl _, s') \<Rightarrow> (None, s') | (Inr u, s') \<Rightarrow> (Some u, s'))"

text \<open>The uses of one token, and everything else that happens, which counts as no use.\<close>

definition token_uses :: "auth_deps \<Rightarrow> js_string \<Rightarrow> (auth_state \<Rightarrow> unit option \<times> auth_state) set" where
  "token_uses d token =
     {use_of (reset_password d token new_hash at now) | new_hash at now. True} \<union>
     {use_of (verify_email d token at now) | at now. True} \<union>
     {\<lambda>s. (None, f s) | f. f \<in> auth_steps d}"

definition spends_token :: "js_string \<Rightarrow> (auth_state \<Rightarrow> (http_error + unit) \<times> auth_state) \<Rightarrow> bool" where
  "spends_token h f \<longleftrightarrow> (\<forall>s. (fst (f s) = Inr () \<longrightarrow> token_spent h (snd (f s)) \<and> \<not> token_spent h s) \<and>
     (fst (f s) \<noteq> Inr () \<longrightarrow> f s = (Inl invalid_token, s)))"

lemma consume_cases:
  obtains (refused) "lock_owner_and_consume h ty now users t = (None, t)"
  | (consumed) i r where "lock_owner_and_consume h ty now users t = (Some i, sql_update (\<lambda>q. at_tokenHash q = h) (mark_used now) t)"
      "find_token h (sql_update (\<lambda>q. at_tokenHash q = h) (mark_used now) t) = Some (mark_used now r)"
      "find_token h t = Some r" "at_usedAt r = None"
proof (cases "lock_owner_and_consume h ty now users t")
  case (Pair a t')
  show ?thesis
  proof (cases a)
    case None
    with Pair have "t' = t" by (auto simp: lock_owner_and_consume_def split: option.splits if_splits)
    with Pair None refused show ?thesis by simp
  next
    case (Some i)
    with Pair have "lock_owner_and_consume h ty now users t = (Some i, t')" by simp
    then show ?thesis by (rule consume_Some) (use Pair Some consumed in auto)
  qed
qed

lemma use_all_keeps_used:
  assumes "find_token h t = Some r" and "at_usedAt r \<noteq> None"
  shows "\<exists>r'. find_token h (use_all_tokens i at t) = Some r' \<and> at_usedAt r' \<noteq> None"
  using assms tokens_grow_intros(3) [of t "\<lambda>r. at_userId r = i \<and> at_usedAt r = None" at]
  unfolding tokens_grow_def use_all_tokens_def by blast

lemma reset_password_spends: "spends_token (ad_sha d token) (reset_password d token new_hash at now)"
  unfolding spends_token_def
proof
  fix s
  show "(fst (reset_password d token new_hash at now s) = Inr () \<longrightarrow>
      token_spent (ad_sha d token) (snd (reset_password d token new_hash at now s)) \<and> \<not> token_spent (ad_sha d token) s) \<and>
    (fst (reset_password d token new_hash at now s) \<noteq> Inr () \<longrightarrow>
      reset_password d token new_hash at now s = (Inl invalid_token, s))"
  proof (cases rule: consume_cases [of "ad_sha d token" PasswordReset now "auth_users s" "au_tokens s"])
    case refused
    then show ?thesis by (simp add: reset_password_def reset_password_with_token_def)
  next
    case (consumed i r)
    with use_all_keeps_used [OF consumed(2), of i at] show ?thesis
      by (auto simp: reset_password_def reset_password_with_token_def token_spent_def mark_used_def)
  qed
qed

lemma verify_email_spends: "spends_token (ad_sha d token) (verify_email d token at now)"
  unfolding spends_token_def
proof
  fix s
  show "(fst (verify_email d token at now s) = Inr () \<longrightarrow>
      token_spent (ad_sha d token) (snd (verify_email d token at now s)) \<and> \<not> token_spent (ad_sha d token) s) \<and>
    (fst (verify_email d token at now s) \<noteq> Inr () \<longrightarrow> verify_email d token at now s = (Inl invalid_token, s))"
  proof (cases rule: consume_cases [of "ad_sha d token" EmailVerification now "auth_users s" "au_tokens s"])
    case refused
    then show ?thesis by (simp add: verify_email_def verify_email_with_token_def)
  next
    case (consumed i r)
    then show ?thesis by (auto simp: verify_email_def verify_email_with_token_def token_spent_def mark_used_def)
  qed
qed

lemma use_of_spends:
  assumes "spends_token h f"
  shows "use_of f s = (Some u, s') \<Longrightarrow> token_spent h s'"
    and "use_of f s = (q, s') \<Longrightarrow> token_spent h s \<Longrightarrow> q = None \<and> token_spent h s'"
  using spec [OF assms [unfolded spends_token_def], of s]
  by (auto simp: use_of_def split: prod.splits sum.splits)

text \<open>What an operation of \<open>token_uses\<close> is.\<close>

lemma token_uses_cases:
  assumes "f \<in> token_uses d token"
  obtains (spends) g where "f = use_of g" "spends_token (ad_sha d token) g"
  | (other) g where "f = (\<lambda>s. (None, g s))" "g \<in> auth_steps d"
  using assms reset_password_spends verify_email_spends unfolding token_uses_def by blast

interpretation auth_token_use: single_use "token_spent (ad_sha d token)" "token_uses d token" for d token
proof
  fix f s s'
  assume f: "f \<in> token_uses d token"
  show "token_spent (ad_sha d token) s'" if "f s = (Some u, s')" for u
    using f by (cases rule: token_uses_cases) (use that use_of_spends(1) in auto)
  show "q = None \<and> token_spent (ad_sha d token) s'" if "f s = (q, s')" "token_spent (ad_sha d token) s" for q
    using f
  proof (cases rule: token_uses_cases)
    case (spends g)
    with that use_of_spends(2) [OF spends(2), of s q s'] show ?thesis by simp
  next
    case (other g)
    with that token_spent_grows [OF step_grows [of g d s]] show ?thesis by auto
  qed
qed

section \<open>Properties\<close>

definition demo_auth :: auth_deps where
  "demo_auth = \<lparr>ad_lower = id, ad_sha = id, ad_matches = (=), ad_redis = True\<rparr>"

definition demo_auth_state :: auth_state where
  "demo_auth_state = \<lparr>au_accounts = \<lparr>us_users = [new_user_row (js ''u1'') (js ''a'') (js ''pw'') (js ''A'') 0], us_emitted = []\<rparr>,
     au_tokens = [\<lparr>at_id = js ''k'', at_userId = js ''u1'', at_type = EmailVerification, at_tokenHash = js ''t'',
       at_expiresAt = 100, at_usedAt = None, at_createdAt = 0\<rparr>], au_attempts = Map.empty, au_mails = []\<rparr>"

text \<open>C29: A token from an email works at most once: in any sequence of password resets and
  verifications with it, at whatever times and with whatever else happens between them (further mails,
  logins, password changes, other tokens, accounts disabled and enabled), at most one succeeds.\<close>

theorem emailed_token_used_once:
  assumes "set fs \<subseteq> token_uses d token"
  shows "wins fs s \<le> 1"
  by (rule auth_token_use.wins_at_most_once [OF assms])

theorem emailed_token_used_once_witness:
  "wins [use_of (verify_email demo_auth (js ''t'') 5 5), use_of (reset_password demo_auth (js ''t'') (js ''h'') 6 6),
     use_of (verify_email demo_auth (js ''t'') 7 7)] demo_auth_state \<le> 1"
proof -
  have "use_of (verify_email demo_auth (js ''t'') at now) \<in> token_uses demo_auth (js ''t'')"
    "use_of (reset_password demo_auth (js ''t'') h at now) \<in> token_uses demo_auth (js ''t'')" for at now h
    unfolding token_uses_def by blast+
  then show ?thesis using emailed_token_used_once [of "[use_of (verify_email demo_auth (js ''t'') 5 5),
      use_of (reset_password demo_auth (js ''t'') (js ''h'') 6 6), use_of (verify_email demo_auth (js ''t'') 7 7)]"
      demo_auth "js ''t''" demo_auth_state] by simp
qed

text \<open>C23: Logging out, changing the password and resetting it end every session there is: an access
  token that an earlier login gave is refused from then on, whatever operations ran before and run
  after, and in whatever order.\<close>

theorem ended_session_refused:
  assumes "login_user d email password now s0 = (Inr p, s1, cs)" and "distinct (map ur_id (auth_users s0))"
    and "set fs \<subseteq> auth_steps d" and "s2 = fold (\<lambda>f. f) fs s1"
    and "g \<in> revocations d (jp_sub p)" and "g s2 = (Inr (), s3)"
    and "set gs \<subseteq> auth_steps d" and "s4 = fold (\<lambda>f. f) gs s3"
  shows "validate_jwt p (auth_users s4) = Inl (Unauthorized (js ''Invalid token''))"
proof -
  obtain v where v: "session_version s0 (jp_sub p) = Some v" "jp_tv p = Some v"
    using login_payload [OF assms(1,2)] by blast
  have "state_grows s0 s1" using login_grows [of s0 d email password now] assms(1) by simp
  from this v(1) obtain v1 where "session_version s1 (jp_sub p) = Some v1" "v \<le> v1" by (rule session_version_grows)
  then obtain v2 where v2: "session_version s2 (jp_sub p) = Some v2" "v \<le> v2"
    using session_version_grows [OF steps_grow [OF assms(3), of s1]] assms(4) by (metis order_trans)
  then have "session_version s3 (jp_sub p) = Some (v2 + 1)" using revocation_bumps [OF assms(5,6)] by blast
  then obtain v4 where "session_version s4 (jp_sub p) = Some v4" "v2 + 1 \<le> v4"
    using session_version_grows [OF steps_grow [OF assms(7), of s3]] assms(8) by metis
  with v2(2) v(2) show ?thesis
    by (auto simp: validate_jwt_def get_user_by_id_def find_user_by_id_def session_version_def)
qed


theorem ended_session_refused_witness:
  "validate_jwt \<lparr>jp_sub = js ''u1'', jp_email = js ''a'', jp_tv = Some 0\<rparr>
     (auth_users (snd (logout_user (js ''u1'') (fst (snd (login_user demo_auth (js ''a'') (js ''pw'') 1 demo_auth_state))))))
     = Inl (Unauthorized (js ''Invalid token''))"
proof (rule ended_session_refused [of demo_auth "js ''a''" "js ''pw''" 1 demo_auth_state _ _ _ "[]" _ "logout_user (js ''u1'')" _ "[]"])
  let ?s1 = "fst (snd (login_user demo_auth (js ''a'') (js ''pw'') 1 demo_auth_state))"
  show "login_user demo_auth (js ''a'') (js ''pw'') 1 demo_auth_state =
    (Inr \<lparr>jp_sub = js ''u1'', jp_email = js ''a'', jp_tv = Some 0\<rparr>, ?s1, [js ''pw''])"
    by (intro prod_eqI) (code_simp, simp, code_simp)
  show "distinct (map ur_id (auth_users demo_auth_state))" by (simp add: demo_auth_state_def auth_users_def)
  show "logout_user (js ''u1'') ?s1 = (Inr (), snd (logout_user (js ''u1'') ?s1))"
    by (rule prod_eqI) (code_simp, simp)
qed (simp_all add: revocations_def)

text \<open>C30: A failed login tells nothing about the account: whatever the two databases hold, with the same
  attempts counted, two failed logins give the same answer, make the same number of password
  comparisons, count the same attempt and write neither accounts, tokens nor mails. An unknown
  address, a wrong password and a disabled account cannot be told apart.\<close>

theorem login_reveals_no_account:
  assumes "login_user d email password now s = (Inl e, s', cs)" and "login_user d email password now t = (Inl e', t', cs')"
    and "au_attempts s = au_attempts t"
  shows "e = e' \<and> length cs = length cs' \<and> au_attempts s' = au_attempts t' \<and>
    auth_users s' = auth_users s \<and> au_tokens s' = au_tokens s \<and> au_mails s' = au_mails s"
  using assms
  by (auto simp: login_user_def Let_def split: prod.splits option.splits if_splits)

theorem login_reveals_no_account_witness:
  "length (snd (snd (login_user demo_auth (js ''a'') (js ''x'') 1 demo_auth_state))) =
   length (snd (snd (login_user demo_auth (js ''a'') (js ''x'') 1 (set_auth_users [] demo_auth_state))))"
proof -
  have "fst (login_user demo_auth (js ''a'') (js ''x'') 1 demo_auth_state) = Inl invalid_credentials"
    "fst (login_user demo_auth (js ''a'') (js ''x'') 1 (set_auth_users [] demo_auth_state)) = Inl invalid_credentials"
    by code_simp+
  then show ?thesis
    using login_reveals_no_account [of demo_auth "js ''a''" "js ''x''" 1 demo_auth_state invalid_credentials _ _
      "set_auth_users [] demo_auth_state" invalid_credentials] by (simp add: prod_eq_iff set_auth_users_def)
qed

end
