(* ===== verification/SessionEvents.thy ===== *)
theory SessionEvents
  imports Auth
begin

text \<open>
  Who may hold a session: the version of an account while it is enabled. Every operation of
  \<open>Auth\<close> and \<open>Users\<close> that takes this away from an account emits one of the two events on which the
  WebSocket gateway evicts (\<open>domain/users/user-events.ts\<close>).
\<close>

definition row_access :: "user_row \<Rightarrow> int option" where
  "row_access r = (if ur_disabled_at r \<noteq> None then None else Some (ur_token_version r))"

definition access :: "ident \<Rightarrow> user_row list \<Rightarrow> int option" where
  "access u t = (case find (\<lambda>r. ur_id r = u) t of None \<Rightarrow> None | Some r \<Rightarrow> row_access r)"

fun evicts :: "ident \<Rightarrow> event \<Rightarrow> bool" where
  "evicts u (UserDisabled i _) = (i = u)"
| "evicts u (UserSessionsRevoked i) = (i = u)"
| "evicts u _ = False"

text \<open>The audited event that goes with it (\<open>domain/audit/audit-events.ts\<close>).\<close>

fun ends_session :: "ident \<Rightarrow> event \<Rightarrow> bool" where
  "ends_session u (AuthLogout i) = (i = u)"
| "ends_session u (AuthPasswordChanged i) = (i = u)"
| "ends_session u (AuthPasswordResetCompleted i) = (i = u)"
| "ends_session u (UserDisabled i _) = (i = u)"
| "ends_session u _ = False"

definition session_end :: "ident \<Rightarrow> event list \<Rightarrow> bool" where
  "session_end u evs \<longleftrightarrow> list_ex (evicts u) evs \<and> list_ex (ends_session u) evs"

definition announced :: "user_row list \<Rightarrow> event list \<Rightarrow> user_row list \<Rightarrow> bool" where
  "announced t evs t' \<longleftrightarrow> (\<forall>u v. access u t = Some v \<longrightarrow> access u t' = Some v \<or> session_end u evs)"

lemma session_end_simps [simp]:
  "session_end u [e] = (evicts u e \<and> ends_session u e)"
  "session_end u [e, e'] = ((evicts u e \<or> evicts u e') \<and> (ends_session u e \<or> ends_session u e'))"
  by (simp_all add: session_end_def)

definition emitted :: "auth_state \<Rightarrow> event list" where
  "emitted s = us_emitted (au_accounts s)"

definition new_events :: "auth_state \<Rightarrow> auth_state \<Rightarrow> event list" where
  "new_events s s' = drop (length (emitted s)) (emitted s')"

lemma access_keeps:
  assumes "\<And>r. ur_id (f r) = ur_id r" and "\<And>r v. row_access r = Some v \<Longrightarrow> row_access (f r) = Some v"
  shows "access u t = Some v \<Longrightarrow> access u (sql_update p f t) = Some v"
  using assms find_sql_update_key [of ur_id f u p t] by (auto simp: access_def split: option.splits)

lemma access_other:
  assumes "\<And>r. ur_id (f r) = ur_id r" and "u \<noteq> i"
  shows "access u (sql_update (\<lambda>r. ur_id r = i) f t) = access u t"
proof -
  have "find (\<lambda>r. ur_id r = u) (sql_update (\<lambda>r. ur_id r = i) f t) = find (\<lambda>r. ur_id r = u) t"
    using assms by (induction t) auto
  then show ?thesis by (simp add: access_def)
qed

lemma announced_keeps: "(\<And>u v. access u t = Some v \<Longrightarrow> access u t' = Some v) \<Longrightarrow> announced t evs t'"
  by (simp add: announced_def)

lemma announced_refl [simp]: "announced t evs t"
  by (simp add: announced_def)

lemma announced_append [simp]: "announced t evs (t @ us)"
  by (rule announced_keeps) (simp add: access_def find_append split: option.splits)

lemma announced_evicting:
  "(\<And>r. ur_id (f r) = ur_id r) \<Longrightarrow> session_end i evs \<Longrightarrow> announced t evs (sql_update (\<lambda>r. ur_id r = i) f t)"
  unfolding announced_def using access_other by metis

lemma emitted_simps [simp]:
  "emitted (emit_auth e s) = emitted s @ [e]" "emitted (set_auth_users t s) = emitted s"
  "emitted (s\<lparr>au_tokens := ts\<rparr>) = emitted s" "emitted (s\<lparr>au_attempts := st\<rparr>) = emitted s"
  "emitted (s\<lparr>au_mails := ms\<rparr>) = emitted s" "emitted (send_mail m s) = emitted s"
  by (simp_all add: emitted_def emit_auth_def emit_user_def set_auth_users_def send_mail_def)

definition announces :: "(auth_state \<Rightarrow> auth_state) \<Rightarrow> bool" where
  "announces f \<longleftrightarrow> (\<forall>s. \<exists>evs. emitted (f s) = emitted s @ evs \<and> announced (auth_users s) evs (auth_users (f s)))"

lemma login_announces: "announces (\<lambda>s. fst (snd (login_user d email password now s)))"
  unfolding announces_def
proof
  fix s
  have "announced (auth_users s) evs (update_last_active_at i now (auth_users s))" for i evs
    unfolding update_last_active_at_def by (intro announced_keeps access_keeps) (auto simp: row_access_def split: if_splits)
  then show "\<exists>evs. emitted (fst (snd (login_user d email password now s))) = emitted s @ evs \<and>
      announced (auth_users s) evs (auth_users (fst (snd (login_user d email password now s))))"
    by (auto simp: login_user_def Let_def split: prod.split option.split)
qed

lemma logout_announces: "announces (\<lambda>s. snd (logout_user i s))"
  unfolding announces_def
  by (auto simp: logout_user_def revoke_sessions_def intro!: announced_evicting split: option.split)

lemma verify_announces: "announces (\<lambda>s. snd (verify_email d token at' now s))"
  unfolding announces_def
proof
  fix s
  have "announced (auth_users s) evs (sql_update p (\<lambda>u. u\<lparr>ur_email_verified_at := e u\<rparr>) (auth_users s))" for p e evs
    by (intro announced_keeps access_keeps) (auto simp: row_access_def split: if_splits)
  then show "\<exists>evs. emitted (snd (verify_email d token at' now s)) = emitted s @ evs \<and>
      announced (auth_users s) evs (auth_users (snd (verify_email d token at' now s)))"
    by (auto simp: verify_email_def verify_email_with_token_def split: prod.split option.split)
qed

lemma change_password_announces: "announces (\<lambda>s. snd (change_password d u current new_hash now s))"
  unfolding announces_def
  by (auto simp: change_password_def change_password_row_def intro!: announced_evicting split: option.split prod.split)

lemma emitted_clear [simp]: "emitted (clear_login_counter d i s) = emitted s"
  by (simp add: clear_login_counter_def split: option.split)

lemma reset_password_announces: "announces (\<lambda>s. snd (reset_password d token new_hash at' now s))"
  unfolding announces_def
  by (auto simp: reset_password_def reset_password_with_token_def intro!: announced_evicting split: option.split prod.split)

lemma mail_announces:
  "announces (resend_verification u)" "announces (forgot_password d email)"
  "announces (send_verification_email d base delivered new_id token user at' now)"
  "announces (send_password_reset_email d base delivered new_id token email reason at' now)"
  unfolding announces_def
  by (auto simp: resend_verification_def forgot_password_def send_verification_email_def send_password_reset_email_def Let_def
      split: option.split prod.split sum.split bool.split)

lemma account_announces:
  "announces (on_accounts (\<lambda>a. snd (register_user lower email name hash new_id others now a)))"
  "announces (on_accounts (\<lambda>a. snd (disable_user actor role target now a)))"
  "announces (on_accounts (\<lambda>a. snd (enable_user actor role target a)))"
  "announces (on_accounts (\<lambda>a. snd (accept_ai_consent i version now a)))"
  "announces (on_accounts (withdraw_ai_consent i))"
proof -
  have on: "announces (on_accounts f)"
    if "\<And>a. \<exists>evs. us_emitted (f a) = us_emitted a @ evs \<and> announced (us_users a) evs (us_users (f a))" for f
    using that by (simp add: announces_def emitted_def auth_users_def on_accounts_def)
  have id: "u_id u = target" if "find_user_by_id target t = Some u" for t u
    using that by (auto simp: find_user_by_id_def dest: find_SomeD)
  have consent: "announced t evs (set_ai_consent i ca v t)" for t evs i ca v
    unfolding set_ai_consent_def by (intro announced_keeps access_keeps) (auto simp: row_access_def split: if_splits)
  have enable: "announced t evs (set_disabled_at i None t)" for t evs i
    unfolding set_disabled_at_def by (intro announced_keeps access_keeps) (auto simp: row_access_def split: if_splits)
  have disable: "announced t evs (set_disabled_at i da t)" if "session_end i evs" for t evs i da
    unfolding set_disabled_at_def using that by (intro announced_evicting) simp_all
  show "announces (on_accounts (\<lambda>a. snd (register_user lower email name hash new_id others now a)))"
  proof (rule on)
    fix a :: users_state
    have "announced (us_users a) evs t" if "create_user i e h n w (us_users a @ others) = (r, t)" for i e h n w r t evs
      using that by (auto simp: create_user_def Let_def split: if_splits)
    then show "\<exists>evs. us_emitted (snd (register_user lower email name hash new_id others now a)) = us_emitted a @ evs \<and>
        announced (us_users a) evs (us_users (snd (register_user lower email name hash new_id others now a)))"
      by (auto simp: register_user_def Let_def emit_user_def split: option.split prod.split sum.split http_error.split)
  qed
  show "announces (on_accounts (\<lambda>a. snd (disable_user actor role target now a)))"
    by (rule on) (auto simp: disable_user_def emit_user_def Let_def id intro: disable split: option.split)
  show "announces (on_accounts (\<lambda>a. snd (enable_user actor role target a)))"
    by (rule on) (auto simp: enable_user_def emit_user_def intro: enable split: option.split)
  show "announces (on_accounts (\<lambda>a. snd (accept_ai_consent i version now a)))"
    by (rule on) (auto simp: accept_ai_consent_def emit_user_def Let_def intro: consent split: option.split)
  show "announces (on_accounts (withdraw_ai_consent i))"
    by (rule on) (auto simp: withdraw_ai_consent_def emit_user_def intro: consent)
qed

lemma auth_step_announces: "f \<in> auth_steps d \<Longrightarrow> announces f"
  unfolding auth_steps_def
  by (elim UnE CollectE exE conjE)
    (simp_all add: login_announces logout_announces verify_announces change_password_announces reset_password_announces
      mail_announces account_announces)

lemma auth_step_new_events:
  assumes "f \<in> auth_steps d"
  shows "announced (auth_users s) (new_events s (f s)) (auth_users (f s))"
  using auth_step_announces [OF assms] unfolding announces_def new_events_def by (metis append_eq_conv_conj)

end
