(* ===== verification/PlanningGateway.thy ===== *)
theory PlanningGateway
  imports PlanningResults SessionEvents
begin

text \<open>
  The WebSocket gateway (\<open>presentation/context/planning.gateway.ts\<close>): handshake, rooms, expiry timers,
  eviction, subscription and the relays. Of socket.io the model keeps what the code uses: a socket is
  connected or not, is in at most one room, and receives events while it is connected; a disconnected
  socket is in no room, and \<open>handleDisconnect\<close> has run. \<open>verifyAsync\<close> is a parameter: it answers with the
  payload of the token or an error. Each block between two awaits is one operation.
\<close>

section \<open>Sockets\<close>

record ws_payload = jwt_payload +
  wp_exp :: "int option"

datatype ws_failure = WsNotFound | WsNamed js_string | WsUnknown

datatype client_event =
    Ready
  | PlanningError js_string js_string
  | ClientStatus ident job_status
  | ClientCompleted ident "json_obj option"
  | ClientFailed ident "js_string option" "js_string option"
  | ClientChunk ident int chunk_body

record socket =
  sk_connected :: bool
  sk_room :: "ident option"
  sk_userId :: "ident option"
  sk_tokenVersion :: "int option"
  sk_received :: "client_event list"

text \<open>A timer: when it fires, and the deadline it was armed for.\<close>

record gateway_state =
  gw_sockets :: "ident \<rightharpoonup> socket"
  gw_timers :: "ident \<rightharpoonup> time \<times> time"
  gw_warnings :: "js_string list"

definition new_socket :: socket where
  "new_socket = \<lparr>sk_connected = True, sk_room = None, sk_userId = None, sk_tokenVersion = None, sk_received = []\<rparr>"

definition update_socket :: "(socket \<Rightarrow> socket) \<Rightarrow> ident \<Rightarrow> gateway_state \<Rightarrow> gateway_state" where
  "update_socket f c g = g\<lparr>gw_sockets := (gw_sockets g)(c := map_option f (gw_sockets g c))\<rparr>"

definition clear_expiry :: "ident \<Rightarrow> gateway_state \<Rightarrow> gateway_state" where
  "clear_expiry c g = g\<lparr>gw_timers := (gw_timers g)(c := None)\<rparr>"

definition closed :: "socket \<Rightarrow> socket" where
  "closed k = k\<lparr>sk_connected := False, sk_room := None\<rparr>"

definition disconnect :: "ident \<Rightarrow> gateway_state \<Rightarrow> gateway_state" where
  "disconnect c g = clear_expiry c (update_socket closed c g)"

definition receive :: "client_event \<Rightarrow> socket \<Rightarrow> socket" where
  "receive e k = (if sk_connected k then k\<lparr>sk_received := sk_received k @ [e]\<rparr> else k)"

definition in_room :: "ident \<Rightarrow> gateway_state \<Rightarrow> ident \<Rightarrow> bool" where
  "in_room u g c \<longleftrightarrow> (case gw_sockets g c of None \<Rightarrow> False | Some k \<Rightarrow> sk_room k = Some u)"

text \<open>\<open>server.to(room).emit\<close> and \<open>server.in(room).disconnectSockets\<close>.\<close>

definition send_to_room :: "ident \<Rightarrow> client_event \<Rightarrow> gateway_state \<Rightarrow> gateway_state" where
  "send_to_room u e g = g\<lparr>gw_sockets := (\<lambda>c. if in_room u g c then map_option (receive e) (gw_sockets g c) else gw_sockets g c)\<rparr>"

definition disconnect_room :: "ident \<Rightarrow> gateway_state \<Rightarrow> gateway_state" where
  "disconnect_room u g = g\<lparr>
     gw_sockets := (\<lambda>c. if in_room u g c then map_option closed (gw_sockets g c) else gw_sockets g c),
     gw_timers := (\<lambda>c. if in_room u g c then None else gw_timers g c)\<rparr>"

section \<open>Expiry\<close>

definition max_timeout_ms :: int where
  "max_timeout_ms = 2147483647"

definition schedule_expiry :: "ident \<Rightarrow> time \<Rightarrow> time \<Rightarrow> gateway_state \<Rightarrow> gateway_state" where
  "schedule_expiry c expires_at now g =
     (let g1 = clear_expiry c g; remaining = expires_at - now in
      if remaining \<le> 0 then disconnect c g1
      else g1\<lparr>gw_timers := (gw_timers g1)(c \<mapsto> (now + min remaining max_timeout_ms, expires_at))\<rparr>)"

text \<open>The callback of a timer, at the time it runs.\<close>

definition fire_timer :: "ident \<Rightarrow> time \<Rightarrow> gateway_state \<Rightarrow> gateway_state" where
  "fire_timer c now g =
     (case gw_timers g c of
        None \<Rightarrow> g
      | Some (_, expires_at) \<Rightarrow> schedule_expiry c expires_at now (g\<lparr>gw_timers := (gw_timers g)(c := None)\<rparr>))"

definition on_module_destroy :: "gateway_state \<Rightarrow> gateway_state" where
  "on_module_destroy g = g\<lparr>gw_timers := Map.empty\<rparr>"

section \<open>Handshake\<close>

definition is_auth_failure :: "ws_failure \<Rightarrow> bool" where
  "is_auth_failure f = (case f of
     WsNotFound \<Rightarrow> True
   | WsNamed n \<Rightarrow> n \<in> set [js ''JsonWebTokenError'', js ''TokenExpiredError'', js ''NotBeforeError'']
   | WsUnknown \<Rightarrow> False)"

definition handshake_failed :: "ident \<Rightarrow> ws_failure \<Rightarrow> gateway_state \<Rightarrow> gateway_state" where
  "handshake_failed c f g =
     disconnect c
       (if is_auth_failure f then g
        else g\<lparr>gw_warnings := gw_warnings g @ [js ''Socket handshake failed unexpectedly ('' @
               (case f of WsNamed n \<Rightarrow> n | _ \<Rightarrow> js ''unknown'') @ js '')'']\<rparr>)"

definition join_room :: "ident \<Rightarrow> socket \<Rightarrow> socket" where
  "join_room u k = (if sk_connected k then k\<lparr>sk_room := Some u\<rparr> else k)"

text \<open>Up to the join: the payload when the handshake goes on.\<close>

definition begin_handshake ::
    "ident \<Rightarrow> js_string option \<Rightarrow> ws_failure + ws_payload \<Rightarrow> gateway_state \<Rightarrow> ws_payload option \<times> gateway_state" where
  "begin_handshake c token verified g =
     (case token of
        None \<Rightarrow> (None, disconnect c g)
      | Some t \<Rightarrow>
          (if t = [] then (None, disconnect c g)
           else
             (case verified of
                Inl f \<Rightarrow> (None, handshake_failed c f g)
              | Inr p \<Rightarrow> (Some p, update_socket (join_room (jp_sub p)) c g))))"

text \<open>The account lookup of the use-case; \<open>outage\<close> is an error of the database.\<close>

definition look_up_user :: "ws_failure option \<Rightarrow> ident \<Rightarrow> user_row list \<Rightarrow> ws_failure + user" where
  "look_up_user outage u t =
     (case outage of
        Some f \<Rightarrow> Inl f
      | None \<Rightarrow>
          (case get_user_by_id u t of
             Inl (NotFound _) \<Rightarrow> Inl WsNotFound
           | Inl _ \<Rightarrow> Inl WsUnknown
           | Inr x \<Rightarrow> Inr x))"

definition token_version :: "ws_payload \<Rightarrow> int" where
  "token_version p = (case jp_tv p of None \<Rightarrow> 0 | Some v \<Rightarrow> v)"

definition is_connected :: "ident \<Rightarrow> gateway_state \<Rightarrow> bool" where
  "is_connected c g \<longleftrightarrow> (case gw_sockets g c of None \<Rightarrow> False | Some k \<Rightarrow> sk_connected k)"

definition finish_handshake ::
    "ident \<Rightarrow> ws_payload \<Rightarrow> ws_failure + user \<Rightarrow> time \<Rightarrow> gateway_state \<Rightarrow> gateway_state" where
  "finish_handshake c p looked now g =
     (case looked of
        Inl f \<Rightarrow> handshake_failed c f g
      | Inr u \<Rightarrow>
          (if is_disabled u \<or> token_version p \<noteq> u_tokenVersion u then disconnect c g
           else
             (case wp_exp p of
                None \<Rightarrow> disconnect c g
              | Some ex \<Rightarrow>
                  (if \<not> is_connected c g then disconnect c g
                   else update_socket (\<lambda>k. receive Ready
                          (k\<lparr>sk_userId := Some (jp_sub p), sk_tokenVersion := Some (token_version p)\<rparr>)) c
                        (schedule_expiry c (ex * 1000) now g)))))"

definition handle_disconnect :: "ident \<Rightarrow> gateway_state \<Rightarrow> gateway_state" where
  "handle_disconnect c g = clear_expiry c g"

section \<open>Eviction, relays, subscription\<close>

text \<open>\<open>handleUserDisabled\<close> and \<open>handleUserSessionsRevoked\<close>.\<close>

definition handle_user_event :: "event \<Rightarrow> gateway_state \<Rightarrow> gateway_state" where
  "handle_user_event e g =
     (case e of
        UserDisabled u _ \<Rightarrow> disconnect_room u g
      | UserSessionsRevoked u \<Rightarrow> disconnect_room u g
      | _ \<Rightarrow> g)"

fun client_event_of :: "announcement \<Rightarrow> client_event" where
  "client_event_of (PlanningStatus i _ st) = ClientStatus i st"
| "client_event_of (PlanningCompleted i _ r) = ClientCompleted i r"
| "client_event_of (PlanningFailed i _ code msg) = ClientFailed i code msg"
| "client_event_of (PlanningChunk i _ n b) = ClientChunk i n b"

definition handle_announcement :: "announcement \<Rightarrow> gateway_state \<Rightarrow> gateway_state" where
  "handle_announcement a g = send_to_room (announced_to a) (client_event_of a) g"

definition to_client_event :: "planning_job \<Rightarrow> client_event" where
  "to_client_event j =
     (case pj_status j of
        Completed \<Rightarrow> ClientCompleted (pj_id j) (pj_result j)
      | Failed \<Rightarrow> ClientFailed (pj_id j) (pj_errorCode j) (pj_errorMessage j)
      | st \<Rightarrow> ClientStatus (pj_id j) st)"

text \<open>Before the first await: the user, the job asked for; nothing when the message is ignored.\<close>

definition subscribe_request :: "ident \<Rightarrow> json option \<Rightarrow> gateway_state \<Rightarrow> (ident \<times> js_string) option" where
  "subscribe_request c job_id g =
     (case gw_sockets g c of
        None \<Rightarrow> None
      | Some k \<Rightarrow>
          (case sk_userId k of
             None \<Rightarrow> None
           | Some u \<Rightarrow>
               (if u = [] then None
                else case job_id of Some (JStr i) \<Rightarrow> if i = [] then None else Some (u, i) | _ \<Rightarrow> None)))"

text \<open>After the account lookup: whether the job is looked up, and the error that is thrown.\<close>

definition check_subscriber ::
    "ident \<Rightarrow> ws_failure + user \<Rightarrow> gateway_state \<Rightarrow> bool \<times> ws_failure option \<times> gateway_state" where
  "check_subscriber c looked g =
     (case looked of
        Inl WsNotFound \<Rightarrow> (False, None, disconnect c g)
      | Inl f \<Rightarrow> (False, Some f, disconnect c g)
      | Inr u \<Rightarrow>
          (let version = (case gw_sockets g c of None \<Rightarrow> 0
                 | Some k \<Rightarrow> (case sk_tokenVersion k of None \<Rightarrow> 0 | Some v \<Rightarrow> v)) in
           if is_disabled u \<or> version \<noteq> u_tokenVersion u then (False, None, disconnect c g) else (True, None, g)))"

text \<open>After the job lookup; \<open>outage\<close> is an error of the database.\<close>

definition answer_subscription ::
    "ident \<Rightarrow> js_string \<Rightarrow> ws_failure option \<Rightarrow> http_error + planning_job \<Rightarrow> gateway_state \<Rightarrow> ws_failure option \<times> gateway_state" where
  "answer_subscription c i outage found g =
     (case outage of
        Some WsNotFound \<Rightarrow> (None, update_socket (receive (PlanningError i (js ''not found''))) c g)
      | Some f \<Rightarrow> (Some f, g\<lparr>gw_warnings := gw_warnings g @ [js ''Unexpected failure handling subscribe for job '' @ i @
            js '' ('' @ (case f of WsNamed n \<Rightarrow> n | _ \<Rightarrow> js ''unknown'') @ js '')'']\<rparr>)
      | None \<Rightarrow>
          (case found of
             Inr j \<Rightarrow> (None, update_socket (receive (to_client_event j)) c g)
           | Inl _ \<Rightarrow> (None, update_socket (receive (PlanningError i (js ''not found''))) c g)))"

text \<open>The whole handler; \<open>users\<close>, \<open>jobs\<close> are the databases when they are read.\<close>

definition handle_subscribe ::
    "ident \<Rightarrow> json option \<Rightarrow> ws_failure option \<Rightarrow> user_row list \<Rightarrow> (gateway_state \<Rightarrow> gateway_state) \<Rightarrow>
     ws_failure option \<Rightarrow> job_store \<Rightarrow> (gateway_state \<Rightarrow> gateway_state) \<Rightarrow> gateway_state \<Rightarrow> ws_failure option \<times> gateway_state" where
  "handle_subscribe c job_id user_outage users meanwhile job_outage jobs meanwhile' g =
     (case subscribe_request c job_id g of
        None \<Rightarrow> (None, g)
      | Some (u, i) \<Rightarrow>
          (case check_subscriber c (look_up_user user_outage u users) (meanwhile g) of
             (False, thrown, g') \<Rightarrow> (thrown, g')
           | (True, _, g') \<Rightarrow> answer_subscription c i job_outage (get_planning_job i u jobs) (meanwhile' g')))"

section \<open>Interleavings\<close>

text \<open>
  How far the handshake of a socket is, the accounts with the events they have emitted and the gateway has
  not handled, and the clock. The gateway and the accounts share one process; the blocks between
  awaits interleave freely.
\<close>

datatype handshake = Opened | Joined ws_payload | LookedUp ws_payload "ws_failure + user" | Done ws_payload | Refused

record ws_world =
  ww_gate :: gateway_state
  ww_auth :: auth_state
  ww_events :: "event list"
  ww_stage :: "ident \<rightharpoonup> handshake"
  ww_now :: time

inductive ws_step :: "auth_deps \<Rightarrow> ws_world \<Rightarrow> ws_world \<Rightarrow> bool" for d where
  ws_open: "ww_stage w c = None \<Longrightarrow> ws_step d w (w\<lparr>
    ww_gate := (ww_gate w)\<lparr>gw_sockets := (gw_sockets (ww_gate w))(c \<mapsto> new_socket)\<rparr>, ww_stage := (ww_stage w)(c \<mapsto> Opened)\<rparr>)"
| ws_begin: "ww_stage w c = Some Opened \<Longrightarrow> begin_handshake c token verified (ww_gate w) = (p, g) \<Longrightarrow>
    ws_step d w (w\<lparr>ww_gate := g, ww_stage := (ww_stage w)(c \<mapsto> (case p of None \<Rightarrow> Refused | Some q \<Rightarrow> Joined q))\<rparr>)"
| ws_look_up: "ww_stage w c = Some (Joined p) \<Longrightarrow>
    ws_step d w (w\<lparr>ww_stage := (ww_stage w)(c \<mapsto> LookedUp p (look_up_user outage (jp_sub p) (auth_users (ww_auth w))))\<rparr>)"
| ws_finish: "ww_stage w c = Some (LookedUp p r) \<Longrightarrow>
    ws_step d w (w\<lparr>ww_gate := finish_handshake c p r (ww_now w) (ww_gate w), ww_stage := (ww_stage w)(c \<mapsto> Done p)\<rparr>)"
| ws_leave: "ws_step d w (w\<lparr>ww_gate := disconnect c (ww_gate w)\<rparr>)"
| ws_write: "f \<in> auth_steps d \<Longrightarrow>
    ws_step d w (w\<lparr>ww_auth := f (ww_auth w), ww_events := ww_events w @ new_events (ww_auth w) (f (ww_auth w))\<rparr>)"
| ws_event: "ww_events w = xs @ e # ys \<Longrightarrow> ws_step d w (w\<lparr>ww_gate := handle_user_event e (ww_gate w), ww_events := xs @ ys\<rparr>)"
| ws_announce: "ws_step d w (w\<lparr>ww_gate := handle_announcement a (ww_gate w)\<rparr>)"
| ws_check: "check_subscriber c looked (ww_gate w) = (go, err, g) \<Longrightarrow> ws_step d w (w\<lparr>ww_gate := g\<rparr>)"
| ws_answer: "answer_subscription c i outage found (ww_gate w) = (err, g) \<Longrightarrow> ws_step d w (w\<lparr>ww_gate := g\<rparr>)"
| ws_timer: "gw_timers (ww_gate w) c = Some (fires, ex) \<Longrightarrow> fires \<le> ww_now w \<Longrightarrow>
    ws_step d w (w\<lparr>ww_gate := fire_timer c (ww_now w) (ww_gate w)\<rparr>)"
| ws_tick: "ww_now w \<le> now \<Longrightarrow> ws_step d w (w\<lparr>ww_now := now\<rparr>)"

definition ws_start :: "auth_state \<Rightarrow> time \<Rightarrow> ws_world" where
  "ws_start s now = \<lparr>ww_gate = \<lparr>gw_sockets = Map.empty, gw_timers = Map.empty, gw_warnings = []\<rparr>, ww_auth = s, ww_events = [],
     ww_stage = Map.empty, ww_now = now\<rparr>"

definition ws_reaches :: "auth_deps \<Rightarrow> ws_world \<Rightarrow> bool" where
  "ws_reaches d w \<longleftrightarrow> (\<exists>s now. (ws_step d)\<^sup>*\<^sup>* (ws_start s now) w)"

section \<open>What every connected socket satisfies\<close>

definition vouched :: "ws_world \<Rightarrow> ws_payload \<Rightarrow> bool" where
  "vouched w p \<longleftrightarrow> access (jp_sub p) (auth_users (ww_auth w)) = Some (token_version p) \<or> list_ex (evicts (jp_sub p)) (ww_events w)"

fun stage_ok :: "ws_world \<Rightarrow> ident \<Rightarrow> socket \<Rightarrow> handshake \<Rightarrow> bool" where
  "stage_ok w c k Opened \<longleftrightarrow> sk_userId k = None \<and> sk_room k = None"
| "stage_ok w c k Refused \<longleftrightarrow> False"
| "stage_ok w c k (Joined p) \<longleftrightarrow> sk_userId k = None \<and> sk_room k = Some (jp_sub p)"
| "stage_ok w c k (LookedUp p r) \<longleftrightarrow> sk_userId k = None \<and> sk_room k = Some (jp_sub p) \<and>
     (case r of Inl _ \<Rightarrow> True | Inr u \<Rightarrow> \<not> is_disabled u \<and> token_version p = u_tokenVersion u \<longrightarrow> vouched w p)"
| "stage_ok w c k (Done p) \<longleftrightarrow> sk_userId k = Some (jp_sub p) \<and> sk_tokenVersion k = Some (token_version p) \<and>
     sk_room k = Some (jp_sub p) \<and> vouched w p \<and>
     (\<exists>fires ex. wp_exp p = Some ex \<and> gw_timers (ww_gate w) c = Some (fires, ex * 1000) \<and> fires \<le> ex * 1000)"

definition socket_ok :: "ws_world \<Rightarrow> ident \<Rightarrow> bool" where
  "socket_ok w c \<longleftrightarrow>
     (case gw_sockets (ww_gate w) c of
        None \<Rightarrow> True
      | Some k \<Rightarrow> sk_connected k \<longrightarrow> (case ww_stage w c of None \<Rightarrow> False | Some st \<Rightarrow> stage_ok w c k st))"

definition sockets_ok :: "ws_world \<Rightarrow> bool" where
  "sockets_ok w \<longleftrightarrow> (\<forall>c. socket_ok w c) \<and> (\<forall>c. ww_stage w c = None \<longrightarrow> gw_sockets (ww_gate w) c = None)"

text \<open>A change after which a socket that is still connected looks the same, messages apart.\<close>

definition same_socket :: "gateway_state \<Rightarrow> gateway_state \<Rightarrow> ident \<Rightarrow> bool" where
  "same_socket g g' c \<longleftrightarrow> (gw_sockets g c = None \<longrightarrow> gw_sockets g' c = None) \<and>
     (\<forall>k'. gw_sockets g' c = Some k' \<and> sk_connected k' \<longrightarrow> gw_timers g' c = gw_timers g c \<and>
       (\<exists>k. gw_sockets g c = Some k \<and> sk_connected k \<and> sk_room k' = sk_room k \<and> sk_userId k' = sk_userId k \<and>
         sk_tokenVersion k' = sk_tokenVersion k))"

lemma same_socketI:
  "gw_sockets g' c = gw_sockets g c \<Longrightarrow> gw_timers g' c = gw_timers g c \<Longrightarrow> same_socket g g' c"
  "\<not> is_connected c g' \<Longrightarrow> (gw_sockets g c = None \<Longrightarrow> gw_sockets g' c = None) \<Longrightarrow> same_socket g g' c"
  by (auto simp: same_socket_def is_connected_def)

lemma closed_simps [simp]: "sk_connected (closed k) = False" "sk_room (closed k) = None"
  by (simp_all add: closed_def)

lemma receive_simps [simp]:
  "sk_connected (receive e k) = sk_connected k" "sk_room (receive e k) = sk_room k" "sk_userId (receive e k) = sk_userId k"
  "sk_tokenVersion (receive e k) = sk_tokenVersion k"
  by (simp_all add: receive_def)

lemma join_room_simps [simp]:
  "sk_connected (join_room u k) = sk_connected k" "sk_userId (join_room u k) = sk_userId k"
  "sk_room (join_room u k) = (if sk_connected k then Some u else sk_room k)"
  by (simp_all add: join_room_def)

lemma disconnect_simps [simp]:
  "gw_sockets (disconnect c g) c' = (if c' = c then map_option closed (gw_sockets g c) else gw_sockets g c')"
  "gw_timers (disconnect c g) c' = (if c' = c then None else gw_timers g c')"
  "gw_sockets (clear_expiry c g) = gw_sockets g" "gw_timers (clear_expiry c g) c' = (if c' = c then None else gw_timers g c')"
  by (simp_all add: disconnect_def clear_expiry_def update_socket_def)

lemma update_socket_simps [simp]:
  "gw_sockets (update_socket f c g) c' = (if c' = c then map_option f (gw_sockets g c) else gw_sockets g c')"
  "gw_timers (update_socket f c g) = gw_timers g"
  by (simp_all add: update_socket_def)

lemma not_connected_disconnect [simp]: "is_connected c (disconnect c g) = False"
  by (simp add: is_connected_def split: option.split)

lemma same_disconnect: "same_socket g (disconnect c g) c'"
  by (auto simp: same_socket_def)

lemma same_receive: "same_socket g (update_socket (receive e) c g) c'"
  by (auto simp: same_socket_def)

lemma same_send: "same_socket g (send_to_room u e g) c'"
  by (auto simp: same_socket_def send_to_room_def)

lemma same_evict: "same_socket g (disconnect_room u g) c'"
  by (auto simp: same_socket_def disconnect_room_def in_room_def)

lemma same_user_event: "same_socket g (handle_user_event e g) c'"
  by (cases e) (simp_all add: handle_user_event_def same_evict same_socketI(1))

lemma same_warning: "same_socket g (g\<lparr>gw_warnings := ws\<rparr>) c'"
  by (rule same_socketI) simp_all

lemma handshake_failed_disconnects: "\<exists>ws. handshake_failed c f g = disconnect c (g\<lparr>gw_warnings := ws\<rparr>)"
  unfolding handshake_failed_def by (cases "is_auth_failure f") (auto intro: exI [of _ "gw_warnings g"])

lemma stage_ok_frame:
  assumes "stage_ok w c k st" and "sk_room k' = sk_room k" "sk_userId k' = sk_userId k" "sk_tokenVersion k' = sk_tokenVersion k"
    and "gw_timers (ww_gate w') c = gw_timers (ww_gate w) c"
    and "\<And>p. sk_room k = Some (jp_sub p) \<Longrightarrow> vouched w p \<Longrightarrow> vouched w' p"
  shows "stage_ok w' c k' st"
  using assms by (cases st) (auto split: sum.splits)

text \<open>Steps that only touch sockets in that way keep every socket right.\<close>

lemma socket_ok_same:
  assumes "socket_ok w c" and "same_socket (ww_gate w) (ww_gate w') c" and "ww_stage w' c = ww_stage w c"
    and "\<And>p k. gw_sockets (ww_gate w') c = Some k \<Longrightarrow> sk_connected k \<Longrightarrow> sk_room k = Some (jp_sub p) \<Longrightarrow> vouched w p \<Longrightarrow> vouched w' p"
  shows "socket_ok w' c"
proof (cases "gw_sockets (ww_gate w') c")
  case (Some k')
  show ?thesis
  proof (cases "sk_connected k'")
    case True
    with assms(2) Some obtain k where k: "gw_sockets (ww_gate w) c = Some k" "sk_connected k" "sk_room k' = sk_room k"
      "sk_userId k' = sk_userId k" "sk_tokenVersion k' = sk_tokenVersion k" and t: "gw_timers (ww_gate w') c = gw_timers (ww_gate w) c"
      by (auto simp: same_socket_def)
    with assms(1) obtain st where st: "ww_stage w c = Some st" "stage_ok w c k st"
      by (auto simp: socket_ok_def split: option.splits)
    have "stage_ok w' c k' st"
      by (rule stage_ok_frame [OF st(2) k(3-5) t]) (use assms(4) Some True k(3) in auto)
    with Some st(1) assms(3) show ?thesis by (simp add: socket_ok_def)
  qed (simp add: socket_ok_def Some)
qed (simp add: socket_ok_def)

lemma vouched_same: "ww_auth w' = ww_auth w \<Longrightarrow> ww_events w' = ww_events w \<Longrightarrow> vouched w' p = vouched w p"
  by (simp add: vouched_def)

lemma sockets_ok_same:
  assumes "sockets_ok w" and same: "\<And>c. same_socket (ww_gate w) (ww_gate w') c" and "ww_stage w' = ww_stage w"
    and "ww_auth w' = ww_auth w" and "ww_events w' = ww_events w"
  shows "sockets_ok w'"
proof -
  have "socket_ok w' c" for c
    using assms(1) vouched_same [OF assms(4,5)]
    by (intro socket_ok_same [OF _ same]) (auto simp: sockets_ok_def assms(3))
  moreover have "gw_sockets (ww_gate w') c = None" if "ww_stage w' c = None" for c
    using that assms(1,3) same [of c] by (simp add: sockets_ok_def same_socket_def)
  ultimately show ?thesis by (simp add: sockets_ok_def)
qed

text \<open>A step of one socket's handshake.\<close>

lemma sockets_ok_stage:
  assumes "sockets_ok w" and "ww_stage w c = Some st0" and "ww_stage w' = (ww_stage w)(c \<mapsto> st)"
    and "\<And>c'. c' \<noteq> c \<Longrightarrow> same_socket (ww_gate w) (ww_gate w') c'"
    and "ww_auth w' = ww_auth w" and "ww_events w' = ww_events w"
    and "\<And>k. gw_sockets (ww_gate w') c = Some k \<Longrightarrow> sk_connected k \<Longrightarrow> stage_ok w' c k st"
  shows "sockets_ok w'"
proof -
  have "socket_ok w' c'" for c'
  proof (cases "c' = c")
    case True
    with assms(3,7) show ?thesis by (auto simp: socket_ok_def split: option.split)
  next
    case False
    with assms(1,3) vouched_same [OF assms(5,6)] show ?thesis
      by (intro socket_ok_same [OF _ assms(4)]) (auto simp: sockets_ok_def)
  qed
  moreover have "gw_sockets (ww_gate w') c' = None" if "ww_stage w' c' = None" for c'
  proof -
    from that assms(3) have "c' \<noteq> c" "ww_stage w c' = None" by (auto split: if_splits)
    with assms(1) assms(4) [of c'] show ?thesis by (simp add: sockets_ok_def same_socket_def)
  qed
  ultimately show ?thesis by (simp add: sockets_ok_def)
qed

lemma look_up_vouches:
  assumes "look_up_user outage u t = Inr x" and "\<not> is_disabled x"
  shows "access u t = Some (u_tokenVersion x)"
  using assms by (auto simp: look_up_user_def get_user_by_id_def find_user_by_id_def access_def row_access_def is_disabled_def
      split: option.splits sum.splits http_error.splits)

lemma begin_result:
  assumes "begin_handshake c token verified g = (p, g')"
  shows "(c' \<noteq> c \<longrightarrow> same_socket g g' c') \<and> (p = None \<longrightarrow> \<not> is_connected c g') \<and>
    (\<forall>q k'. p = Some q \<and> gw_sockets g' c = Some k' \<and> sk_connected k' \<longrightarrow>
       (\<exists>k. gw_sockets g c = Some k \<and> sk_connected k \<and> sk_userId k' = sk_userId k \<and> sk_room k' = Some (jp_sub q)))"
proof -
  have "same_socket g (handshake_failed c f g) c'" "\<not> is_connected c (handshake_failed c f g)" if "c' \<noteq> c" for f
    using that handshake_failed_disconnects [of c f g] by (auto simp: same_socket_def)
  moreover have "\<not> is_connected c (handshake_failed c f g)" for f using handshake_failed_disconnects [of c f g] by auto
  ultimately show ?thesis
    using assms by (auto simp: begin_handshake_def same_disconnect split: option.splits if_splits sum.splits intro: same_socketI(1))
qed

lemma finish_result:
  shows "c' \<noteq> c \<Longrightarrow> same_socket g (finish_handshake c p r now g) c'"
    and "gw_sockets (finish_handshake c p r now g) c = Some k' \<Longrightarrow> sk_connected k' \<Longrightarrow>
      \<exists>u k fires ex. r = Inr u \<and> \<not> is_disabled u \<and> token_version p = u_tokenVersion u \<and> gw_sockets g c = Some k \<and> sk_connected k \<and>
        sk_room k' = sk_room k \<and> sk_userId k' = Some (jp_sub p) \<and> sk_tokenVersion k' = Some (token_version p) \<and>
        wp_exp p = Some ex \<and> gw_timers (finish_handshake c p r now g) c = Some (fires, ex * 1000) \<and> fires \<le> ex * 1000"
proof -
  have f: "gw_sockets (handshake_failed c f g) c'' = (if c'' = c then map_option closed (gw_sockets g c) else gw_sockets g c'')"
    "gw_timers (handshake_failed c f g) c'' = (if c'' = c then None else gw_timers g c'')" for f c''
    by (simp_all add: handshake_failed_def)
  show "c' \<noteq> c \<Longrightarrow> same_socket g (finish_handshake c p r now g) c'"
    by (rule same_socketI(1)) (auto simp: finish_handshake_def schedule_expiry_def Let_def f split: sum.split option.split)
  show "gw_sockets (finish_handshake c p r now g) c = Some k' \<Longrightarrow> sk_connected k' \<Longrightarrow>
      \<exists>u k fires ex. r = Inr u \<and> \<not> is_disabled u \<and> token_version p = u_tokenVersion u \<and> gw_sockets g c = Some k \<and> sk_connected k \<and>
        sk_room k' = sk_room k \<and> sk_userId k' = Some (jp_sub p) \<and> sk_tokenVersion k' = Some (token_version p) \<and>
        wp_exp p = Some ex \<and> gw_timers (finish_handshake c p r now g) c = Some (fires, ex * 1000) \<and> fires \<le> ex * 1000"
    by (auto simp: finish_handshake_def schedule_expiry_def Let_def f is_connected_def min_def max_timeout_ms_def
        split: sum.splits option.splits if_splits)
qed

lemma fire_timer_same: "c' \<noteq> c \<Longrightarrow> same_socket g (fire_timer c now g) c'"
  by (rule same_socketI(1)) (auto simp: fire_timer_def schedule_expiry_def Let_def split: option.split)

section \<open>The invariant\<close>

lemma list_ex_evicts_event:
  assumes "sk_room k = Some u" and "gw_sockets (handle_user_event e g) c = Some k" and "sk_connected k"
  shows "\<not> evicts u e"
  using assms by (cases e) (auto simp: handle_user_event_def disconnect_room_def in_room_def split: option.splits if_splits)

lemma write_vouches:
  assumes "f \<in> auth_steps d" and "vouched w p"
  shows "vouched (w\<lparr>ww_auth := f (ww_auth w), ww_events := ww_events w @ new_events (ww_auth w) (f (ww_auth w))\<rparr>) p"
  using assms(2) auth_step_new_events [OF assms(1), of "ww_auth w"] by (auto simp: vouched_def announced_def session_end_def)

lemma fire_timer_result:
  assumes "gw_timers g c = Some (fires, ex)" and "gw_sockets (fire_timer c now g) c = Some k" "sk_connected k"
  shows "gw_sockets g c = Some k \<and> gw_timers (fire_timer c now g) c = Some (now + min (ex - now) max_timeout_ms, ex)"
proof (cases "ex - now \<le> 0")
  case True
  with assms show ?thesis by (auto simp: fire_timer_def schedule_expiry_def Let_def)
next
  case False
  with assms(1,2) show ?thesis by (simp add: fire_timer_def schedule_expiry_def Let_def)
qed

lemma fire_timer_absent: "gw_sockets g c = None \<Longrightarrow> gw_sockets (fire_timer c now g) c = None"
  by (simp add: fire_timer_def schedule_expiry_def Let_def split: option.split)

lemma socket_stage:
  assumes "sockets_ok w" and "gw_sockets (ww_gate w) c = Some k" "sk_connected k" and "ww_stage w c = Some st"
  shows "stage_ok w c k st"
proof -
  have "socket_ok w c" using assms(1) unfolding sockets_ok_def by blast
  with assms(2-4) show ?thesis by (simp add: socket_ok_def)
qed

lemma socket_okI: "sockets_ok w \<Longrightarrow> socket_ok w c"
  unfolding sockets_ok_def by blast

lemma no_stage_no_socket: "sockets_ok w \<Longrightarrow> ww_stage w c = None \<Longrightarrow> gw_sockets (ww_gate w) c = None"
  unfolding sockets_ok_def by blast

lemma stage_ok_rearmed:
  assumes "stage_ok w c k st" and "gw_timers (ww_gate w) c = Some (fires, ex)"
    and "gw_timers g c = Some (fires', ex)" and "fires' \<le> ex"
  shows "stage_ok (w\<lparr>ww_gate := g\<rparr>) c k st"
proof -
  have v: "vouched (w\<lparr>ww_gate := g\<rparr>) p = vouched w p" for p by (simp add: vouched_def)
  show ?thesis
  proof (cases st)
    case (Done p)
    with assms show ?thesis by (auto simp: v)
  next
    case (LookedUp p r)
    with assms(1) show ?thesis by (cases r) (simp_all add: v)
  qed (use assms(1) in simp_all)
qed

lemma timer_keeps:
  assumes "sockets_ok w" and t: "gw_timers (ww_gate w) c = Some (fires, ex)"
  shows "sockets_ok (w\<lparr>ww_gate := fire_timer c (ww_now w) (ww_gate w)\<rparr>)" (is "sockets_ok ?w'")
proof (cases "ww_stage w c")
  case None
  then have "gw_sockets (ww_gate w) c = None" by (rule no_stage_no_socket [OF assms(1)])
  then have "same_socket (ww_gate w) (fire_timer c (ww_now w) (ww_gate w)) c"
    by (simp add: same_socket_def fire_timer_absent)
  then have "same_socket (ww_gate w) (ww_gate ?w') c'" for c'
    using fire_timer_same [of c' c "ww_gate w" "ww_now w"] by (cases "c' = c") simp_all
  then show ?thesis by (intro sockets_ok_same [OF assms(1)]) simp_all
next
  case (Some st)
  have "stage_ok ?w' c k st" if k: "gw_sockets (ww_gate ?w') c = Some k" "sk_connected k" for k
  proof -
    have k': "gw_sockets (fire_timer c (ww_now w) (ww_gate w)) c = Some k" using k(1) by simp
    note f = fire_timer_result [OF t k' k(2)]
    show ?thesis
      by (rule stage_ok_rearmed [OF socket_stage [OF assms(1) conjunct1 [OF f] k(2) Some] t conjunct2 [OF f]]) simp
  qed
  then show ?thesis
    using Some by (intro sockets_ok_stage [OF assms(1) Some, of _ st]) (simp_all add: fun_upd_idem fire_timer_same)
qed

lemma step_keeps_sockets:
  assumes "ws_step d w w'" and "sockets_ok w"
  shows "sockets_ok w'"
  using assms(1)
proof cases
  case (ws_open c)
  have "socket_ok w' c'" for c'
  proof (cases "c' = c")
    case True
    then show ?thesis by (simp add: ws_open(1) socket_ok_def new_socket_def)
  next
    case False
    then have "same_socket (ww_gate w) (ww_gate w') c'" by (intro same_socketI(1)) (simp_all add: ws_open(1))
    then show ?thesis by (rule socket_ok_same [OF socket_okI [OF assms(2)]]) (use False in \<open>simp_all add: ws_open(1) vouched_def\<close>)
  qed
  moreover have "gw_sockets (ww_gate w') c' = None" if "ww_stage w' c' = None" for c'
    using that no_stage_no_socket [OF assms(2), of c'] by (simp add: ws_open(1) split: if_splits)
  ultimately show ?thesis by (simp add: sockets_ok_def)
next
  case (ws_begin c token verified p g)
  note b = begin_result [OF ws_begin(3)]
  have st: "ww_stage w c = Some Opened" by (rule ws_begin)
  have none: "sk_userId k = None" if "gw_sockets (ww_gate w) c = Some k" "sk_connected k" for k
    using socket_stage [OF assms(2) that st] by simp
  show ?thesis
  proof (rule sockets_ok_stage [OF assms(2) st])
    show "ww_stage w' = (ww_stage w)(c \<mapsto> (case p of None \<Rightarrow> Refused | Some q \<Rightarrow> Joined q))" by (simp add: ws_begin(1))
    show "same_socket (ww_gate w) (ww_gate w') c'" if "c' \<noteq> c" for c' using b [of c'] that by (simp add: ws_begin(1))
    show "stage_ok w' c k (case p of None \<Rightarrow> Refused | Some q \<Rightarrow> Joined q)"
      if k: "gw_sockets (ww_gate w') c = Some k" "sk_connected k" for k
    proof (cases p)
      case None
      with b [of c] k show ?thesis by (simp add: ws_begin(1) is_connected_def)
    next
      case (Some q)
      from k have "gw_sockets g c = Some k" by (simp add: ws_begin(1))
      with b [of c] k(2) Some obtain k0 where "gw_sockets (ww_gate w) c = Some k0" "sk_connected k0" "sk_userId k = sk_userId k0"
        "sk_room k = Some (jp_sub q)" by blast
      with none [of k0] Some show ?thesis by simp
    qed
  qed (simp_all add: ws_begin(1))
next
  case (ws_look_up c p outage)
  have fin: "stage_ok w' c k (LookedUp p (look_up_user outage (jp_sub p) (auth_users (ww_auth w))))"
    if "gw_sockets (ww_gate w) c = Some k" "sk_connected k" for k
  proof -
    have "stage_ok w c k (Joined p)" by (rule socket_stage [OF assms(2) that ws_look_up(2)])
    then show ?thesis
      using look_up_vouches by (auto simp: ws_look_up vouched_def split: sum.split)
  qed
  show ?thesis
    by (rule sockets_ok_stage [OF assms(2) ws_look_up(2) _ _ _ _ fin]) (simp_all add: same_socketI(1) ws_look_up(1))
next
  case (ws_finish c p r)
  have fin: "stage_ok w' c k' (Done p)" if k': "gw_sockets (ww_gate w') c = Some k'" "sk_connected k'" for k'
  proof -
    obtain u k fires ex where f: "r = Inr u" "\<not> is_disabled u" "token_version p = u_tokenVersion u"
      "gw_sockets (ww_gate w) c = Some k" "sk_connected k" "sk_room k' = sk_room k" "sk_userId k' = Some (jp_sub p)"
      "sk_tokenVersion k' = Some (token_version p)" "wp_exp p = Some ex" "gw_timers (ww_gate w') c = Some (fires, ex * 1000)" "fires \<le> ex * 1000"
      using finish_result(2) [of c p r "ww_now w" "ww_gate w" k'] k' by (auto simp: ws_finish)
    have "stage_ok w c k (LookedUp p r)" by (rule socket_stage [OF assms(2) f(4,5) ws_finish(2)])
    then show ?thesis using f by (auto simp: vouched_def ws_finish(1))
  qed
  show ?thesis
    by (rule sockets_ok_stage [OF assms(2) ws_finish(2) _ _ _ _ fin]) (simp_all add: finish_result(1) ws_finish(1))
next
  case (ws_write f)
  have "socket_ok w' c" for c
    by (rule socket_ok_same [OF socket_okI [OF assms(2)]])
      (use write_vouches [OF ws_write(2)] in \<open>simp_all add: ws_write(1) same_socketI(1)\<close>)
  with assms(2) show ?thesis by (simp add: sockets_ok_def ws_write)
next
  case (ws_event xs e ys)
  have "socket_ok w' c" for c
  proof (rule socket_ok_same [of w])
    fix p k
    assume "gw_sockets (ww_gate w') c = Some k" "sk_connected k" "sk_room k = Some (jp_sub p)" "vouched w p"
    moreover from this have "\<not> evicts (jp_sub p) e" using list_ex_evicts_event [of k "jp_sub p" e "ww_gate w" c] by (simp add: ws_event)
    ultimately show "vouched w' p" by (auto simp: vouched_def ws_event)
  qed (use assms(2) in \<open>simp_all add: ws_event sockets_ok_def same_user_event\<close>)
  moreover have "gw_sockets (ww_gate w') c = None" if "ww_stage w' c = None" for c
    using that assms(2) same_user_event [of "ww_gate w" e c] by (simp add: sockets_ok_def ws_event same_socket_def)
  ultimately show ?thesis by (simp add: sockets_ok_def)
next
  case (ws_timer c fires ex)
  with timer_keeps [OF assms(2)] show ?thesis by simp
next
  case (ws_check c looked go err g)
  then have "same_socket (ww_gate w) g c'" for c'
    by (auto simp: check_subscriber_def Let_def same_disconnect intro: same_socketI(1) split: sum.splits ws_failure.splits if_splits)
  then show ?thesis unfolding ws_check(1) by (intro sockets_ok_same [OF assms(2)]) simp_all
next
  case (ws_answer c i outage found err g)
  then have "same_socket (ww_gate w) g c'" for c'
    by (auto simp: answer_subscription_def same_receive same_warning split: sum.splits option.splits ws_failure.splits)
  then show ?thesis unfolding ws_answer(1) by (intro sockets_ok_same [OF assms(2)]) simp_all
next
  case (ws_announce a)
  then show ?thesis by (intro sockets_ok_same [OF assms(2)]) (simp_all add: handle_announcement_def same_send)
next
  case (ws_leave c)
  then show ?thesis by (intro sockets_ok_same [OF assms(2)]) (simp_all add: same_disconnect)
next
  case (ws_tick now)
  then show ?thesis by (intro sockets_ok_same [OF assms(2)]) (simp_all add: same_socketI(1))
qed

end
