(* ===== verification/PlanningSockets.thy ===== *)
theory PlanningSockets
  imports PlanningGateway
begin

text \<open>
  What the WebSocket gateway promises over every interleaving of its handlers with the account
  operations: who a connected socket belongs to, who receives an event, that a socket does not outlive
  its token, and that asking for a job gives what the live relay gave.
\<close>

section \<open>Reachable worlds\<close>

lemma ws_reaches_ok: "ws_reaches d w \<Longrightarrow> sockets_ok w"
proof -
  assume "ws_reaches d w"
  then obtain s now where r: "(ws_step d)\<^sup>*\<^sup>* (ws_start s now) w" by (auto simp: ws_reaches_def)
  have "sockets_ok (ws_start s now)" by (simp add: sockets_ok_def socket_ok_def ws_start_def)
  with r show ?thesis by (induction rule: rtranclp_induct) (auto intro: step_keeps_sockets)
qed

lemma reached_stage:
  assumes "ws_reaches d w" and "gw_sockets (ww_gate w) c = Some k" "sk_connected k"
  obtains st where "ww_stage w c = Some st" "stage_ok w c k st"
  using socket_okI [OF ws_reaches_ok [OF assms(1)], of c] assms(2,3) that
  by (cases "ww_stage w c") (simp_all add: socket_ok_def)

lemma stage_signed_in: "stage_ok w c k st \<Longrightarrow> sk_userId k = Some u \<Longrightarrow> \<exists>p. st = Done p \<and> jp_sub p = u"
  by (cases st) auto

lemma ws_reaches_start: "ws_reaches d (ws_start s now)"
  unfolding ws_reaches_def by blast

lemma ws_reaches_step: "ws_reaches d w \<Longrightarrow> ws_step d w w' \<Longrightarrow> ws_reaches d w'"
  unfolding ws_reaches_def by (meson rtranclp.rtrancl_into_rtrancl)

definition overdue :: "ident \<Rightarrow> ws_world \<Rightarrow> bool" where
  "overdue c w \<longleftrightarrow> (case gw_timers (ww_gate w) c of None \<Rightarrow> False | Some (fires, _) \<Rightarrow> fires \<le> ww_now w)"

text \<open>C6: However handshakes, evictions, timers and account operations interleave: a connected socket
  that has signed in is in the room of its own account and, once the events that would evict it are handled
  and no timer of it is overdue, its account exists, is enabled and still has the session version of
  its token, and the token has not expired.\<close>

theorem live_sockets_authorised:
  assumes "ws_reaches d w"
    and "gw_sockets (ww_gate w) c = Some k" "sk_connected k" "sk_userId k = Some u"
    and "\<not> list_ex (evicts u) (ww_events w)" and "\<not> overdue c w"
  shows "sk_room k = Some u \<and> (\<exists>p v ex. ww_stage w c = Some (Done p) \<and> jp_sub p = u \<and> sk_tokenVersion k = Some v \<and>
    access u (auth_users (ww_auth w)) = Some v \<and> wp_exp p = Some ex \<and> ww_now w < ex * 1000)"
proof -
  obtain st where st: "ww_stage w c = Some st" "stage_ok w c k st" by (rule reached_stage [OF assms(1-3)])
  obtain p where p: "st = Done p" "jp_sub p = u" using stage_signed_in [OF st(2) assms(4)] by blast
  with st(2) obtain fires ex where t: "wp_exp p = Some ex" "gw_timers (ww_gate w) c = Some (fires, ex * 1000)" "fires \<le> ex * 1000"
    by auto
  then have "ww_now w < ex * 1000" using assms(6) by (simp add: overdue_def)
  moreover from st(2) p assms(5) have "sk_room k = Some u" "sk_tokenVersion k = Some (token_version p)"
    "access u (auth_users (ww_auth w)) = Some (token_version p)" by (auto simp: vouched_def)
  ultimately show ?thesis using st(1) p t(1) by blast
qed

text \<open>A socket that opened, joined, was looked up and finished; then its account was disabled.\<close>

definition demo_payload :: ws_payload where
  "demo_payload = \<lparr>jp_sub = js ''u1'', jp_email = js ''a'', jp_tv = None, wp_exp = Some 100\<rparr>"

lemma ws_session:
  assumes "begin_handshake c (Some token) (Inr p) \<lparr>gw_sockets = [c \<mapsto> new_socket], gw_timers = Map.empty, gw_warnings = []\<rparr> = (Some p, g)"
  shows "ws_reaches d \<lparr>ww_gate = finish_handshake c p (look_up_user None (jp_sub p) (auth_users s)) now g,
      ww_auth = s, ww_events = [], ww_stage = [c \<mapsto> Done p], ww_now = now\<rparr>"
proof -
  let ?g0 = "\<lparr>gw_sockets = [c \<mapsto> new_socket], gw_timers = Map.empty, gw_warnings = []\<rparr>"
  let ?r = "look_up_user None (jp_sub p) (auth_users s)"
  let ?w = "\<lambda>g st. \<lparr>ww_gate = g, ww_auth = s, ww_events = [], ww_stage = [c \<mapsto> st], ww_now = now\<rparr>"
  have "ws_reaches d (?w ?g0 Opened)"
    using ws_reaches_step [OF ws_reaches_start ws_open [of "ws_start s now" c d]] by (simp add: ws_start_def)
  then have "ws_reaches d (?w g (Joined p))"
    using ws_reaches_step [OF _ ws_begin [of "?w ?g0 Opened" c "Some token" "Inr p" "Some p" g d]] assms by simp
  then have "ws_reaches d (?w g (LookedUp p ?r))"
    using ws_reaches_step [OF _ ws_look_up [of "?w g (Joined p)" c p d None]] by simp
  then show ?thesis
    using ws_reaches_step [OF _ ws_finish [of "?w g (LookedUp p ?r)" c p ?r d]] by simp
qed

definition demo_gate :: gateway_state where
  "demo_gate = snd (begin_handshake (js ''s'') (Some (js ''t'')) (Inr demo_payload)
     \<lparr>gw_sockets = [js ''s'' \<mapsto> new_socket], gw_timers = Map.empty, gw_warnings = []\<rparr>)"

definition demo_world :: ws_world where
  "demo_world = \<lparr>ww_gate = finish_handshake (js ''s'') demo_payload (look_up_user None (js ''u1'') (auth_users demo_auth_state)) 5 demo_gate,
     ww_auth = demo_auth_state, ww_events = [], ww_stage = [js ''s'' \<mapsto> Done demo_payload], ww_now = 5\<rparr>"

lemma demo_world_reached: "ws_reaches d demo_world"
  using ws_session [of "js ''s''" "js ''t''" demo_payload demo_gate d demo_auth_state 5]
  by (simp add: demo_world_def demo_gate_def begin_handshake_def demo_payload_def)

definition demo_socket :: socket where
  "demo_socket = \<lparr>sk_connected = True, sk_room = Some (js ''u1''), sk_userId = Some (js ''u1''), sk_tokenVersion = Some 0, sk_received = [Ready]\<rparr>"

lemma demo_look_up: "\<exists>u. look_up_user None (js ''u1'') (auth_users demo_auth_state) = Inr u \<and> \<not> is_disabled u \<and> u_tokenVersion u = 0"
  by (simp add: look_up_user_def get_user_by_id_def find_user_by_id_def auth_users_def demo_auth_state_def new_user_row_def is_disabled_def)

lemma demo_world_socket:
  "gw_sockets (ww_gate demo_world) (js ''s'') = Some demo_socket" "gw_timers (ww_gate demo_world) (js ''s'') = Some (100000, 100000)"
proof -
  obtain u where u: "look_up_user None (js ''u1'') (auth_users demo_auth_state) = Inr u" "\<not> is_disabled u" "u_tokenVersion u = 0"
    using demo_look_up by blast
  show "gw_sockets (ww_gate demo_world) (js ''s'') = Some demo_socket" "gw_timers (ww_gate demo_world) (js ''s'') = Some (100000, 100000)"
    by (simp_all add: demo_world_def u finish_handshake_def token_version_def demo_payload_def demo_gate_def begin_handshake_def
        is_connected_def new_socket_def join_room_def schedule_expiry_def receive_def demo_socket_def max_timeout_ms_def Let_def)
qed

theorem live_sockets_authorised_witness:
  "access (js ''u1'') (auth_users (ww_auth demo_world)) = Some 0"
  using live_sockets_authorised [OF demo_world_reached [of demo_auth] demo_world_socket(1), of "js ''u1''"] demo_world_socket(2)
  by (simp add: demo_socket_def overdue_def demo_world_def)

section \<open>Who receives an event\<close>

fun admitted_as :: "handshake \<Rightarrow> ident option" where
  "admitted_as (Joined p) = Some (jp_sub p)"
| "admitted_as (LookedUp p _) = Some (jp_sub p)"
| "admitted_as (Done p) = Some (jp_sub p)"
| "admitted_as _ = None"

lemma stage_room: "stage_ok w c k st \<Longrightarrow> sk_room k = admitted_as st"
  by (cases st) auto

text \<open>C8: An announcement of a job is delivered exactly once, as its client event, to every connected socket
  whose verified token names the owner of the job, and to no other socket.\<close>

theorem job_events_reach_owner:
  assumes "ws_reaches d w" and "gw_sockets (ww_gate w) c = Some k" and "sk_connected k"
  shows "gw_sockets (handle_announcement a (ww_gate w)) c =
    Some (if Option.bind (ww_stage w c) admitted_as = Some (announced_to a)
          then k\<lparr>sk_received := sk_received k @ [client_event_of a]\<rparr> else k)"
proof -
  obtain st where st: "ww_stage w c = Some st" "stage_ok w c k st" by (rule reached_stage [OF assms])
  then show ?thesis
    using assms(2,3) by (simp add: handle_announcement_def send_to_room_def in_room_def receive_def stage_room [OF st(2)])
qed

theorem job_events_reach_owner_witness:
  "map_option sk_received (gw_sockets (handle_announcement (PlanningStatus (js ''j'') (js ''u1'') Planning) (ww_gate demo_world)) (js ''s'')) =
     Some [Ready, ClientStatus (js ''j'') Planning]"
  using job_events_reach_owner [OF demo_world_reached [of demo_auth] demo_world_socket(1), of "PlanningStatus (js ''j'') (js ''u1'') Planning"]
  by (simp add: demo_socket_def) (simp add: demo_world_def demo_payload_def)

section \<open>Expiry\<close>

text \<open>The timer of a socket firing again and again, each time late by the given milliseconds.\<close>

fun late_fires :: "ident \<Rightarrow> nat list \<Rightarrow> gateway_state \<Rightarrow> gateway_state" where
  "late_fires c [] g = g"
| "late_fires c (l # ls) g =
     (case gw_timers g c of None \<Rightarrow> g | Some (fires, _) \<Rightarrow> late_fires c ls (fire_timer c (fires + int l) g))"

definition timer_left :: "ident \<Rightarrow> gateway_state \<Rightarrow> time \<Rightarrow> time \<Rightarrow> bool" where
  "timer_left c g fires ex \<longleftrightarrow> gw_timers g c = Some (fires, ex) \<and> fires \<le> ex"

lemma fire_timer_cases:
  assumes "gw_timers g c = Some (fires, ex)"
  shows "ex \<le> now \<Longrightarrow> \<not> is_connected c (fire_timer c now g) \<and> gw_timers (fire_timer c now g) c = None"
    and "now < ex \<Longrightarrow> gw_sockets (fire_timer c now g) = gw_sockets g \<and>
      gw_timers (fire_timer c now g) c = Some (min ex (now + max_timeout_ms), ex)"
  using assms by (simp_all add: fire_timer_def schedule_expiry_def Let_def is_connected_def min_def max_timeout_ms_def split: option.split)

lemma late_fires_closed: "gw_timers g c = None \<Longrightarrow> late_fires c ls g = g"
  by (cases ls) simp_all

lemma late_fires_end:
  assumes "gw_timers g c = Some (fires, ex)" and "ex - fires \<le> int (length ls) * max_timeout_ms"
  shows "\<not> is_connected c (late_fires c (l # ls) g) \<and> gw_timers (late_fires c (l # ls) g) c = None"
  using assms
proof (induction ls arbitrary: l g fires)
  case Nil
  then show ?case using fire_timer_cases(1) [of g c fires ex "fires + int l"] by simp
next
  case (Cons l' ls)
  let ?now = "fires + int l"
  show ?case
  proof (cases "ex \<le> ?now")
    case True
    with fire_timer_cases(1) [OF Cons.prems(1) True] Cons.prems(1) show ?thesis by (simp add: late_fires_closed)
  next
    case False
    then have t: "gw_timers (fire_timer c ?now g) c = Some (min ex (?now + max_timeout_ms), ex)"
      using fire_timer_cases(2) [OF Cons.prems(1), of ?now] by simp
    have "ex - min ex (?now + max_timeout_ms) \<le> int (length ls) * max_timeout_ms"
      using Cons.prems(2) by (simp add: min_def max_timeout_ms_def algebra_simps)
    from Cons.IH [OF t this, of l'] show ?thesis using Cons.prems(1) by simp
  qed
qed

text \<open>C9: A socket never outlives its token, and no delay exceeds the limit of \<open>setTimeout\<close>: whatever the
  deadline, each timer is set at most \<open>2^31 - 1\<close> milliseconds ahead and never past the deadline; a timer that
  runs before the deadline leaves the socket open, and after as many runs as the wait has such spans, however
  late each is, the socket is closed and no timer is left.\<close>

theorem socket_expires_with_token:
  assumes "now < ex" and "ex - now \<le> int (length ls) * max_timeout_ms"
    and "gw_timers (schedule_expiry c ex now g) c = Some (fires, deadline)"
  shows "deadline = ex \<and> now < fires \<and> fires \<le> min ex (now + 2 ^ 31 - 1) \<and>
    (\<forall>t. is_connected c (fire_timer c t (schedule_expiry c ex now g)) = (t < ex \<and> is_connected c g)) \<and>
    \<not> is_connected c (late_fires c ls (schedule_expiry c ex now g)) \<and>
    gw_timers (late_fires c ls (schedule_expiry c ex now g)) c = None"
proof -
  let ?g = "schedule_expiry c ex now g"
  have g: "gw_timers ?g c = Some (min ex (now + max_timeout_ms), ex)" "gw_sockets ?g = gw_sockets g"
    using assms(1) by (simp_all add: schedule_expiry_def Let_def min_def)
  have open': "is_connected c (fire_timer c t ?g) = (t < ex \<and> is_connected c g)" for t
    using fire_timer_cases [OF g(1), of t] g(2) by (cases "t < ex") (simp_all add: is_connected_def)
  obtain l ls' where ls: "ls = l # ls'" using assms(1,2) by (cases ls) simp_all
  have "ex - min ex (now + max_timeout_ms) \<le> int (length ls') * max_timeout_ms"
    using assms(2) ls by (simp add: min_def max_timeout_ms_def algebra_simps)
  note done' = late_fires_end [OF g(1) this, of l, folded ls]
  have "deadline = ex" "fires = min ex (now + max_timeout_ms)" using assms(3) unfolding g(1) by auto
  then have "deadline = ex \<and> now < fires \<and> fires \<le> min ex (now + 2 ^ 31 - 1)"
    using assms(1) by (simp add: max_timeout_ms_def)
  with open' done' show ?thesis by blast
qed

theorem socket_expires_with_token_witness:
  "\<not> is_connected (js ''s'') (late_fires (js ''s'') [3, 0] (schedule_expiry (js ''s'') 3000000000 5 demo_gate))"
proof -
  have "gw_timers (schedule_expiry (js ''s'') 3000000000 5 demo_gate) (js ''s'') = Some (2147483652, 3000000000)"
    by (simp add: max_timeout_ms_def schedule_expiry_def Let_def)
  from socket_expires_with_token [OF _ _ this, of "[3, 0]"] show ?thesis by (simp add: max_timeout_ms_def del: late_fires.simps)
qed

section \<open>Catching up\<close>

text \<open>The announcements that a job has ended, by the worker of the context engine's results and by the
  no-result timeout, with the jobs as they are then.\<close>

fun ended_job :: "announcement \<Rightarrow> ident option" where
  "ended_job (PlanningCompleted i _ _) = Some i"
| "ended_job (PlanningFailed i _ _ _) = Some i"
| "ended_job _ = None"

inductive just_announced :: "announcement \<Rightarrow> job_store \<Rightarrow> bool" where
  by_result: "on_message d parsed now st = (dl, st', calls) \<Longrightarrow> a \<in> set (dl_announced dl) \<Longrightarrow> just_announced a st'"
| by_timeout: "handle_gather_timeout i now st = (r, st') \<Longrightarrow> a \<in> set (fst (process_gather_timeout r)) \<Longrightarrow> just_announced a st'"

text \<open>A job as it is stored, unless it has been deleted.\<close>

definition stored_as :: "planning_job \<Rightarrow> job_store \<Rightarrow> bool" where
  "stored_as j st \<longleftrightarrow> (\<forall>doc. st (pj_id j) = Some doc \<longrightarrow> j = to_domain (pj_id j) doc)"

lemma write_status_stored:
  "write_status d i p st = (Inr (Some j), st') \<Longrightarrow> stored_as j st'"
  "write_status d i p st = (Inr None, st') \<Longrightarrow> st' i = None"
  by (auto simp: write_status_def update_status_def domain_result_def update_where_def stored_as_def Let_def
      split: option.splits prod.splits)

lemma write_then_stored:
  assumes "write_status d i p st = (w, st')" and "map_sum id (case_option fallback id) w = Inr j" and "pj_id fallback = i"
  shows "stored_as j st'"
proof (cases w)
  case (Inr z)
  with assms show ?thesis
    using write_status_stored [of d i p st] by (cases z) (auto simp: stored_as_def)
qed (use assms(2) in simp)

lemma run_stored: "run_claimed_planning d claimed ctx st = (Inr j, st', calls) \<Longrightarrow> stored_as j st'"
  by (auto simp: run_claimed_planning_def Let_def split: sum.splits prod.splits elim!: write_then_stored)

lemma finalize_stored:
  assumes "finalize d phase code now job st = (Inr (Some j), st', calls)"
  shows "stored_as j st'"
proof (cases "phase = PhCompleted")
  case True
  with assms show ?thesis
    using run_stored by (auto simp: finalize_def finalize_completed_def Let_def split: option.splits prod.splits)
next
  case False
  with assms show ?thesis
    by (auto simp: finalize_def finalize_failed_def fail_if_still_gathering_def domain_result_def update_where_def stored_as_def
        split: option.splits prod.splits if_splits)
qed

lemma after_append_stored:
  "after_append d c now current st = (Inr r, st', calls) \<Longrightarrow> cr_terminal r \<Longrightarrow> cr_job r = Some j \<Longrightarrow> stored_as j st'"
  using finalize_stored
  by (auto simp: after_append_def Let_def split: chunk_body.splits if_splits option.splits prod.splits)

lemma handle_chunk_stored:
  assumes "handle_chunk d c now st = (Inr r, st', calls)" and "cr_terminal r" "cr_job r = Some j"
  shows "stored_as j st'"
  using assms after_append_stored [of d c now]
  by (auto simp: handle_chunk_def Let_def split: option.splits if_splits prod.splits)

lemma announce_end_event:
  assumes "a \<in> set (announce_end (pj_id j) (pj_userId j) j)"
  shows "ended_job a = Some (pj_id j) \<and> announced_to a = pj_userId j \<and> client_event_of a = to_client_event j"
  using assms by (auto simp: announce_end_def to_client_event_def split: job_status.splits)

lemma relay_end:
  assumes "a \<in> set (relay job c ended)" and "ended_job a = Some i"
  shows "ended \<and> (\<exists>j. job = Some j \<and> a \<in> set (announce_end (pj_id j) (pj_userId j) j))"
  using assms by (auto simp: relay_def split: option.splits if_splits chunk_body.splits chunk_phase.splits)

lemma announced_is_stored:
  assumes "just_announced a st" and "ended_job a = Some i" and "st i = Some doc"
  shows "announced_to a = pd_user_id doc \<and> client_event_of a = to_client_event (to_domain i doc)"
  using assms(1)
proof cases
  case (by_result d parsed now st0 dl calls)
  then obtain c r where h: "handle_chunk d c now st0 = (Inr r, st, calls)" and a: "a \<in> set (relay (cr_job r) c (cr_terminal r))"
    by (auto simp: on_message_def handle_parsed_chunk_def Let_def split: option.splits sum.splits prod.splits if_splits)
  obtain j where j: "cr_terminal r" "cr_job r = Some j" "a \<in> set (announce_end (pj_id j) (pj_userId j) j)"
    using relay_end [OF a assms(2)] by blast
  have "pj_id j = i" using announce_end_event [OF j(3)] assms(2) by simp
  then have "j = to_domain i doc" using handle_chunk_stored [OF h j(1,2)] assms(3) by (simp add: stored_as_def)
  then show ?thesis using announce_end_event [OF j(3)] by simp
next
  case (by_timeout i' now st0 r)
  with assms(2,3) show ?thesis
    by (auto simp: handle_gather_timeout_def process_gather_timeout_def fail_if_still_gathering_def domain_result_def
        update_where_def to_client_event_def split: option.splits if_splits)
qed

definition signed_in :: "ident \<Rightarrow> ident \<Rightarrow> user_row list \<Rightarrow> gateway_state \<Rightarrow> bool" where
  "signed_in c u t g \<longleftrightarrow> u \<noteq> [] \<and> (case gw_sockets g c of None \<Rightarrow> False
     | Some k \<Rightarrow> sk_connected k \<and> sk_userId k = Some u \<and> sk_tokenVersion k \<noteq> None \<and> access u t = sk_tokenVersion k)"

lemma access_look_up:
  assumes "access u t = Some v"
  shows "\<exists>x. look_up_user None u t = Inr x \<and> \<not> is_disabled x \<and> u_tokenVersion x = v"
  using assms by (auto simp: look_up_user_def get_user_by_id_def find_user_by_id_def access_def row_access_def is_disabled_def
      split: option.splits if_splits)

lemma signed_in_served:
  assumes "signed_in c u t g" and "signed_in c u t (f g)" and "i \<noteq> []"
  shows "handle_subscribe c (Some (JStr i)) None t f None st f' g = answer_subscription c i None (get_planning_job i u st) (f' (f g))"
proof -
  obtain k v where k: "gw_sockets (f g) c = Some k" "sk_tokenVersion k = Some v" "access u t = Some v"
    using assms(2) by (auto simp: signed_in_def split: option.splits)
  obtain x where x: "look_up_user None u t = Inr x" "\<not> is_disabled x" "u_tokenVersion x = v" using access_look_up [OF k(3)] by blast
  have "subscribe_request c (Some (JStr i)) g = Some (u, i)"
    using assms(1,3) by (auto simp: subscribe_request_def signed_in_def split: option.splits)
  then show ?thesis using k x by (simp add: handle_subscribe_def check_subscriber_def)
qed


definition owner_gate :: gateway_state where
  "owner_gate = \<lparr>gw_sockets = [js ''s'' \<mapsto> demo_socket\<lparr>sk_room := Some (js ''u''), sk_userId := Some (js ''u'')\<rparr>],
     gw_timers = Map.empty, gw_warnings = []\<rparr>"


end
