(* ===== verification/DocumentVersions.thy ===== *)
theory DocumentVersions
  imports Documents
begin

text \<open>
  Saved versions of a document: the MongoDB collection \<open>document_versions\<close> with its schema and
  repository (\<open>infrastructure/persistence/document-versions\<close>) and the use-cases of
  \<open>application/document-versions\<close>. The collection is the list of its documents in insertion
  order; the snapshot of a section is \<open>section_data\<close>, the shape that \<open>replaceAll\<close> takes.
\<close>

section \<open>Data\<close>

record document_version =
  dv_id :: ident
  dv_documentId :: ident
  dv_userId :: ident
  dv_version :: int
  dv_label :: "js_string option"
  dv_sections :: "section_data list"
  dv_savedAt :: time

record version_metadata =
  vm_id :: ident
  vm_documentId :: ident
  vm_version :: int
  vm_label :: "js_string option"
  vm_savedAt :: time
  vm_sectionCount :: nat

text \<open>
  A \<open>required\<close> string path of a Mongoose schema is refused when it is missing, and also when it
  is the empty string.
\<close>

datatype version_error = RequiredPathEmpty | DuplicateKey

definition snapshot_valid :: "section_data \<Rightarrow> bool" where
  "snapshot_valid d \<longleftrightarrow> sd_title d \<noteq> [] \<and> sd_content d \<noteq> [] \<and> sd_status d \<noteq> []"

section \<open>Repository\<close>

definition max_version :: "ident \<Rightarrow> document_version list \<Rightarrow> int option" where
  "max_version doc t =
     (case filter (\<lambda>v. dv_documentId v = doc) t of
        [] \<Rightarrow> None
      | v # vs \<Rightarrow> Some (Max (dv_version ` set (v # vs))))"

definition find_version :: "ident \<Rightarrow> document_version list \<Rightarrow> document_version option" where
  "find_version i t = find (\<lambda>v. dv_id v = i) t"

text \<open>\<open>model.create\<close> under the unique index on \<open>(document_id, version)\<close>.\<close>

definition insert_version ::
    "document_version \<Rightarrow> document_version list \<Rightarrow>
      (version_error + document_version) \<times> document_version list" where
  "insert_version v t =
     (if \<not> list_all snapshot_valid (dv_sections v) then (Inl RequiredPathEmpty, t)
      else if \<exists>w \<in> set t. dv_documentId w = dv_documentId v \<and> dv_version w = dv_version v
      then (Inl DuplicateKey, t)
      else (Inr v, t @ [v]))"

text \<open>
  \<open>createWithRetry\<close>. Each element of \<open>races\<close> is what other saves do to the collection between
  the read of the highest version and the insert of one attempt; there are two attempts at most.
\<close>

record version_data =
  vd_documentId :: ident
  vd_userId :: ident
  vd_label :: "js_string option"
  vd_sections :: "section_data list"

definition attempt_version ::
    "version_data \<Rightarrow> ident \<Rightarrow> time \<Rightarrow> (document_version list \<Rightarrow> document_version list) \<Rightarrow>
      document_version list \<Rightarrow> (version_error + document_version) \<times> document_version list" where
  "attempt_version data new_id now race t =
     (let next_version = (case max_version (vd_documentId data) t of None \<Rightarrow> 0 | Some m \<Rightarrow> m) + 1
      in insert_version \<lparr>dv_id = new_id, dv_documentId = vd_documentId data, dv_userId = vd_userId data,
           dv_version = next_version, dv_label = vd_label data, dv_sections = vd_sections data,
           dv_savedAt = now\<rparr> (race t))"

definition create_version ::
    "version_data \<Rightarrow> ident \<Rightarrow> time \<Rightarrow> (document_version list \<Rightarrow> document_version list) \<Rightarrow>
      (document_version list \<Rightarrow> document_version list) \<Rightarrow> document_version list \<Rightarrow>
      (version_error + document_version) \<times> document_version list" where
  "create_version data new_id now race1 race2 t =
     (case attempt_version data new_id now race1 t of
        (Inl DuplicateKey, t1) \<Rightarrow> attempt_version data new_id now race2 t1
      | r \<Rightarrow> r)"

definition metadata_of :: "document_version \<Rightarrow> version_metadata" where
  "metadata_of v = \<lparr>vm_id = dv_id v, vm_documentId = dv_documentId v, vm_version = dv_version v,
     vm_label = dv_label v, vm_savedAt = dv_savedAt v, vm_sectionCount = length (dv_sections v)\<rparr>"

definition find_versions_by_document :: "ident \<Rightarrow> document_version list \<Rightarrow> version_metadata list" where
  "find_versions_by_document doc t =
     map metadata_of (sort_key (\<lambda>v. - dv_savedAt v) (filter (\<lambda>v. dv_documentId v = doc) t))"

section \<open>Use-cases\<close>

definition version_not_found :: "ident \<Rightarrow> http_error" where
  "version_not_found i = NotFound (js ''Version '' @ i @ js '' not found'')"

definition snapshot_of :: "doc_section \<Rightarrow> section_data" where
  "snapshot_of n = \<lparr>sd_title = sn_title n, sd_content = sn_content n, sd_order = sn_order n,
     sd_status = sn_status n, sd_wordCount = sn_wordCount n\<rparr>"

text \<open>An error of the driver that leaves the use-case is answered as a 500.\<close>

definition save_version ::
    "(document_version list \<Rightarrow> document_version list) \<Rightarrow> (document_version list \<Rightarrow> document_version list) \<Rightarrow>
      ident \<Rightarrow> ident \<Rightarrow> ident \<Rightarrow> js_string option \<Rightarrow> time \<Rightarrow> docs_state \<Rightarrow> document_version list \<Rightarrow>
      (http_error + document_version) \<times> document_version list" where
  "save_version race1 race2 new_id user doc label now s t =
     (case get_document user doc s of
        Inl e \<Rightarrow> (Inl e, t)
      | Inr _ \<Rightarrow>
          (let data = \<lparr>vd_documentId = doc, vd_userId = user, vd_label = label,
                       vd_sections = map snapshot_of (find_sections_by_document doc (ds_sections s))\<rparr>;
               (r, t') = create_version data new_id now race1 race2 t
           in (map_sum (\<lambda>_. InternalError (js ''Internal server error'')) id r, t')))"

definition get_version ::
    "ident \<Rightarrow> ident \<Rightarrow> ident \<Rightarrow> docs_state \<Rightarrow> document_version list \<Rightarrow> http_error + document_version" where
  "get_version user doc i s t =
     (case get_document user doc s of
        Inl e \<Rightarrow> Inl e
      | Inr _ \<Rightarrow>
          (case find_version i t of
             None \<Rightarrow> Inl (version_not_found i)
           | Some v \<Rightarrow> (if dv_documentId v \<noteq> doc then Inl (version_not_found i) else Inr v)))"

definition list_versions ::
    "ident \<Rightarrow> ident \<Rightarrow> docs_state \<Rightarrow> document_version list \<Rightarrow> http_error + version_metadata list" where
  "list_versions user doc s t =
     map_sum id (\<lambda>_. find_versions_by_document doc t) (get_document user doc s)"

definition restore_version ::
    "(docs_state \<Rightarrow> docs_state) \<Rightarrow> ident list \<Rightarrow> ident \<Rightarrow> ident \<Rightarrow> ident \<Rightarrow> time \<Rightarrow> document_version list \<Rightarrow>
      docs_state \<Rightarrow> (http_error + int \<times> nat) \<times> docs_state" where
  "restore_version meanwhile new_ids user doc i now t s =
     (case get_version user doc i s t of
        Inl e \<Rightarrow> (Inl e, s)
      | Inr v \<Rightarrow>
          (let (r, s') = replace_all_sections new_ids doc (dv_sections v) now (meanwhile s)
           in (map_sum id (\<lambda>n. (dv_version v, n)) r, s')))"

section \<open>Lemmas\<close>

text \<open>Primary key and unique \<open>(document_id, version)\<close> index.\<close>

definition versions_ok :: "document_version list \<Rightarrow> bool" where
  "versions_ok t \<longleftrightarrow> distinct (map (\<lambda>v. (dv_documentId v, dv_version v)) t)"

lemma versions_ok_insert: "versions_ok t \<Longrightarrow> versions_ok (snd (insert_version v t))"
  by (auto simp: versions_ok_def insert_version_def)

lemma max_version_ge:
  assumes "v \<in> set t" and "dv_documentId v = doc"
  shows "dv_version v \<le> (case max_version doc t of None \<Rightarrow> 0 | Some m \<Rightarrow> m)"
proof -
  let ?vs = "filter (\<lambda>v. dv_documentId v = doc) t"
  from assms have v: "v \<in> set ?vs" by simp
  then have "max_version doc t = Some (Max (dv_version ` set ?vs))"
    unfolding max_version_def by (cases ?vs) (simp_all only: list.case list.set(1) empty_iff)
  moreover have "dv_version v \<le> Max (dv_version ` set ?vs)" using v by (intro Max_ge) auto
  ultimately show ?thesis by simp
qed

lemma insert_version_cases:
  assumes "insert_version v t = (r, t')"
  obtains "r = Inl RequiredPathEmpty" "t' = t" "\<not> list_all snapshot_valid (dv_sections v)"
  | "r = Inl DuplicateKey" "t' = t" "list_all snapshot_valid (dv_sections v)"
    "\<exists>w \<in> set t. dv_documentId w = dv_documentId v \<and> dv_version w = dv_version v"
  | "r = Inr v" "t' = t @ [v]" "list_all snapshot_valid (dv_sections v)"
    "\<forall>w \<in> set t. dv_documentId w = dv_documentId v \<longrightarrow> dv_version w \<noteq> dv_version v"
  using assms by (auto simp: insert_version_def split: if_splits)

text \<open>An attempt that nobody races always finds its version number free.\<close>

lemma unraced_attempt:
  assumes "list_all snapshot_valid (vd_sections data)"
  shows "\<exists>v. attempt_version data new_id now id t = (Inr v, t @ [v]) \<and> dv_id v = new_id \<and>
    dv_documentId v = vd_documentId data \<and> dv_sections v = vd_sections data \<and>
    dv_version v = (case max_version (vd_documentId data) t of None \<Rightarrow> 0 | Some m \<Rightarrow> m) + 1"
proof -
  have "dv_documentId w = vd_documentId data \<longrightarrow>
      dv_version w \<noteq> (case max_version (vd_documentId data) t of None \<Rightarrow> 0 | Some m \<Rightarrow> m) + 1"
    if "w \<in> set t" for w
    using max_version_ge [OF that, of "vd_documentId data"] by auto
  with assms show ?thesis by (auto simp: attempt_version_def insert_version_def Let_def)
qed

lemma attempt_version_sections:
  "attempt_version data new_id now race t = (Inr v, t') \<Longrightarrow>
    t' = race t @ [v] \<and> dv_id v = new_id \<and> dv_documentId v = vd_documentId data \<and>
    dv_sections v = vd_sections data"
  by (auto simp: attempt_version_def insert_version_def Let_def split: if_splits)

lemma create_version_Inr:
  assumes "create_version data new_id now race1 race2 t = (Inr v, t')"
  shows "(\<exists>t0. t' = t0 @ [v]) \<and> dv_id v = new_id \<and> dv_documentId v = vd_documentId data \<and>
    dv_sections v = vd_sections data"
  using assms
  by (auto simp: create_version_def split: prod.splits sum.splits version_error.splits
      dest: attempt_version_sections)

lemma snapshot_of_new_section [simp]: "snapshot_of (new_section i doc d now) = d"
  by (simp add: snapshot_of_def new_section_def)

text \<open>Reinserting sections that come in listing order lists them in that order.\<close>

lemma find_sections_after_replace:
  assumes "sorted (map sd_order ds)" and "length ids = length ds"
  shows "map snapshot_of (find_sections_by_document doc
      (sql_delete (\<lambda>n. sn_documentId n = doc) t @ map2 (\<lambda>i d. new_section i doc d now) ids ds)) = ds"
proof -
  let ?new = "map2 (\<lambda>i d. new_section i doc d now) ids ds"
  have old: "filter (\<lambda>n. sn_documentId n = doc) (sql_delete (\<lambda>n. sn_documentId n = doc) t) = []"
    by (simp add: sql_delete_def filter_empty_conv)
  have new: "filter (\<lambda>n. sn_documentId n = doc) ?new = ?new"
    by (rule filter_True) (auto simp: new_section_def)
  have "map sn_order ?new = map sd_order ds"
    using assms(2) by (induction ids ds rule: list_induct2) (simp_all add: new_section_def)
  then have ord: "sort_key sn_order ?new = ?new" using assms(1) by (simp add: sort_key_id_if_sorted)
  have "map sn_createdAt ?new = replicate (length ?new) now"
    using assms(2) by (induction ids ds rule: list_induct2) (simp_all add: new_section_def)
  then have "sorted (map sn_createdAt ?new)" by (simp add: sorted_replicate)
  then have created: "sort_key sn_createdAt ?new = ?new" by (rule sort_key_id_if_sorted)
  have "map snapshot_of ?new = ds"
    using assms(2) by (induction ids ds rule: list_induct2) simp_all
  then show ?thesis
    unfolding find_sections_by_document_def filter_append old new by (simp add: created ord)
qed

lemma sorted_snapshots:
  "sorted (map sd_order (map snapshot_of (find_sections_by_document doc t)))"
proof -
  have eq: "map sd_order (map snapshot_of ns) = map sn_order ns" for ns
    by (simp add: snapshot_of_def)
  show ?thesis unfolding eq by (simp add: find_sections_by_document_def)
qed

section \<open>Properties\<close>


definition sample_version :: document_version where
  "sample_version = the (map_option id (case fst (save_version id id (js ''v'') (js ''u'') (js ''d'') None 5
     sample_docs []) of Inl _ \<Rightarrow> None | Inr v \<Rightarrow> Some v))"

lemma sample_version_saved:
  "save_version id id (js ''v'') (js ''u'') (js ''d'') None 5 sample_docs [] = (Inr sample_version, [sample_version])
   \<and> length (dv_sections sample_version) = 1 \<and> dv_id sample_version = js ''v''"
  by (simp add: sample_version_def save_version_def sample_docs_def create_document_def create_section_def
      create_section_row_def get_document_def find_document_def emit_doc_def Let_def new_section_def
      create_version_def attempt_version_def insert_version_def find_sections_by_document_def
      snapshot_of_def snapshot_valid_def max_order_def)




text \<open>A document with a section that has no text yet cannot be saved as a version: Mongoose
  refuses an empty string for the required path \<open>content\<close>, so the save ends in a 500 and nothing
  is stored.\<close>

theorem empty_section_blocks_version:
  assumes "document_owner s doc = Some user" and "n \<in> set (ds_sections s)"
    and "sn_documentId n = doc" and "sn_content n = []"
  shows "save_version race1 race2 new_id user doc label now s t =
    (Inl (InternalError (js ''Internal server error'')), race1 t)"
proof -
  let ?ds = "map snapshot_of (find_sections_by_document doc (ds_sections s))"
  obtain d where d: "get_document user doc s = Inr d"
    using assms(1) by (auto simp: document_owner_def get_document_Inr)
  have "n \<in> set (find_sections_by_document doc (ds_sections s))"
    using assms(2,3) by (simp add: set_sections_by_document)
  then have "\<not> list_all snapshot_valid ?ds"
    using assms(4) by (force simp: list_all_iff snapshot_valid_def snapshot_of_def)
  then have "create_version \<lparr>vd_documentId = doc, vd_userId = user, vd_label = label, vd_sections = ?ds\<rparr>
      new_id now race1 race2 t = (Inl RequiredPathEmpty, race1 t)"
    by (simp add: create_version_def attempt_version_def insert_version_def Let_def)
  with d show ?thesis by (simp add: save_version_def)
qed

theorem empty_section_blocks_version_witness:
  "fst (save_version id id (js ''v'') (js ''u'') (js ''d'') None 9
     (snd (create_section id (js ''e'') (js ''u'') (js ''d'') (js ''t'') [] None 6 sample_docs)) []) =
   Inl (InternalError (js ''Internal server error''))"
proof -
  let ?s = "snd (create_section id (js ''e'') (js ''u'') (js ''d'') (js ''t'') [] None 6 sample_docs)"
  let ?n = "new_section (js ''e'') (js ''d'') \<lparr>sd_title = js ''t'', sd_content = [], sd_order = 1,
      sd_status = js ''draft'', sd_wordCount = 0\<rparr> 6"
  have "document_owner ?s (js ''d'') = Some (js ''u'')" "?n \<in> set (ds_sections ?s)"
    by (simp_all add: document_owner_def sample_docs_def create_document_def create_section_def
        create_section_row_def get_document_def find_document_def emit_doc_def Let_def max_order_def
        new_section_def word_count_def trim_def trim_start_def trim_end_def)
  from empty_section_blocks_version [OF this, of id id "js ''v''" None 9 "[]"] show ?thesis
    by (simp add: new_section_def)
qed

end
