(* ===== verification/Templates.thy ===== *)
theory Templates
  imports Documents Users
begin

text \<open>
  Document templates: \<open>domain/templates\<close>, the TypeORM repositories of
  \<open>infrastructure/persistence/templates\<close> and the use-cases of \<open>application/templates\<close>. Templates
  and their sections are two tables; applying a template writes to the documents' tables.
\<close>

section \<open>Data\<close>

record template_row =
  tr_id :: ident
  tr_title :: js_string
  tr_docType :: js_string
  tr_scope :: js_string
  tr_createdBy :: "ident option"
  tr_styleConfig :: "json_obj option"
  tr_isPublished :: bool
  tr_createdAt :: time
  tr_updatedAt :: time

record template_section_data =
  tsd_title :: js_string
  tsd_order :: int
  tsd_wordCountMin :: int
  tsd_wordCountMax :: int
  tsd_isRequired :: bool
  tsd_keyPoints :: "js_string list option"
  tsd_guidance :: "js_string option"

record template_section_row =
  tsr_id :: ident
  tsr_templateId :: ident
  tsr_data :: template_section_data

record template =
  te_row :: template_row
  te_sections :: "template_section_row list"

record template_section_input =
  tsi_title :: js_string
  tsi_order :: int
  tsi_wordCountMin :: int
  tsi_wordCountMax :: int
  tsi_isRequired :: "bool option"
  tsi_keyPoints :: "js_string list option"
  tsi_guidance :: "js_string option"

record document_template =
  dt_id :: ident
  dt_documentId :: ident
  dt_templateId :: ident
  dt_appliedAt :: time
  dt_customised :: bool

record templates_state =
  tp_rows :: "template_row list"
  tp_sections :: "template_section_row list"
  tp_applied :: "document_template list"
  tp_emitted :: "event list"

record template_patch =
  tpp_title :: "js_string option"
  tpp_docType :: "js_string option"
  tpp_scope :: "js_string option"
  tpp_styleConfig :: "json_obj option"
  tpp_isPublished :: "bool option"
  tpp_sections :: "template_section_input list option"

definition to_template_section_data :: "template_section_input \<Rightarrow> template_section_data" where
  "to_template_section_data i = \<lparr>tsd_title = tsi_title i, tsd_order = tsi_order i,
     tsd_wordCountMin = tsi_wordCountMin i, tsd_wordCountMax = tsi_wordCountMax i,
     tsd_isRequired = (case tsi_isRequired i of None \<Rightarrow> False | Some b \<Rightarrow> b),
     tsd_keyPoints = tsi_keyPoints i, tsd_guidance = tsi_guidance i\<rparr>"

section \<open>Repositories\<close>

definition section_order :: "template_section_row \<Rightarrow> int" where
  "section_order r = tsd_order (tsr_data r)"

definition template_to_domain :: "template_row \<Rightarrow> template_section_row list \<Rightarrow> template" where
  "template_to_domain r ss = \<lparr>te_row = r, te_sections = sort_key section_order ss\<rparr>"

definition sections_of :: "ident \<Rightarrow> templates_state \<Rightarrow> template_section_row list" where
  "sections_of i s = sort_key section_order (filter (\<lambda>r. tsr_templateId r = i) (tp_sections s))"

definition find_template :: "ident \<Rightarrow> templates_state \<Rightarrow> template option" where
  "find_template i s =
     map_option (\<lambda>r. template_to_domain r (sections_of i s)) (find (\<lambda>r. tr_id r = i) (tp_rows s))"

definition find_visible ::
    "ident \<Rightarrow> js_string option \<Rightarrow> js_string option \<Rightarrow> templates_state \<Rightarrow> template list" where
  "find_visible user doc_type scope s =
     map (\<lambda>r. template_to_domain r (sections_of (tr_id r) s))
       (filter (\<lambda>r. (tr_isPublished r \<or> tr_createdBy r = Some user) \<and>
          (case doc_type of None \<Rightarrow> True | Some d \<Rightarrow> d = [] \<or> tr_docType r = d) \<and>
          (case scope of None \<Rightarrow> True | Some c \<Rightarrow> c = [] \<or> tr_scope r = c)) (tp_rows s))"

definition section_rows ::
    "ident list \<Rightarrow> ident \<Rightarrow> template_section_data list \<Rightarrow> template_section_row list" where
  "section_rows ids t ds = map2 (\<lambda>i d. \<lparr>tsr_id = i, tsr_templateId = t, tsr_data = d\<rparr>) ids ds"

definition create_template_row ::
    "template_row \<Rightarrow> ident list \<Rightarrow> template_section_data list \<Rightarrow> templates_state \<Rightarrow> template \<times> templates_state" where
  "create_template_row r ids ds s =
     (template_to_domain r (section_rows ids (tr_id r) ds),
      s\<lparr>tp_rows := tp_rows s @ [r], tp_sections := tp_sections s @ section_rows ids (tr_id r) ds\<rparr>)"

datatype update_error = TemplateMissing | TemplatePublishedError

definition patch_template :: "template_patch \<Rightarrow> time \<Rightarrow> template_row \<Rightarrow> template_row" where
  "patch_template p now r = r\<lparr>tr_title := patched (tpp_title p) (tr_title r),
     tr_docType := patched (tpp_docType p) (tr_docType r), tr_scope := patched (tpp_scope p) (tr_scope r),
     tr_styleConfig := (case tpp_styleConfig p of None \<Rightarrow> tr_styleConfig r | Some c \<Rightarrow> Some c),
     tr_isPublished := patched (tpp_isPublished p) (tr_isPublished r), tr_updatedAt := now\<rparr>"

text \<open>\<open>update\<close>: one transaction under a lock of the template's row.\<close>

definition update_template_row ::
    "ident list \<Rightarrow> ident \<Rightarrow> template_patch \<Rightarrow> bool \<Rightarrow> time \<Rightarrow> templates_state \<Rightarrow>
      (update_error + template) \<times> templates_state" where
  "update_template_row ids i p only_if_unpublished now s =
     (case find (\<lambda>r. tr_id r = i) (tp_rows s) of
        None \<Rightarrow> (Inl TemplateMissing, s)
      | Some locked \<Rightarrow>
          (if only_if_unpublished \<and> tr_isPublished locked then (Inl TemplatePublishedError, s)
           else
             (let rows = sql_update (\<lambda>r. tr_id r = i) (patch_template p now) (tp_rows s);
                  sections = (case tpp_sections p of
                       None \<Rightarrow> tp_sections s
                     | Some inputs \<Rightarrow> sql_delete (\<lambda>r. tsr_templateId r = i) (tp_sections s) @
                         section_rows ids i (map to_template_section_data inputs));
                  s' = s\<lparr>tp_rows := rows, tp_sections := sections\<rparr>
              in (Inr (template_to_domain (patch_template p now locked) (sections_of i s')), s'))))"

definition delete_template_row :: "ident \<Rightarrow> templates_state \<Rightarrow> templates_state" where
  "delete_template_row i s = s\<lparr>tp_rows := sql_delete (\<lambda>r. tr_id r = i) (tp_rows s),
     tp_sections := sql_delete (\<lambda>r. tsr_templateId r = i) (tp_sections s),
     tp_applied := sql_delete (\<lambda>r. dt_templateId r = i) (tp_applied s)\<rparr>"

text \<open>
  \<open>applyToDocument\<close>: one transaction; inserting the rows needs the document and the template.
\<close>

definition numbered :: "int \<Rightarrow> js_string list \<Rightarrow> section_data list" where
  "numbered k titles = map2 (\<lambda>n title. \<lparr>sd_title = title, sd_content = [], sd_order = k + int n,
      sd_status = js ''draft'', sd_wordCount = 0\<rparr>) [0..<length titles] titles"

definition apply_to_document ::
    "ident list \<Rightarrow> ident \<Rightarrow> ident \<Rightarrow> ident \<Rightarrow> js_string list \<Rightarrow> time \<Rightarrow> templates_state \<times> docs_state \<Rightarrow>
      (http_error + document_template \<times> nat) \<times> templates_state \<times> docs_state" where
  "apply_to_document ids new_id doc t titles now s =
     (case s of (ts, ds) \<Rightarrow>
        if find_document doc (ds_documents ds) = None \<or> find (\<lambda>r. tr_id r = t) (tp_rows ts) = None
        then (Inl fk_violation, s)
        else
          (let next_order = (case max_order doc (ds_sections ds) of None \<Rightarrow> -1 | Some m \<Rightarrow> m) + 1;
               rows = map2 (\<lambda>i d. new_section i doc d now) ids (numbered next_order titles);
               applied = \<lparr>dt_id = new_id, dt_documentId = doc, dt_templateId = t, dt_appliedAt = now,
                          dt_customised = False\<rparr>
           in (Inr (applied, length titles),
               ts\<lparr>tp_applied := tp_applied ts @ [applied]\<rparr>,
               ds\<lparr>ds_sections := ds_sections ds @ rows\<rparr>)))"

section \<open>Use-cases\<close>

definition emit_template :: "event \<Rightarrow> templates_state \<Rightarrow> templates_state" where
  "emit_template e s = s\<lparr>tp_emitted := tp_emitted s @ [e]\<rparr>"

definition template_not_found :: "ident \<Rightarrow> http_error" where
  "template_not_found i = NotFound (js ''Template '' @ i @ js '' not found'')"

definition assert_template_visible :: "template option \<Rightarrow> ident \<Rightarrow> ident \<Rightarrow> http_error + template" where
  "assert_template_visible t user i =
     (case t of
        None \<Rightarrow> Inl (template_not_found i)
      | Some x \<Rightarrow>
          (if \<not> tr_isPublished (te_row x) \<and> tr_createdBy (te_row x) \<noteq> Some user
           then Inl (template_not_found i) else Inr x))"

definition assert_template_editable ::
    "template option \<Rightarrow> ident \<Rightarrow> ident \<Rightarrow> user_role \<Rightarrow> http_error + template" where
  "assert_template_editable t user i role =
     (case t of
        None \<Rightarrow> Inl (template_not_found i)
      | Some x \<Rightarrow>
          (if role = RoleAdmin then Inr x
           else if tr_createdBy (te_row x) = None \<or> tr_createdBy (te_row x) \<noteq> Some user
           then Inl (template_not_found i)
           else Inr x))"

definition get_template :: "ident \<Rightarrow> ident \<Rightarrow> templates_state \<Rightarrow> http_error + template" where
  "get_template user i s = assert_template_visible (find_template i s) user i"

definition list_templates ::
    "ident \<Rightarrow> js_string option \<Rightarrow> js_string option \<Rightarrow> templates_state \<Rightarrow> template list" where
  "list_templates user doc_type scope s = find_visible user doc_type scope s"

record create_template_input =
  cti_title :: js_string
  cti_docType :: js_string
  cti_scope :: js_string
  cti_styleConfig :: "json_obj option"
  cti_isPublished :: "bool option"
  cti_sections :: "template_section_input list"

definition create_template ::
    "ident list \<Rightarrow> ident \<Rightarrow> ident \<Rightarrow> user_role \<Rightarrow> create_template_input \<Rightarrow> time \<Rightarrow> templates_state \<Rightarrow>
      (http_error + template) \<times> templates_state" where
  "create_template ids new_id user role input now s =
     (if cti_isPublished input = Some True \<and> role \<noteq> RoleAdmin
      then (Inl (Forbidden (js ''Only an admin can publish a template'')), s)
      else
        (let row = \<lparr>tr_id = new_id, tr_title = cti_title input, tr_docType = cti_docType input,
                    tr_scope = cti_scope input, tr_createdBy = Some user,
                    tr_styleConfig = cti_styleConfig input,
                    tr_isPublished = (cti_isPublished input = Some True),
                    tr_createdAt = now, tr_updatedAt = now\<rparr>;
             (t, s1) = create_template_row row ids (map to_template_section_data (cti_sections input)) s;
             s2 = emit_template (TemplateCreated user new_id) s1
         in (Inr t, if tr_isPublished row then emit_template (TemplatePublished user new_id) s2 else s2)))"

text \<open>\<open>Object.entries(patch).filter(defined)\<close>, in the order of the request's fields.\<close>

definition changed_fields :: "template_patch \<Rightarrow> js_string list" where
  "changed_fields p =
     (if tpp_title p \<noteq> None then [js ''title''] else []) @
     (if tpp_docType p \<noteq> None then [js ''docType''] else []) @
     (if tpp_scope p \<noteq> None then [js ''scope''] else []) @
     (if tpp_styleConfig p \<noteq> None then [js ''styleConfig''] else []) @
     (if tpp_isPublished p \<noteq> None then [js ''isPublished''] else []) @
     (if tpp_sections p \<noteq> None then [js ''sections''] else [])"

definition published_forbidden :: http_error where
  "published_forbidden = Forbidden (js ''Only an admin can modify a published template'')"

definition update_template ::
    "(templates_state \<Rightarrow> templates_state) \<Rightarrow> ident list \<Rightarrow> ident \<Rightarrow> user_role \<Rightarrow> ident \<Rightarrow> template_patch \<Rightarrow>
      time \<Rightarrow> templates_state \<Rightarrow> (http_error + template) \<times> templates_state" where
  "update_template meanwhile ids user role i p now s =
     (case assert_template_editable (find_template i s) user i role of
        Inl e \<Rightarrow> (Inl e, s)
      | Inr editable \<Rightarrow>
          (if role \<noteq> RoleAdmin \<and> tr_isPublished (te_row editable) then (Inl published_forbidden, s)
           else if role \<noteq> RoleAdmin \<and> tpp_isPublished p = Some True
           then (Inl (Forbidden (js ''Only an admin can publish a template'')), s)
           else
             (case update_template_row ids i p (role \<noteq> RoleAdmin) now (meanwhile s) of
                (Inl TemplatePublishedError, s1) \<Rightarrow> (Inl published_forbidden, s1)
              | (Inl TemplateMissing, s1) \<Rightarrow> (Inl (template_not_found i), s1)
              | (Inr updated, s1) \<Rightarrow>
                  (let s2 = emit_template (TemplateUpdated user i (changed_fields p)) s1
                   in (Inr updated,
                       if tr_isPublished (te_row updated) = tr_isPublished (te_row editable) then s2
                       else if tr_isPublished (te_row updated)
                       then emit_template (TemplatePublished user i) s2
                       else emit_template (TemplateUnpublished user i) s2)))))"

definition delete_template ::
    "ident \<Rightarrow> user_role \<Rightarrow> ident \<Rightarrow> templates_state \<Rightarrow> (http_error + unit) \<times> templates_state" where
  "delete_template user role i s =
     (case assert_template_editable (find_template i s) user i role of
        Inl e \<Rightarrow> (Inl e, s)
      | Inr _ \<Rightarrow> (Inr (), emit_template (TemplateDeleted user i) (delete_template_row i s)))"

definition doc_type_mismatch :: "js_string \<Rightarrow> js_string \<Rightarrow> http_error" where
  "doc_type_mismatch t d = BadRequest (js ''Template doc type '' @ [39] @ t @ [39] @
     js '' does not match document doc type '' @ [39] @ d @ [39])"

definition apply_template ::
    "ident list \<Rightarrow> ident \<Rightarrow> ident \<Rightarrow> ident \<Rightarrow> ident \<Rightarrow> time \<Rightarrow> templates_state \<times> docs_state \<Rightarrow>
      (http_error + document_template \<times> nat) \<times> templates_state \<times> docs_state" where
  "apply_template ids new_id user t doc now s =
     (case assert_template_visible (find_template t (fst s)) user t of
        Inl e \<Rightarrow> (Inl e, s)
      | Inr template \<Rightarrow>
          (case get_document user doc (snd s) of
             Inl e \<Rightarrow> (Inl e, s)
           | Inr d \<Rightarrow>
               (if tr_docType (te_row template) \<noteq> dm_docType d
                then (Inl (doc_type_mismatch (tr_docType (te_row template)) (dm_docType d)), s)
                else apply_to_document ids new_id doc t
                       (map (tsd_title \<circ> tsr_data) (sort_key section_order (te_sections template))) now s)))"

section \<open>Lemmas\<close>

lemma find_templateD:
  "find_template i s = Some x \<Longrightarrow> find (\<lambda>r. tr_id r = i) (tp_rows s) = Some (te_row x)"
  by (auto simp: find_template_def template_to_domain_def)

lemma patch_template_sel [simp]:
  "tr_id (patch_template p now r) = tr_id r" "tr_createdBy (patch_template p now r) = tr_createdBy r"
  "tr_isPublished (patch_template p now r) = patched (tpp_isPublished p) (tr_isPublished r)"
  by (simp_all add: patch_template_def)

lemma emit_template_sel [simp]:
  "tp_rows (emit_template e s) = tp_rows s" "tp_sections (emit_template e s) = tp_sections s"
  "tp_applied (emit_template e s) = tp_applied s"
  by (simp_all add: emit_template_def)

lemma filter_section_rows: "k \<noteq> i \<Longrightarrow> filter (\<lambda>n. tsr_templateId n = k) (section_rows ids i ds) = []"
  by (auto simp: section_rows_def filter_empty_conv)

lemma filter_sql_delete_sections:
  "k \<noteq> i \<Longrightarrow> filter (\<lambda>n. tsr_templateId n = k) (sql_delete (\<lambda>r. tsr_templateId r = i) t) =
    filter (\<lambda>n. tsr_templateId n = k) t"
  by (induction t) (auto simp: sql_delete_def)

text \<open>The published rows of a table, with their sections.\<close>

definition published :: "templates_state \<Rightarrow> (template_row \<times> template_section_row list) list" where
  "published s = map (\<lambda>r. (r, filter (\<lambda>n. tsr_templateId n = tr_id r) (tp_sections s)))
     (filter tr_isPublished (tp_rows s))"

lemma published_update_unpublished:
  assumes "find (\<lambda>r. tr_id r = i) (tp_rows s) = Some locked" and "distinct (map tr_id (tp_rows s))"
    and "\<not> tr_isPublished locked" and "patched (tpp_isPublished p) False = False"
    and "update_template_row ids i p True now s = (Inr x, s')"
  shows "published s' = published s"
proof -
  let ?f = "patch_template p now"
  from find_SomeD [OF assms(1)] have l: "locked \<in> set (tp_rows s)" "tr_id locked = i" by auto
  have only: "r = locked" if "r \<in> set (tp_rows s)" "tr_id r = i" for r
    using that l assms(2) by (auto simp: distinct_map dest: inj_onD)
  have sections: "filter (\<lambda>n. tsr_templateId n = k) (tp_sections s') =
      filter (\<lambda>n. tsr_templateId n = k) (tp_sections s)" if "k \<noteq> i" for k
    using assms(1,3,5) that
    by (auto simp: update_template_row_def Let_def filter_section_rows filter_sql_delete_sections
        split: option.splits)
  have rows: "tp_rows s' = sql_update (\<lambda>r. tr_id r = i) ?f (tp_rows s)"
    using assms(1,3,5) by (auto simp: update_template_row_def Let_def)
  have "filter tr_isPublished (sql_update (\<lambda>r. tr_id r = i) ?f t) = filter tr_isPublished t"
    if "set t \<subseteq> set (tp_rows s)" for t
    using that assms(3,4) by (induction t) (auto dest!: only)
  then have "filter tr_isPublished (tp_rows s') = filter tr_isPublished (tp_rows s)"
    unfolding rows by simp
  moreover have "tr_id r \<noteq> i" if "r \<in> set (filter tr_isPublished (tp_rows s))" for r
    using that assms(3) only by auto
  ultimately show ?thesis unfolding published_def using sections by auto
qed

section \<open>Properties\<close>


definition sample_template :: template_row where
  "sample_template = \<lparr>tr_id = js ''t'', tr_title = [], tr_docType = js ''k'', tr_scope = [],
     tr_createdBy = Some (js ''u''), tr_styleConfig = None, tr_isPublished = False, tr_createdAt = 0,
     tr_updatedAt = 0\<rparr>"

definition sample_templates :: templates_state where
  "sample_templates = \<lparr>tp_rows = [sample_template], tp_sections = section_rows [js ''x''] (js ''t'')
     [\<lparr>tsd_title = js ''Intro'', tsd_order = 0, tsd_wordCountMin = 0, tsd_wordCountMax = 9,
       tsd_isRequired = False, tsd_keyPoints = None, tsd_guidance = None\<rparr>],
     tp_applied = [], tp_emitted = []\<rparr>"


text \<open>Applying a template appends one empty section per section of the template to the end of the
  user's own document, in the order of the template, and records one application; or it is refused
  and both the templates' and the documents' tables are unchanged. It needs a template that is
  published or the user's own, of the document's type.\<close>

theorem apply_template_appends:
  assumes "apply_template ids new_id user t doc now (ts, ds) = (r, s')"
    and "find_template t ts = Some x" and "length ids = length (te_sections x)"
  shows "(case r of
      Inl _ \<Rightarrow> s' = (ts, ds)
    | Inr (applied, n) \<Rightarrow>
        (tr_isPublished (te_row x) \<or> tr_createdBy (te_row x) = Some user) \<and>
        document_owner ds doc = Some user \<and> n = length (te_sections x) \<and>
        tp_applied (fst s') = tp_applied ts @ [applied] \<and>
        (\<exists>new. find_sections_by_document doc (ds_sections (snd s')) =
            find_sections_by_document doc (ds_sections ds) @ new \<and>
          map sn_title new = map (tsd_title \<circ> tsr_data) (sections_of t ts) \<and>
          (\<forall>n \<in> set new. sn_content n = [] \<and> sn_wordCount n = 0)))"
proof (cases r)
  case (Inl e)
  with assms(1) show ?thesis
    by (auto simp: apply_template_def apply_to_document_def Let_def split: sum.splits if_splits)
next
  case (Inr a)
  let ?titles = "map (tsd_title \<circ> tsr_data) (sort_key section_order (te_sections x))"
  let ?k = "(case max_order doc (ds_sections ds) of None \<Rightarrow> -1 | Some m \<Rightarrow> m) + 1"
  let ?new = "map2 (\<lambda>i d. new_section i doc d now) ids (numbered ?k ?titles)"
  from assms(1,2) Inr have vis: "tr_isPublished (te_row x) \<or> tr_createdBy (te_row x) = Some user"
    and own: "document_owner ds doc = Some user"
    and a: "snd a = length (te_sections x)" "tp_applied (fst s') = tp_applied ts @ [fst a]"
    and rows: "ds_sections (snd s') = ds_sections ds @ ?new"
    by (auto simp: apply_template_def apply_to_document_def assert_template_visible_def get_document_def
        document_owner_def Let_def split: sum.splits if_splits option.splits)
  have sorted: "sort_key section_order (te_sections x) = sections_of t ts"
    using assms(2) by (auto simp: find_template_def template_to_domain_def sections_of_def sort_key_id_if_sorted)
  have len: "length ids = length (numbered ?k ?titles)" using assms(3) by (simp add: numbered_def)
  have append: "find_sections_by_document doc (t0 @ map2 (\<lambda>i d. new_section i doc d now) js ds') =
      find_sections_by_document doc t0 @ map2 (\<lambda>i d. new_section i doc d now) js ds'"
    if "length js = length ds'" "sorted_wrt (<) (map sd_order ds')"
      "\<forall>n \<in> set t0. sn_documentId n = doc \<longrightarrow> (\<forall>d \<in> set ds'. sn_order n < sd_order d)" for t0 js ds'
    using that
  proof (induction js ds' arbitrary: t0 rule: list_induct2)
    case (Cons j js d ds')
    let ?n = "new_section j doc d now"
    have n: "sn_documentId ?n = doc" "sn_order ?n = sd_order d" by (simp_all add: new_section_def)
    have "find_sections_by_document doc (t0 @ [?n]) = find_sections_by_document doc t0 @ [?n]"
      unfolding find_sections_by_document_def filter_append
      using sort_key_append_max [of "filter (\<lambda>n. sn_documentId n = doc) t0" sn_order ?n sn_createdAt] Cons.prems n
      by simp
    moreover have "find_sections_by_document doc ((t0 @ [?n]) @ map2 (\<lambda>i d. new_section i doc d now) js ds') =
        find_sections_by_document doc (t0 @ [?n]) @ map2 (\<lambda>i d. new_section i doc d now) js ds'"
      using Cons.prems n by (intro Cons.IH) auto
    ultimately show ?case by simp
  qed simp
  have orders: "map sd_order (numbered ?k ?titles) = map (\<lambda>n. ?k + int n) [0..<length ?titles]"
    by (rule nth_equalityI) (simp_all add: numbered_def)
  have "find_sections_by_document doc (ds_sections (snd s')) =
      find_sections_by_document doc (ds_sections ds) @ ?new"
    unfolding rows
  proof (rule append [OF len])
    show "sorted_wrt (<) (map sd_order (numbered ?k ?titles))"
      unfolding orders by (auto simp: sorted_wrt_iff_nth_less)
    show "\<forall>n \<in> set (ds_sections ds). sn_documentId n = doc \<longrightarrow>
        (\<forall>d \<in> set (numbered ?k ?titles). sn_order n < sd_order d)"
      using max_order_less [of _ "ds_sections ds" doc]
      by (fastforce simp: numbered_def dest: set_zip_rightD)
  qed
  moreover have "map sn_title ?new = ?titles"
    using len by (intro nth_equalityI) (simp_all add: numbered_def new_section_def)
  moreover have "\<forall>n \<in> set ?new. sn_content n = [] \<and> sn_wordCount n = 0"
    by (auto simp: new_section_def numbered_def elim!: in_set_zipE)
  ultimately show ?thesis using Inr vis own a sorted by (auto simp: case_prod_beta)
qed

theorem apply_template_appends_witness:
  "\<exists>new. find_sections_by_document (js ''d'') (ds_sections (snd (snd (apply_template [js ''n''] (js ''dt'')
      (js ''u'') (js ''t'') (js ''d'') 9 (sample_templates, sample_docs))))) =
    find_sections_by_document (js ''d'') (ds_sections sample_docs) @ new"
proof -
  let ?run = "apply_template [js ''n''] (js ''dt'') (js ''u'') (js ''t'') (js ''d'') 9
      (sample_templates, sample_docs)"
  have run: "?run = (fst ?run, snd ?run)" by simp
  let ?x = "template_to_domain sample_template (sections_of (js ''t'') sample_templates)"
  have found: "find_template (js ''t'') sample_templates = Some ?x"
    by (simp add: find_template_def sample_templates_def sample_template_def)
  have len: "length [js ''n''] = length (te_sections ?x)"
    by (simp add: template_to_domain_def sections_of_def sample_templates_def section_rows_def)
  from apply_template_appends [OF run found len] show ?thesis
    by (cases "fst ?run") (auto simp: case_prod_beta intro: exI [of _ "[]"])
qed

end
