(* ===== verification/PromptGuards.thy ===== *)
theory PromptGuards
  imports JsText "HOL-Library.Sublist"
begin

text \<open>
  The guards around untrusted text (\<open>domain/ai/prompt-guards.ts\<close>): the fence tags, the walk over
  JSON values and the leak check. Prompts fence untrusted text with \<open><untrusted_...>\<close> tags, so no
  text may contain one. Two functions are parameters: \<open>redact\<close>, the regular expressions of
  \<open>redactSecrets\<close>, of which the lemmas use nothing; and \<open>lower\<close>, the Unicode
  \<open>String.prototype.toLowerCase\<close>.
\<close>

section \<open>Fence tags\<close>

text \<open>
  The flag \<open>i\<close> without \<open>u\<close> folds an ASCII letter with the other case only. A marker is unambiguous:
  \<open>\s*\<close> cannot match the \<open>/\<close> or \<open>u\<close> that must follow.
\<close>

definition ascii_lower :: "16 word \<Rightarrow> 16 word" where
  "ascii_lower c = (if 65 \<le> c \<and> c \<le> 90 then c + 32 else c)"

definition skip_slash :: "js_string \<Rightarrow> js_string" where
  "skip_slash s = (case s of [] \<Rightarrow> [] | c # r \<Rightarrow> if c = 47 then dropWhile js_ws r else s)"

definition tag_word :: "js_string \<Rightarrow> bool" where
  "tag_word s \<longleftrightarrow> map ascii_lower (take 10 s) = js ''untrusted_''"

text \<open>What follows a match of \<open>UNTRUSTED_TAG_MARKER\<close> at the start of the text.\<close>

definition tag_rest :: "js_string \<Rightarrow> js_string option" where
  "tag_rest s =
     (case s of
        [] \<Rightarrow> None
      | c # r \<Rightarrow>
          (let t = skip_slash (dropWhile js_ws r) in
           if c = 60 \<and> tag_word t then Some (drop 10 t) else None))"

lemma length_skip_slash: "length (skip_slash s) \<le> length s"
  by (auto simp: skip_slash_def length_dropWhile_le le_SucI split: list.splits)

lemma tag_rest_shorter:
  "tag_rest s = Some r \<Longrightarrow> length r < length s"
proof -
  assume "tag_rest s = Some r"
  then obtain c t where s: "s = c # t" and r: "r = drop 10 (skip_slash (dropWhile js_ws t))"
    by (auto simp: tag_rest_def Let_def split: list.splits if_splits)
  have "length (skip_slash (dropWhile js_ws t)) \<le> length t"
    by (rule le_trans [OF length_skip_slash length_dropWhile_le])
  then show ?thesis using s r by simp
qed

lemma tag_rest_shorter_Cons [termination_simp]:
  "tag_rest (c # s) = Some r \<Longrightarrow> length r < Suc (length s)"
  using tag_rest_shorter by fastforce

text \<open>\<open>neutralizeUntrustedTags\<close>: the underscore of each match becomes a hyphen.\<close>

fun neutralize_untrusted_tags :: "js_string \<Rightarrow> js_string" where
  "neutralize_untrusted_tags [] = []"
| "neutralize_untrusted_tags (c # s) =
     (case tag_rest (c # s) of
        None \<Rightarrow> c # neutralize_untrusted_tags s
      | Some r \<Rightarrow> take (length (c # s) - length r - 1) (c # s) @ 45 # neutralize_untrusted_tags r)"

definition has_fence_tag :: "js_string \<Rightarrow> bool" where
  "has_fence_tag s \<longleftrightarrow> list_ex (\<lambda>t. tag_rest t \<noteq> None) (suffixes s)"

definition prepare_untrusted_text :: "(js_string \<Rightarrow> js_string) \<Rightarrow> js_string \<Rightarrow> js_string" where
  "prepare_untrusted_text redact text = neutralize_untrusted_tags (redact text)"

section \<open>JSON values\<close>

definition redaction_placeholder :: js_string where
  "redaction_placeholder = js ''[REDACTED]''"

definition max_walk_depth :: nat where
  "max_walk_depth = 20"

text \<open>
  \<open>SENSITIVE_KEY\<close>: one of these words, in any case, at the end of the key, after nothing or after
  one of \<open>_ . -\<close> on the same line.
\<close>

definition sensitive_words :: "js_string list" where
  "sensitive_words = map js ([''password'', ''passwd'', ''pwd'', ''credential'', ''credentials'', ''secret'',
     ''token'', ''apikey'', ''authorization''] @
     [w @ sep @ ''key''. w \<leftarrow> [''secret'', ''private'', ''access'', ''auth'', ''api''], sep \<leftarrow> [[], ''_'', ''-'']])"

definition line_end :: "16 word \<Rightarrow> bool" where
  "line_end c \<longleftrightarrow> c = 10 \<or> c = 13 \<or> c = 0x2028 \<or> c = 0x2029"

definition sensitive_key :: "js_string \<Rightarrow> bool" where
  "sensitive_key k \<longleftrightarrow> list_ex (\<lambda>w.
     let n = length k - length w in
     length w \<le> length k \<and> map ascii_lower (drop n k) = w \<and>
     (n = 0 \<or> (k ! (n - 1) \<in> {95, 46, 45} \<and> \<not> list_ex line_end (take (n - 1) k)))) sensitive_words"

text \<open>
  An assignment \<open>out[key] = v\<close> on an object literal: a key that is present keeps its place, and
  \<open>__proto__\<close> makes no own property.
\<close>

fun assign_prop :: "js_string \<Rightarrow> json \<Rightarrow> json_obj \<Rightarrow> json_obj" where
  "assign_prop k v [] = (if k = js ''__proto__'' then [] else [(k, v)])"
| "assign_prop k v ((k', v') # ps) = (if k' = k then (k, v) # ps else (k', v') # assign_prop k v ps)"

fun is_json_string :: "json \<Rightarrow> bool" where
  "is_json_string (JStr s) = True"
| "is_json_string v = False"

fun prepare_untrusted_value ::
    "(js_string \<Rightarrow> js_string) \<Rightarrow> nat \<Rightarrow> nat \<Rightarrow> json \<Rightarrow> json" where
  "prepare_untrusted_value redact cap depth (JStr s) = JStr (prepare_untrusted_text redact (take cap s))"
| "prepare_untrusted_value redact cap depth (JArr vs) =
     (if max_walk_depth \<le> depth then JStr redaction_placeholder
      else JArr (map (prepare_untrusted_value redact cap (depth + 1)) vs))"
| "prepare_untrusted_value redact cap depth (JObj ps) =
     (if max_walk_depth \<le> depth then JStr redaction_placeholder
      else JObj (fold (\<lambda>(k, v). assign_prop (neutralize_untrusted_tags k) v)
        (map (\<lambda>(k, v). (k, if is_json_string v \<and> sensitive_key k then JStr redaction_placeholder
                          else prepare_untrusted_value redact cap (depth + 1) v)) ps) []))"
| "prepare_untrusted_value redact cap depth v = v"

fun collect_strings :: "nat \<Rightarrow> json \<Rightarrow> js_string list" where
  "collect_strings depth (JStr s) = [s]"
| "collect_strings depth (JArr vs) =
     (if max_walk_depth \<le> depth then [] else concat (map (collect_strings (depth + 1)) vs))"
| "collect_strings depth (JObj ps) =
     (if max_walk_depth \<le> depth then [] else concat (map (\<lambda>(_, v). collect_strings (depth + 1) v) ps))"
| "collect_strings depth _ = []"

section \<open>The leak check\<close>

record leak_context =
  lk_nonce :: js_string
  lk_system :: js_string
  lk_source :: js_string

definition min_leak_sentence_chars :: nat where
  "min_leak_sentence_chars = 40"

definition normalize_text :: "(js_string \<Rightarrow> js_string) \<Rightarrow> js_string \<Rightarrow> js_string" where
  "normalize_text lower text = lower (trim (collapse_ws text))"

text \<open>\<open>split(/[.!?\n]+/)\<close>.\<close>

definition sentence_end :: "16 word \<Rightarrow> bool" where
  "sentence_end c \<longleftrightarrow> c = 46 \<or> c = 33 \<or> c = 63 \<or> c = 10"

fun split_sentences :: "js_string \<Rightarrow> js_string list" where
  "split_sentences [] = [[]]"
| "split_sentences (c # s) =
     (if sentence_end c then [] # split_sentences (dropWhile sentence_end s)
      else (case split_sentences s of [] \<Rightarrow> [[c]] | w # ws \<Rightarrow> (c # w) # ws))"

definition leaks_prompt :: "(js_string \<Rightarrow> js_string) \<Rightarrow> js_string \<Rightarrow> leak_context \<Rightarrow> bool" where
  "leaks_prompt lower out ctx \<longleftrightarrow>
     (lk_nonce ctx \<noteq> [] \<and> str_includes (lower out) (lower (lk_nonce ctx))) \<or>
     list_ex (\<lambda>sentence.
         str_includes (normalize_text lower out) sentence \<and>
         \<not> str_includes (normalize_text lower (lk_source ctx)) sentence)
       (filter (\<lambda>x. min_leak_sentence_chars \<le> length x)
         (map (normalize_text lower) (split_sentences (lk_system ctx))))"

section \<open>Lemmas on fence tags\<close>

text \<open>The language of the regular expression.\<close>

definition fence_marker :: "js_string \<Rightarrow> bool" where
  "fence_marker m \<longleftrightarrow> (\<exists>v slash w u. m = 60 # v @ slash @ w @ u \<and> list_all js_ws v \<and> list_all js_ws w \<and>
     (slash = [] \<and> w = [] \<or> slash = [47]) \<and> map ascii_lower u = js ''untrusted_'')"

lemma fence_word_chars:
  assumes "map ascii_lower u = js ''untrusted_''"
  shows "length u = 10" and "c \<in> set u \<Longrightarrow> ascii_lower c \<in> set (js ''untrusted_'')"
proof -
  from assms have "length (map ascii_lower u) = length (js ''untrusted_'')" by simp
  then show "length u = 10" by (simp add: js_def)
  show "c \<in> set u \<Longrightarrow> ascii_lower c \<in> set (js ''untrusted_'')" 
    using assms by (metis image_eqI list.set_map)
qed

lemma fence_word_not_ws: "ascii_lower c \<in> set (js ''untrusted_'') \<Longrightarrow> \<not> js_ws c \<and> c \<noteq> 47 \<and> c \<noteq> 60 \<and> c \<noteq> 45"
  by (auto simp: ascii_lower_def js_ws_def js_def split: if_splits)

lemma dropWhile_ws_append:
  "list_all js_ws v \<Longrightarrow> (t = [] \<or> \<not> js_ws (hd t)) \<Longrightarrow> dropWhile js_ws (v @ t) = t"
  by (induction v) (auto simp: dropWhile_eq_self_iff)

lemma tag_rest_marker:
  assumes "fence_marker m"
  shows "tag_rest (m @ b) = Some b"
proof -
  from assms obtain v slash w u where m: "m = 60 # v @ slash @ w @ u" and v: "list_all js_ws v"
    and w: "list_all js_ws w" and slash: "slash = [] \<and> w = [] \<or> slash = [47]"
    and u: "map ascii_lower u = js ''untrusted_''"
    unfolding fence_marker_def by blast
  note len = fence_word_chars(1) [OF u]
  then obtain c us where ucons: "u = c # us" by (cases u) auto
  then have c: "\<not> js_ws c" "c \<noteq> 47"
    using fence_word_not_ws fence_word_chars(2) [OF u] by (metis list.set_intros(1))+
  have "skip_slash (dropWhile js_ws (v @ slash @ w @ u @ b)) = u @ b"
    using slash
  proof
    assume "slash = [] \<and> w = []"
    then show ?thesis using c v by (simp add: dropWhile_ws_append skip_slash_def ucons)
  next
    assume s: "slash = [47]"
    have "dropWhile js_ws (v @ 47 # w @ u @ b) = 47 # w @ u @ b"
      by (rule dropWhile_ws_append [OF v]) (simp add: js_ws_def)
    then show ?thesis using c w by (simp add: s skip_slash_def dropWhile_ws_append ucons)
  qed
  with len u show ?thesis by (simp add: m tag_rest_def tag_word_def)
qed

lemma tag_rest_Some:
  assumes "tag_rest s = Some b"
  obtains m where "s = m @ b" "fence_marker m"
proof -
  from assms obtain r where s: "s = 60 # r" and word: "tag_word (skip_slash (dropWhile js_ws r))"
    and b: "b = drop 10 (skip_slash (dropWhile js_ws r))"
    by (auto simp: tag_rest_def Let_def split: list.splits if_splits)
  define t where "t = dropWhile js_ws r"
  have r: "r = takeWhile js_ws r @ t" by (simp add: t_def)
  have v: "list_all js_ws (takeWhile js_ws r)" by (auto simp: list_all_iff dest: set_takeWhileD)
  obtain slash w where t: "t = slash @ w @ skip_slash t" and w: "list_all js_ws w"
    and slash: "slash = [] \<and> w = [] \<or> slash = [47]"
  proof (cases "\<exists>x. t = 47 # x")
    case True
    then obtain x where "t = 47 # x" by blast
    then show ?thesis
      by (intro that [of "[47]" "takeWhile js_ws x"])
        (auto simp: skip_slash_def list_all_iff dest: set_takeWhileD)
  next
    case False
    then show ?thesis by (intro that [of "[]" "[]"]) (auto simp: skip_slash_def split: list.splits)
  qed
  let ?u = "take 10 (skip_slash t)"
  have "fence_marker (60 # takeWhile js_ws r @ slash @ w @ ?u)"
    using v w slash word unfolding fence_marker_def tag_word_def t_def by blast
  moreover have "s = (60 # takeWhile js_ws r @ slash @ w @ ?u) @ b"
    using r t unfolding s b t_def [symmetric] by (metis append.assoc append_Cons append_take_drop_id)
  ultimately show ?thesis using that by blast
qed

lemma has_fence_tag_iff: "has_fence_tag s \<longleftrightarrow> (\<exists>a m b. s = a @ m @ b \<and> fence_marker m)"
proof
  assume "has_fence_tag s"
  then obtain a u b where "s = a @ u" "tag_rest u = Some b"
    by (auto simp: has_fence_tag_def list_ex_iff suffix_def)
  then show "\<exists>a m b. s = a @ m @ b \<and> fence_marker m" using tag_rest_Some by metis
next
  assume "\<exists>a m b. s = a @ m @ b \<and> fence_marker m"
  then obtain a m b where s: "s = a @ m @ b" and "fence_marker m" by blast
  then have "tag_rest (m @ b) = Some b" by (simp add: tag_rest_marker)
  moreover have "m @ b \<in> set (suffixes s)" by (simp add: s suffix_def)
  ultimately show "has_fence_tag s" unfolding has_fence_tag_def list_ex_iff by force
qed

text \<open>A character no marker contains splits the search.\<close>

definition no_tag_char :: "16 word \<Rightarrow> bool" where
  "no_tag_char c \<longleftrightarrow> \<not> js_ws c \<and> c \<noteq> 60 \<and> c \<noteq> 47 \<and> ascii_lower c \<notin> set (js ''untrusted_'')"

lemma fence_marker_chars:
  assumes "fence_marker m"
  shows "m \<noteq> []" "hd m = 60" "no_tag_char c \<Longrightarrow> c \<notin> set m" "ascii_lower (last m) = 95"
    "95 \<notin> set (butlast m)"
proof -
  from assms obtain v slash w u where m: "m = 60 # v @ slash @ w @ u" and v: "list_all js_ws v"
    and w: "list_all js_ws w" and slash: "slash = [] \<and> w = [] \<or> slash = [47]"
    and u: "map ascii_lower u = js ''untrusted_''"
    unfolding fence_marker_def by blast
  show "m \<noteq> []" "hd m = 60" by (simp_all add: m)
  show "no_tag_char c \<Longrightarrow> c \<notin> set m"
    using v w slash fence_word_chars(2) [OF u, of c] by (auto simp: m no_tag_char_def list_all_iff)
  have une: "u \<noteq> []" using fence_word_chars(1) [OF u] by auto
  then show "ascii_lower (last m) = 95"
    using arg_cong [OF u, of last] by (simp add: m last_map js_def)
  have "map ascii_lower (butlast u) = js ''untrusted''"
    using arg_cong [OF u, of butlast] by (simp add: map_butlast js_def)
  then have "ascii_lower c \<in> set (js ''untrusted'')" if "c \<in> set (butlast u)" for c
    using that by (metis image_eqI list.set_map)
  then have "95 \<notin> set (butlast u)" by (fastforce simp: ascii_lower_def js_def)
  moreover have "95 \<notin> set v" "95 \<notin> set w" using v w by (auto simp: list_all_iff js_ws_def)
  ultimately show "95 \<notin> set (butlast m)" using une slash by (auto simp: m butlast_append)
qed

lemma fence_marker_last: "fence_marker m \<Longrightarrow> last m = 95"
  using fence_marker_chars(4) by (fastforce simp: ascii_lower_def split: if_splits)

lemma fence_marker_open:
  assumes "fence_marker m" shows "60 \<notin> set (tl m)"
proof -
  from assms obtain v slash w u where m: "m = 60 # v @ slash @ w @ u" and v: "list_all js_ws v"
    and w: "list_all js_ws w" and slash: "slash = [] \<and> w = [] \<or> slash = [47]"
    and u: "map ascii_lower u = js ''untrusted_''"
    unfolding fence_marker_def by blast
  have "\<not> js_ws 60" by (simp add: js_ws_def)
  then show ?thesis
    using v w slash fence_word_chars(2) [OF u, of 60] fence_word_not_ws [of 60] by (auto simp: m list_all_iff)
qed

lemma split_around:
  assumes "a @ m @ b = p @ c # n" and "c \<notin> set m" and "m \<noteq> []"
  shows "(\<exists>x. p = a @ m @ x) \<or> (\<exists>y. n = y @ m @ b)"
proof -
  from assms(1) consider (left) x where "a = p @ x" "x @ m @ b = c # n" | (right) x where "p = a @ x" "m @ b = x @ c # n"
    by (auto simp: append_eq_append_conv2)
  then show ?thesis
  proof cases
    case left
    then show ?thesis
    proof (cases x)
      case Nil
      with left assms(2,3) show ?thesis by (cases m) auto
    next
      case (Cons c' y)
      with left show ?thesis by auto
    qed
  next
    case right
    moreover have "us = []" if "us @ b = c # n" "c \<notin> set us" for us
      using that by (cases us) auto
    ultimately have "\<exists>y. x = m @ y" using assms(2) by (force simp: append_eq_append_conv2)
    with right show ?thesis by auto
  qed
qed

lemma has_fence_tag_split:
  assumes "no_tag_char c"
  shows "has_fence_tag (p @ c # n) \<longleftrightarrow> has_fence_tag p \<or> has_fence_tag n"
proof
  assume "has_fence_tag (p @ c # n)"
  then obtain a m b where "p @ c # n = a @ m @ b" and m: "fence_marker m"
    by (auto simp: has_fence_tag_iff)
  then have "(\<exists>x. p = a @ m @ x) \<or> (\<exists>y. n = y @ m @ b)"
    using split_around [of a m b p c n] fence_marker_chars(1,3) [OF m] assms by metis
  with m show "has_fence_tag p \<or> has_fence_tag n" unfolding has_fence_tag_iff by blast
next
  have "has_fence_tag (p @ c # n)" if "p = a @ m @ b" "fence_marker m" for a m b
    unfolding has_fence_tag_iff using that by (intro exI [of _ a] exI [of _ m] exI [of _ "b @ c # n"]) simp
  moreover have "has_fence_tag (p @ c # n)" if "n = a @ m @ b" "fence_marker m" for a m b
    unfolding has_fence_tag_iff using that by (intro exI [of _ "p @ c # a"] exI [of _ m] exI [of _ b]) simp
  moreover assume "has_fence_tag p \<or> has_fence_tag n"
  ultimately show "has_fence_tag (p @ c # n)" unfolding has_fence_tag_iff [of p] has_fence_tag_iff [of n] by blast
qed

lemma has_fence_tag_sublist: "has_fence_tag s \<Longrightarrow> sublist s t \<Longrightarrow> has_fence_tag t"
  unfolding has_fence_tag_iff sublist_def by (metis append.assoc)

lemma has_fence_tag_Cons: "c \<noteq> 60 \<Longrightarrow> has_fence_tag (c # s) \<longleftrightarrow> has_fence_tag s"
  by (auto simp: has_fence_tag_def suffixes.simps tag_rest_def split: list.splits)

text \<open>Neutralising changes underscores to hyphens only, so it creates no marker.\<close>

definition hyphened :: "js_string \<Rightarrow> js_string \<Rightarrow> bool" where
  "hyphened = list_all2 (\<lambda>t s. t = s \<or> t = 45 \<and> s = 95)"

lemma hyphened_prefix:
  assumes "hyphened (m @ b) s" and "45 \<notin> set m"
  obtains b' where "s = m @ b'"
proof -
  from assms(1) obtain m' b' where s: "s = m' @ b'" and "list_all2 (\<lambda>t s. t = s \<or> t = 45 \<and> s = 95) m m'"
    by (auto simp: hyphened_def list_all2_append1)
  then have "list_all2 (=) m m'"
    using assms(2) by (auto simp: list_all2_conv_all_nth in_set_conv_nth)
  then show ?thesis using s that by (simp add: list.rel_eq)
qed

lemma tag_hyphen [simp]: "no_tag_char 45"
  by (simp add: no_tag_char_def js_ws_def ascii_lower_def js_def)

lemma neutralize_match:
  assumes "tag_rest s = Some r"
  obtains m where "s = m @ [95] @ r" "fence_marker (m @ [95])"
    "neutralize_untrusted_tags s = m @ 45 # neutralize_untrusted_tags r"
proof -
  obtain m where s: "s = m @ r" and m: "fence_marker m" by (rule tag_rest_Some [OF assms])
  note ne = fence_marker_chars(1) [OF m]
  have split: "m = butlast m @ [95]" using ne fence_marker_last [OF m] append_butlast_last_id by metis
  have "s \<noteq> []" using ne s by simp
  then obtain c s' where "s = c # s'" by (cases s) simp_all
  then have "neutralize_untrusted_tags s = take (length s - length r - 1) s @ 45 # neutralize_untrusted_tags r"
    using assms by simp
  also have "take (length s - length r - 1) s = butlast m"
    using ne by (simp add: s butlast_conv_take take_append)
  finally show ?thesis using that [of "butlast m"] split s m by simp
qed

lemma neutralize_hyphened: "hyphened (neutralize_untrusted_tags s) s"
proof (induction s rule: neutralize_untrusted_tags.induct)
  case 1
  then show ?case by (simp add: hyphened_def)
next
  case (2 c s)
  show ?case
  proof (cases "tag_rest (c # s)")
    case None
    then show ?thesis using 2(1) by (simp add: hyphened_def)
  next
    case (Some r)
    obtain m where s: "c # s = m @ [95] @ r"
      and out: "neutralize_untrusted_tags (c # s) = m @ 45 # neutralize_untrusted_tags r"
      by (rule neutralize_match [OF Some])
    have "hyphened (m @ 45 # neutralize_untrusted_tags r) (m @ [95] @ r)"
      using 2(2) [OF Some] by (auto simp: hyphened_def list_all2_append list_all2_same)
    then show ?thesis using out s by metis
  qed
qed

lemma neutralized_no_fence_tag: "\<not> has_fence_tag (neutralize_untrusted_tags s)"
proof (induction s rule: neutralize_untrusted_tags.induct)
  case 1
  then show ?case by (auto simp: has_fence_tag_iff dest: fence_marker_chars(1))
next
  case (2 c s)
  show ?case
  proof (cases "tag_rest (c # s)")
    case None
    then have out: "neutralize_untrusted_tags (c # s) = c # neutralize_untrusted_tags s" by simp
    have "\<not> (\<exists>m b. c # neutralize_untrusted_tags s = m @ b \<and> fence_marker m)"
    proof
      assume "\<exists>m b. c # neutralize_untrusted_tags s = m @ b \<and> fence_marker m"
      then obtain m b where eq: "c # neutralize_untrusted_tags s = m @ b" and m: "fence_marker m" by blast
      have "hyphened (m @ b) (c # s)"
        using neutralize_hyphened [of "c # s"] out eq by simp
      then obtain b' where "c # s = m @ b'"
        using fence_marker_chars(3) [OF m tag_hyphen] hyphened_prefix by blast
      with tag_rest_marker [OF m] None show False by simp
    qed
    with 2(1) [OF None] show ?thesis
      unfolding out has_fence_tag_iff by (metis append_Nil append_eq_Cons_conv)
  next
    case (Some r)
    obtain m where m: "fence_marker (m @ [95])"
      and out: "neutralize_untrusted_tags (c # s) = m @ 45 # neutralize_untrusted_tags r"
      by (rule neutralize_match [OF Some])
    have "\<not> has_fence_tag m"
    proof
      assume "has_fence_tag m"
      then obtain x m' y where "m = x @ m' @ y" and m': "fence_marker m'" by (auto simp: has_fence_tag_iff)
      then have "last m' \<in> set m" using fence_marker_chars(1) by auto
      with fence_marker_last [OF m'] fence_marker_chars(5) [OF m] show False by simp
    qed
    with 2(2) [OF Some] show ?thesis unfolding out by (simp add: has_fence_tag_split)
  qed
qed

text \<open>How many fence tags a text contains, and where it can be cut without losing one.\<close>

fun fence_count :: "js_string \<Rightarrow> nat" where
  "fence_count [] = 0"
| "fence_count (c # s) = (if tag_rest (c # s) = None then 0 else 1) + fence_count s"

lemma fence_count_0: "fence_count s = 0 \<longleftrightarrow> \<not> has_fence_tag s"
  by (induction s) (auto simp: has_fence_tag_def tag_rest_def)

definition cuts_tag :: "16 word \<Rightarrow> bool" where
  "cuts_tag c \<longleftrightarrow> no_tag_char c \<or> c = 60"

lemma tag_rest_extend:
  assumes "tag_rest s = Some r" shows "tag_rest (s @ t) \<noteq> None"
proof -
  obtain m where "s = m @ r" "fence_marker m" by (rule tag_rest_Some [OF assms])
  then show ?thesis using tag_rest_marker [of m "r @ t"] by simp
qed

lemma tag_rest_shrink:
  assumes "tag_rest (s @ t) = Some r" and "s \<noteq> []" and "t \<noteq> []"
    and "cuts_tag (hd t) \<or> t = [10]"
  shows "tag_rest s \<noteq> None"
proof -
  obtain m where eq: "s @ t = m @ r" and m: "fence_marker m" by (rule tag_rest_Some [OF assms(1)])
  consider (inside) x where "s = m @ x" | (over) y where "m = s @ y" "t = y @ r" "y \<noteq> []"
  proof -
    obtain us where "s = m @ us \<and> us @ t = r \<or> s @ us = m \<and> t = us @ r"
      using eq unfolding append_eq_append_conv2 by blast
    then show ?thesis using that by (cases "us = []") auto
  qed
  then show ?thesis
  proof cases
    case inside
    then show ?thesis using tag_rest_marker [OF m, of x] by simp
  next
    case over
    then have "hd t \<in> set (tl m)" using assms(2) by (cases s; cases y) auto
    moreover have "hd t \<in> set m" using over by (cases y) auto
    moreover have "t = [10] \<Longrightarrow> last m = 10" using over by (cases y) auto
    ultimately show ?thesis
      using assms(4) fence_marker_open [OF m] fence_marker_last [OF m] fence_marker_chars(3) [OF m]
      by (auto simp: cuts_tag_def)
  qed
qed

lemma fence_count_append:
  assumes "t = [] \<or> cuts_tag (hd t) \<or> t = [10]"
  shows "fence_count (s @ t) = fence_count s + fence_count t"
proof (cases "t = []")
  case False
  show ?thesis
  proof (induction s)
    case (Cons c s)
    have "tag_rest (c # s) = None \<longleftrightarrow> tag_rest ((c # s) @ t) = None"
      using tag_rest_extend [of "c # s" _ t] tag_rest_shrink [of "c # s" t] False assms by fastforce
    with Cons show ?case by simp
  qed simp
qed simp

lemma fence_count_no_open: "60 \<notin> set s \<Longrightarrow> fence_count s = 0"
  by (induction s) (auto simp: tag_rest_def)

section \<open>Properties\<close>


end
