(* ===== verification/PlanningSources.thy ===== *)
theory PlanningSources
  imports PromptGuards PlanningRun
begin

text \<open>
  The sources of a planning prompt (\<open>application/context/planning-sources.ts\<close>): candidates from
  retrieved sections and gathered connector context, their order, and the input budget. The
  redaction of secrets is the parameter \<open>redact\<close>; \<open>json_text\<close> is \<open>JSON.stringify\<close>.
\<close>

section \<open>Data\<close>

definition max_excerpt_chars :: nat where "max_excerpt_chars = 4000"
definition max_source_title_chars :: nat where "max_source_title_chars = 200"
definition max_prepare_chars :: nat where "max_prepare_chars = 50000"
definition min_excerpt_chars :: nat where "min_excerpt_chars = 100"

definition ellipsis :: js_string where "ellipsis = [0x2026]"

definition stub_context_note :: js_string where
  "stub_context_note = js ''stub '' @ [0x2014] @ js '' no context engine configured (CONTEXT_ENGINE_URL unset)''"

record retrieved_section =
  rs_sectionId :: ident
  rs_documentId :: ident
  rs_documentTitle :: js_string
  rs_title :: js_string
  rs_content :: js_string
  rs_inBoundDocument :: bool
  rs_matched :: bool

datatype source_group = BoundDocument | ConnectorGroup | OtherDocument

record source_candidate =
  sc_group :: source_group
  sc_type :: source_type
  sc_ref :: js_string
  sc_rawTitle :: js_string
  sc_rawText :: js_string

record budgeted_source = source_meta +
  bs_excerpt :: js_string
  bs_rawTitle :: js_string
  bs_rawText :: js_string

record budget_result =
  br_sources :: "budgeted_source list"
  br_dropped :: nat
  br_text :: js_string

section \<open>Candidates\<close>

definition content_to_string ::
    "(js_string \<Rightarrow> js_string) \<Rightarrow> (json \<Rightarrow> js_string) \<Rightarrow> json option \<Rightarrow> js_string" where
  "content_to_string redact json_text v =
     (case v of
        None \<Rightarrow> []
      | Some (JStr s) \<Rightarrow> s
      | Some JNull \<Rightarrow> []
      | Some (JNum n) \<Rightarrow> json_text (JNum n)
      | Some (JBool b) \<Rightarrow> json_text (JBool b)
      | Some w \<Rightarrow> json_text (prepare_untrusted_value redact max_prepare_chars 0 w))"

text \<open>\<open>connectorEntries\<close>: one (provider, content) pair per chunk or per key.\<close>

definition chunk_entry ::
    "(js_string \<Rightarrow> js_string) \<Rightarrow> (json \<Rightarrow> js_string) \<Rightarrow> json \<Rightarrow> (js_string \<times> js_string) list" where
  "chunk_entry redact json_text chunk =
     (case chunk of
        JObj ps \<Rightarrow>
          [(case obj_get (js ''provider'') chunk of
              Some (JStr p) \<Rightarrow> (if trim p \<noteq> [] then p else js ''connector'')
            | _ \<Rightarrow> js ''connector'',
            content_to_string redact json_text (obj_get (js ''content'') chunk))]
      | _ \<Rightarrow> [])"

definition context_entries ::
    "(js_string \<Rightarrow> js_string) \<Rightarrow> (json \<Rightarrow> js_string) \<Rightarrow> bool \<Rightarrow> js_string \<times> json \<Rightarrow> (js_string \<times> js_string) list" where
  "context_entries redact json_text is_stub kv =
     (case kv of (key, v) \<Rightarrow>
        (case (key = js ''chunks'', v) of
           (True, JArr chunks) \<Rightarrow> concat (map (chunk_entry redact json_text) chunks)
         | _ \<Rightarrow> (if is_stub \<and> (key = js ''note'' \<or> key = js ''requestedConnectors'') then []
                else [(key, content_to_string redact json_text (Some v))])))"

definition connector_entries ::
    "(js_string \<Rightarrow> js_string) \<Rightarrow> (json \<Rightarrow> js_string) \<Rightarrow> json_obj \<Rightarrow> (js_string \<times> js_string) list" where
  "connector_entries redact json_text context =
     (let is_stub = (obj_get (js ''note'') (JObj context) = Some (JStr stub_context_note)) in
      filter (\<lambda>(_, content). trim content \<noteq> [])
        (concat (map (context_entries redact json_text is_stub) context)))"

definition connector_candidates ::
    "(js_string \<Rightarrow> js_string) \<Rightarrow> (json \<Rightarrow> js_string) \<Rightarrow> json_obj \<Rightarrow> source_candidate list" where
  "connector_candidates redact json_text context =
     map (\<lambda>(provider, content). \<lparr>sc_group = ConnectorGroup, sc_type = SourceConnector, sc_ref = provider,
            sc_rawTitle = provider, sc_rawText = content\<rparr>)
       (connector_entries redact json_text context)"

definition section_candidates :: "retrieved_section list \<Rightarrow> source_candidate list" where
  "section_candidates sections =
     map (\<lambda>x. \<lparr>sc_group = (if rs_inBoundDocument x then BoundDocument else OtherDocument),
            sc_type = SourceSection, sc_ref = rs_sectionId x,
            sc_rawTitle = rs_title x @ js '' ('' @ rs_documentTitle x @ js '')'', sc_rawText = rs_content x\<rparr>)
       (filter (\<lambda>x. trim (rs_content x) \<noteq> []) sections)"

fun group_rank :: "source_group \<Rightarrow> nat" where
  "group_rank BoundDocument = 0"
| "group_rank ConnectorGroup = 1"
| "group_rank OtherDocument = 2"

text \<open>The index breaks ties: the sort is stable.\<close>

definition order_candidates :: "source_candidate list \<Rightarrow> source_candidate list" where
  "order_candidates cs = sort_key (\<lambda>c. group_rank (sc_group c)) cs"

section \<open>Cutting\<close>

definition boundaries :: "js_string \<Rightarrow> int list" where
  "boundaries head =
     [last_index_of [10, 10] head,
      last_index_of [10] head,
      max (last_index_of (js ''. '') head) (max (last_index_of (js ''? '') head) (last_index_of (js ''! '') head)) + 1,
      last_index_of [32] head]"

definition cut_at_boundary :: "js_string \<Rightarrow> nat \<Rightarrow> js_string" where
  "cut_at_boundary text limit =
     (if length text \<le> limit then text
      else
        (let room = limit - length ellipsis;
             head = take room text;
             floor = int (room div 2)
         in trim_end (case find (\<lambda>i. floor < i) (boundaries head) of
                None \<Rightarrow> head | Some at \<Rightarrow> take (nat at) head) @ ellipsis))"

definition single_line :: "js_string \<Rightarrow> js_string" where
  "single_line text = trim (collapse_ws text)"

section \<open>The budget\<close>

fun type_text :: "source_type \<Rightarrow> js_string" where
  "type_text SourceSection = js ''section''"
| "type_text SourceConnector = js ''connector''"

definition source_header :: "js_string \<Rightarrow> source_type \<Rightarrow> js_string \<Rightarrow> js_string" where
  "source_header i t title = js ''['' @ i @ js ''] '' @ type_text t @ js '': '' @ title @ [10]"

record budget_state =
  bg_sources :: "budgeted_source list"
  bg_blocks :: "js_string list"
  bg_remaining :: int
  bg_dropped :: nat

text \<open>One round of the loop.\<close>

definition budget_step ::
    "(js_string \<Rightarrow> js_string) \<Rightarrow> source_candidate \<Rightarrow> budget_state \<Rightarrow> budget_state" where
  "budget_step redact c b =
     (let prepared = trim (prepare_untrusted_text redact (take max_prepare_chars (sc_rawText c))) in
      if prepared = [] then b
      else
        (let title = cut_at_boundary (single_line (prepare_untrusted_text redact (sc_rawTitle c)))
                       max_source_title_chars;
             i = js ''S'' @ nat_str (length (bg_sources b) + 1);
             header = source_header i (sc_type c) title;
             separator = (if bg_blocks b \<noteq> [] then 2 else 0);
             room = bg_remaining b - separator - int (length header)
         in if room < int (min min_excerpt_chars (length prepared))
            then b\<lparr>bg_dropped := bg_dropped b + 1\<rparr>
            else
              (let excerpt = cut_at_boundary prepared (nat (min (int max_excerpt_chars) room));
                   truncated = (excerpt \<noteq> prepared \<or> max_prepare_chars < length (sc_rawText c));
                   block = header @ excerpt
               in b\<lparr>bg_remaining := bg_remaining b - (separator + int (length block)),
                    bg_blocks := bg_blocks b @ [block],
                    bg_sources := bg_sources b @
                      [\<lparr>sm_id = i, sm_type = sc_type c, sm_title = title, sm_ref = sc_ref c,
                        sm_truncated = truncated, bs_excerpt = excerpt, bs_rawTitle = sc_rawTitle c,
                        bs_rawText = sc_rawText c\<rparr>]\<rparr>)))"

definition budget_start :: "int \<Rightarrow> budget_state" where
  "budget_start max_chars = \<lparr>bg_sources = [], bg_blocks = [], bg_remaining = max_chars, bg_dropped = 0\<rparr>"

definition budget_sources ::
    "(js_string \<Rightarrow> js_string) \<Rightarrow> source_candidate list \<Rightarrow> int \<Rightarrow> budget_result" where
  "budget_sources redact cs max_chars =
     (let b = fold (budget_step redact) cs (budget_start max_chars)
      in \<lparr>br_sources = bg_sources b, br_dropped = bg_dropped b, br_text = join [10, 10] (bg_blocks b)\<rparr>)"

section \<open>Lemmas\<close>

lemma length_ellipsis: "length ellipsis = 1"
  by (simp add: ellipsis_def)

lemma cut_at_boundary_cases:
  obtains (whole) "cut_at_boundary text limit = text" "length text \<le> limit"
  | (cut) p where "cut_at_boundary text limit = p @ ellipsis" "prefix p text" "length p \<le> limit - 1"
      "limit < length text"
proof (cases "length text \<le> limit")
  case True
  then show ?thesis using whole by (simp add: cut_at_boundary_def)
next
  case False
  define head where "head = take (limit - 1) text"
  define kept where "kept = (case find (\<lambda>i. int ((limit - 1) div 2) < i) (boundaries head) of
      None \<Rightarrow> head | Some at \<Rightarrow> take (nat at) head)"
  have "prefix kept head" by (simp add: kept_def take_is_prefix split: option.splits)
  moreover have "prefix (trim_end kept) kept"
    unfolding trim_end_def prefix_def by (metis rev_append rev_rev_ident takeWhile_dropWhile_id)
  ultimately have p: "prefix (trim_end kept) head" using prefix_order.trans by blast
  show ?thesis
  proof (rule cut)
    show "cut_at_boundary text limit = trim_end kept @ ellipsis"
      using False unfolding kept_def head_def cut_at_boundary_def Let_def length_ellipsis by simp
    show "prefix (trim_end kept) text"
      using p take_is_prefix [of "limit - 1"] prefix_order.trans unfolding head_def by blast
    show "length (trim_end kept) \<le> limit - 1" using prefix_length_le [OF p] by (simp add: head_def)
    show "limit < length text" using False by simp
  qed
qed

lemma cut_at_boundary_length: "0 < n \<Longrightarrow> length (cut_at_boundary s n) \<le> n"
  by (cases rule: cut_at_boundary_cases [of s n]) (auto simp: ellipsis_def)

text \<open>Neither cutting, nor trimming, nor folding white space creates a fence tag.\<close>

lemma no_tag_ellipsis: "no_tag_char 0x2026"
  by (simp add: no_tag_char_def js_ws_def ascii_lower_def js_def)

lemma has_fence_tag_prefix: "prefix p s \<Longrightarrow> has_fence_tag p \<Longrightarrow> has_fence_tag s"
  using has_fence_tag_sublist prefix_imp_sublist by blast

lemma has_fence_tag_Nil [simp]: "\<not> has_fence_tag []"
  by (auto simp: has_fence_tag_iff dest: fence_marker_chars(1))

lemma has_fence_tag_cut: "has_fence_tag (cut_at_boundary s n) \<Longrightarrow> has_fence_tag s"
proof (cases rule: cut_at_boundary_cases [of s n])
  case (cut p)
  then show "has_fence_tag (cut_at_boundary s n) \<Longrightarrow> has_fence_tag s"
    using has_fence_tag_split [OF no_tag_ellipsis, of p "[]"]
    by (auto simp: ellipsis_def intro: has_fence_tag_prefix)
qed simp

lemma sublist_trim: "sublist (trim s) s"
proof -
  have "suffix (trim_start s) s" by (simp add: trim_start_def suffix_dropWhile)
  moreover have "prefix (trim_end (trim_start s)) (trim_start s)"
    unfolding trim_end_def prefix_def by (metis rev_append rev_rev_ident takeWhile_dropWhile_id)
  ultimately show ?thesis
    unfolding trim_def using prefix_imp_sublist suffix_imp_sublist sublist_order.order.trans by blast
qed

lemma dropWhile_collapse: "dropWhile js_ws (collapse_ws s) = collapse_ws (dropWhile js_ws s)"
proof (induction s rule: collapse_ws.induct)
  case (2 c s)
  show ?case
  proof (cases "js_ws c")
    case True
    then have "dropWhile js_ws (collapse_ws (dropWhile js_ws s)) = collapse_ws (dropWhile js_ws s)"
      using 2(1) by simp
    with True show ?thesis by (simp add: js_ws_def [of 32])
  qed simp
qed simp

lemma take_collapse: "list_all (\<lambda>c. \<not> js_ws c) (take n (collapse_ws s)) \<Longrightarrow>
    take n (collapse_ws s) = take n s \<and> drop n (collapse_ws s) = collapse_ws (drop n s)"
proof (induction s arbitrary: n rule: collapse_ws.induct)
  case (2 c s)
  show ?case
  proof (cases n)
    case (Suc m)
    then show ?thesis
      using 2 by (cases "js_ws c") (auto simp: js_ws_def [of 32])
  qed simp
qed simp

lemma tag_rest_collapse: "tag_rest (collapse_ws s) \<noteq> None \<Longrightarrow> tag_rest s \<noteq> None"
proof -
  assume some: "tag_rest (collapse_ws s) \<noteq> None"
  have word: "tag_word (collapse_ws t) \<Longrightarrow> tag_word t" for t
  proof -
    assume w: "tag_word (collapse_ws t)"
    then have "list_all (\<lambda>c. \<not> js_ws c) (take 10 (collapse_ws t))"
      using fence_word_chars(2) fence_word_not_ws by (auto simp: tag_word_def list_all_iff)
    with w take_collapse [of 10 t] show "tag_word t" by (simp add: tag_word_def)
  qed
  have skip: "skip_slash (collapse_ws t) = collapse_ws (skip_slash t)" for t
    by (cases t) (auto simp: skip_slash_def dropWhile_collapse js_ws_def [of 47] js_ws_def [of 32] split: list.splits)
  obtain c r where s: "s = c # r" using some by (cases s) (auto simp: tag_rest_def)
  with some have "c = 60" by (cases "js_ws c") (auto simp: tag_rest_def Let_def split: if_splits)
  with some s skip word show ?thesis
    by (auto simp: tag_rest_def js_ws_def [of 60] dropWhile_collapse Let_def split: if_splits)
qed

lemma suffix_collapse: "suffix t (collapse_ws s) \<Longrightarrow> t = [] \<or> (\<exists>u. suffix u s \<and> (t = collapse_ws u \<or> t = 32 # collapse_ws u))"
proof (induction s rule: collapse_ws.induct)
  case (2 c s)
  show ?case
  proof (cases "js_ws c")
    case True
    then show ?thesis using 2 suffix_dropWhile [of js_ws s]
      by (auto simp: suffix_Cons) (metis suffix_ConsI suffix_order.trans)+
  next
    case False
    then show ?thesis using 2 by (auto simp: suffix_Cons)
  qed
qed simp

lemma has_fence_tag_collapse: "has_fence_tag (collapse_ws s) \<Longrightarrow> has_fence_tag s"
proof -
  assume "has_fence_tag (collapse_ws s)"
  then obtain t where t: "suffix t (collapse_ws s)" "tag_rest t \<noteq> None"
    by (auto simp: has_fence_tag_def list_ex_iff)
  then obtain u where u: "suffix u s" "t = collapse_ws u \<or> t = 32 # collapse_ws u"
    using suffix_collapse [OF t(1)] by (auto simp: tag_rest_def)
  with t(2) have "tag_rest u \<noteq> None"
    using tag_rest_collapse by (auto simp: tag_rest_def [of "32 # _"])
  with u(1) show ?thesis by (auto simp: has_fence_tag_def list_ex_iff)
qed

text \<open>The invariant of the loop.\<close>

definition block_of :: "budgeted_source \<Rightarrow> js_string" where
  "block_of x = source_header (sm_id x) (sm_type x) (sm_title x) @ bs_excerpt x"

definition budget_ok :: "int \<Rightarrow> budget_state \<Rightarrow> bool" where
  "budget_ok max_chars b \<longleftrightarrow>
     bg_blocks b = map block_of (bg_sources b) \<and>
     map sm_id (bg_sources b) = map (\<lambda>k. js ''S'' @ nat_str (k + 1)) [0..<length (bg_sources b)] \<and>
     int (length (join [10, 10] (bg_blocks b))) + bg_remaining b = max_chars \<and> 0 \<le> bg_remaining b \<and>
     list_all (\<lambda>x. length (sm_title x) \<le> max_source_title_chars \<and> bs_excerpt x \<noteq> [] \<and>
       length (bs_excerpt x) \<le> max_excerpt_chars \<and>
       \<not> has_fence_tag (sm_title x) \<and> \<not> has_fence_tag (bs_excerpt x)) (bg_sources b)"

lemma prepared_no_fence_tag: "\<not> has_fence_tag (prepare_untrusted_text redact s)"
  unfolding prepare_untrusted_text_def by (rule neutralized_no_fence_tag)

lemma budget_step_ok:
  assumes "budget_ok max_chars b"
  shows "budget_ok max_chars (budget_step redact c b)"
proof -
  define prepared where "prepared = trim (prepare_untrusted_text redact (take max_prepare_chars (sc_rawText c)))"
  define title where "title = cut_at_boundary (single_line (prepare_untrusted_text redact (sc_rawTitle c)))
      max_source_title_chars"
  define header where "header = source_header (js ''S'' @ nat_str (length (bg_sources b) + 1)) (sc_type c) title"
  define separator where "separator = (if bg_blocks b \<noteq> [] then 2 else 0 :: int)"
  define room where "room = bg_remaining b - separator - int (length header)"
  define excerpt where "excerpt = cut_at_boundary prepared (nat (min (int max_excerpt_chars) room))"
  have step: "budget_step redact c b =
      (if prepared = [] then b
       else if room < int (min min_excerpt_chars (length prepared)) then b\<lparr>bg_dropped := bg_dropped b + 1\<rparr>
       else b\<lparr>bg_remaining := bg_remaining b - (separator + int (length (header @ excerpt))),
              bg_blocks := bg_blocks b @ [header @ excerpt],
              bg_sources := bg_sources b @
                [\<lparr>sm_id = js ''S'' @ nat_str (length (bg_sources b) + 1), sm_type = sc_type c, sm_title = title,
                  sm_ref = sc_ref c,
                  sm_truncated = (excerpt \<noteq> prepared \<or> max_prepare_chars < length (sc_rawText c)),
                  bs_excerpt = excerpt, bs_rawTitle = sc_rawTitle c, bs_rawText = sc_rawText c\<rparr>]\<rparr>)"
    unfolding budget_step_def Let_def prepared_def title_def header_def separator_def room_def excerpt_def
    by simp
  show ?thesis
  proof (cases "prepared = [] \<or> room < int (min min_excerpt_chars (length prepared))")
    case True
    then show ?thesis using assms by (auto simp: step budget_ok_def)
  next
    case False
    then have "1 \<le> min min_excerpt_chars (length prepared)"
      by (cases prepared) (simp_all add: min_excerpt_chars_def)
    with False have "0 < room" by linarith
    then have fits: "0 < nat (min (int max_excerpt_chars) room)" by (simp add: max_excerpt_chars_def)
    have len: "length excerpt \<le> max_excerpt_chars" "int (length excerpt) \<le> room"
      using cut_at_boundary_length [OF fits, of prepared] fits unfolding excerpt_def [symmetric] by linarith+
    have ne: "excerpt \<noteq> []"
      using False by (cases rule: cut_at_boundary_cases [of prepared "nat (min (int max_excerpt_chars) room)"])
        (auto simp: excerpt_def ellipsis_def)
    have title: "length title \<le> max_source_title_chars" "\<not> has_fence_tag title"
      unfolding title_def single_line_def
      by (simp add: cut_at_boundary_length max_source_title_chars_def)
        (metis has_fence_tag_cut has_fence_tag_collapse has_fence_tag_sublist sublist_trim prepared_no_fence_tag)
    have clean: "\<not> has_fence_tag excerpt"
      unfolding excerpt_def prepared_def
      by (metis has_fence_tag_cut has_fence_tag_sublist sublist_trim prepared_no_fence_tag)
    have head: "source_header (js ''S'' @ nat_str (Suc (length (bg_sources b)))) (sc_type c) title = header"
      by (simp add: header_def)
    have head0: "source_header (js ''S'' @ nat_str (Suc 0)) (sc_type c) title = header" if "bg_sources b = []"
      using head that by simp
    have blocks: "bg_blocks b = map block_of (bg_sources b)" using assms by (simp add: budget_ok_def)
    show ?thesis
      using assms False len ne title clean blocks
      by (cases "bg_sources b = []")
        (simp_all add: step budget_ok_def block_of_def head head0 join_snoc separator_def room_def)
  qed
qed

lemma budget_fold_ok: "budget_ok max_chars b \<Longrightarrow> budget_ok max_chars (fold (budget_step redact) cs b)"
  by (induction cs arbitrary: b) (simp_all add: budget_step_ok)

section \<open>Properties\<close>

text \<open>C17: Whatever the candidates and whatever redaction leaves of them, the rendered context is within
  the input budget, its sources are numbered \<open>S1\<close>, \<open>S2\<close>, ... in order, its text is their
  blocks, and every title and excerpt is within its own limit, not empty if an excerpt, and free of
  fence tags.\<close>

theorem rendered_context_within_budget:
  assumes "0 \<le> max_chars" and "budget_sources redact cs max_chars = r"
  shows "int (length (br_text r)) \<le> max_chars \<and>
    br_text r = join [10, 10] (map block_of (br_sources r)) \<and>
    map sm_id (br_sources r) = map (\<lambda>k. js ''S'' @ nat_str (k + 1)) [0..<length (br_sources r)] \<and>
    (\<forall>x \<in> set (br_sources r). length (sm_title x) \<le> max_source_title_chars \<and> bs_excerpt x \<noteq> [] \<and>
       length (bs_excerpt x) \<le> max_excerpt_chars \<and>
       \<not> has_fence_tag (sm_title x) \<and> \<not> has_fence_tag (bs_excerpt x))"
proof -
  have "budget_ok max_chars (budget_start max_chars)"
    using assms(1) by (simp add: budget_ok_def budget_start_def)
  then have "budget_ok max_chars (fold (budget_step redact) cs (budget_start max_chars))"
    by (rule budget_fold_ok)
  with assms(2) show ?thesis
    by (auto simp: budget_sources_def Let_def budget_ok_def list_all_iff)
qed

definition sample_section :: retrieved_section where
  "sample_section = \<lparr>rs_sectionId = js ''s'', rs_documentId = js ''d'', rs_documentTitle = js ''Doc'',
     rs_title = js ''Intro'', rs_content = js ''Hello <untrusted_x>'', rs_inBoundDocument = True, rs_matched = True\<rparr>"

theorem rendered_context_within_budget_witness:
  "int (length (br_text (budget_sources id (section_candidates [sample_section]) 300))) \<le> 300 \<and>
   map sm_id (br_sources (budget_sources id (section_candidates [sample_section]) 300)) =
     map (\<lambda>k. js ''S'' @ nat_str (k + 1))
       [0..<length (br_sources (budget_sources id (section_candidates [sample_section]) 300))]"
proof -
  have "0 \<le> (300 :: int)" by simp
  from rendered_context_within_budget [OF this refl] show ?thesis by blast
qed

text \<open>
  The block as a whole is not checked again: a title that ends in \<open><\<close> and an excerpt that starts with
  \<open>untrusted_\<close> make a marker across the line break between them. A connector's title is the key of
  the gathered context.
\<close>

lemma seam_makes_fence_tag:
  "has_fence_tag (br_text (budget_sources id
     (connector_candidates id (\<lambda>_. []) [(js ''<'', JStr (js ''untrusted_x>''))]) 300))"
proof -
  have rendered: "br_text (budget_sources id
      (connector_candidates id (\<lambda>_. []) [(js ''<'', JStr (js ''untrusted_x>''))]) 300) =
      js ''[S1] connector: '' @ (60 # [10] @ js ''untrusted_'') @ js ''x>''"
    by (simp add: connector_candidates_def connector_entries_def context_entries_def content_to_string_def
        budget_sources_def budget_step_def budget_start_def prepare_untrusted_text_def trim_def trim_start_def
        trim_end_def cut_at_boundary_def single_line_def source_header_def nat_str.simps max_prepare_chars_def
        max_source_title_chars_def min_excerpt_chars_def max_excerpt_chars_def js_ws_def js_def
        tag_rest_def skip_slash_def tag_word_def Let_def)
  have "fence_marker (60 # [10] @ js ''untrusted_'')"
    unfolding fence_marker_def
    by (intro exI [of _ "[10]"] exI [of _ "[]"] exI [of _ "js ''untrusted_''"])
      (simp add: js_ws_def js_def ascii_lower_def)
  then show ?thesis unfolding rendered has_fence_tag_iff by blast
qed

end
