(* ===== verification/PromptRender.thy ===== *)
theory PromptRender
  imports JsText Prelude
begin

text \<open>
  Prompt templates (\<open>domain/ai/prompt-render.ts\<close>): placeholders \<open>{{name}}\<close>, listed and rendered
  in a single pass.
\<close>

section \<open>Placeholders\<close>

text \<open>\<open>\w\<close>.\<close>

definition word_char :: "16 word \<Rightarrow> bool" where
  "word_char c \<longleftrightarrow> (48 \<le> c \<and> c \<le> 57) \<or> (65 \<le> c \<and> c \<le> 90) \<or> c = 95 \<or> (97 \<le> c \<and> c \<le> 122)"

text \<open>
  A match of \<open>PLACEHOLDER\<close> at the start of the text: the name and what follows the match. The
  pattern is unambiguous, so the greedy choices are the only ones.
\<close>

definition placeholder_at :: "js_string \<Rightarrow> (js_string \<times> js_string) option" where
  "placeholder_at s =
     (case s of
        a # b # r \<Rightarrow>
          (let t = dropWhile js_ws r; name = takeWhile word_char t; u = dropWhile js_ws (dropWhile word_char t) in
           if a = 123 \<and> b = 123 \<and> name \<noteq> [] \<and> take 2 u = [125, 125] then Some (name, drop 2 u) else None)
      | _ \<Rightarrow> None)"

lemma placeholder_at_shorter: "placeholder_at s = Some (name, r) \<Longrightarrow> length r < length s"
proof -
  assume some: "placeholder_at s = Some (name, r)"
  then obtain a b t where s: "s = a # b # t"
    and r: "r = drop 2 (dropWhile js_ws (dropWhile word_char (dropWhile js_ws t)))"
    by (auto simp: placeholder_at_def Let_def split: list.splits if_splits)
  have "length (dropWhile js_ws (dropWhile word_char (dropWhile js_ws t))) \<le> length t"
    by (meson length_dropWhile_le le_trans)
  then show ?thesis unfolding s r by simp
qed

lemma placeholder_at_shorter_Cons [termination_simp]:
  "placeholder_at (c # s) = Some (name, r) \<Longrightarrow> length r < Suc (length s)"
  using placeholder_at_shorter by fastforce

text \<open>All matches, left to right.\<close>

fun placeholder_names :: "js_string \<Rightarrow> js_string list" where
  "placeholder_names [] = []"
| "placeholder_names (c # s) =
     (case placeholder_at (c # s) of
        None \<Rightarrow> placeholder_names s
      | Some (name, r) \<Rightarrow> name # placeholder_names r)"

text \<open>A JavaScript \<open>Set\<close> keeps the first occurrence of each element.\<close>

fun distinct_first :: "'a list \<Rightarrow> 'a list" where
  "distinct_first [] = []"
| "distinct_first (x # xs) = x # filter (\<lambda>y. y \<noteq> x) (distinct_first xs)"

definition list_placeholders :: "js_string \<Rightarrow> js_string list" where
  "list_placeholders tpl = distinct_first (placeholder_names tpl)"

section \<open>Rendering\<close>

text \<open>The first unknown placeholder stops the pass: \<open>Inl\<close> is its name.\<close>

fun render_prompt :: "(js_string \<Rightarrow> js_string option) \<Rightarrow> js_string \<Rightarrow> js_string + js_string" where
  "render_prompt vars [] = Inr []"
| "render_prompt vars (c # s) =
     (case placeholder_at (c # s) of
        None \<Rightarrow> map_sum id (\<lambda>out. c # out) (render_prompt vars s)
      | Some (name, r) \<Rightarrow>
          (case vars name of
             None \<Rightarrow> Inl name
           | Some v \<Rightarrow> map_sum id (\<lambda>out. v @ out) (render_prompt vars r)))"

definition unknown_placeholder_message :: "js_string \<Rightarrow> js_string" where
  "unknown_placeholder_message name = js ''Unknown prompt placeholder '' @ [34] @ name @ [34]"

section \<open>Lemmas\<close>

lemma set_distinct_first [simp]: "set (distinct_first xs) = set xs"
  by (induction xs) auto

lemma distinct_distinct_first [simp]: "distinct (distinct_first xs)"
  by (induction xs) auto

text \<open>A template is a sequence of literal characters and placeholders.\<close>

datatype piece = Literal "16 word" | Placeholder js_string

fun pieces :: "js_string \<Rightarrow> piece list" where
  "pieces [] = []"
| "pieces (c # s) =
     (case placeholder_at (c # s) of
        None \<Rightarrow> Literal c # pieces s
      | Some (name, r) \<Rightarrow> Placeholder name # pieces r)"

fun fill :: "(js_string \<Rightarrow> js_string option) \<Rightarrow> piece \<Rightarrow> js_string" where
  "fill vars (Literal c) = [c]"
| "fill vars (Placeholder name) = the (vars name)"

lemma placeholder_names_pieces: "set (placeholder_names s) = {name. Placeholder name \<in> set (pieces s)}"
  by (induction s rule: placeholder_names.induct) (auto split: option.splits)

section \<open>Rendering is complete and exact\<close>

text \<open>
  Rendering succeeds exactly when every listed placeholder has a value, and its result is then the
  template with each placeholder replaced by its value and every other character kept: a substituted
  value is never scanned again. Otherwise it stops at a placeholder that has none.
\<close>

lemma render_prompt_correct:
  "if set (list_placeholders tpl) \<subseteq> dom vars
   then render_prompt vars tpl = Inr (concat (map (fill vars) (pieces tpl)))
   else \<exists>name. render_prompt vars tpl = Inl name \<and> name \<in> set (list_placeholders tpl) \<and> vars name = None"
proof (induction vars tpl rule: render_prompt.induct)
  case (1 vars)
  then show ?case by (simp add: list_placeholders_def)
next
  case (2 vars c s)
  show ?case
  proof (cases "placeholder_at (c # s)")
    case None
    then have "list_placeholders (c # s) = list_placeholders s" by (simp add: list_placeholders_def)
    with 2(1) [OF None] None show ?thesis by (auto split: if_splits)
  next
    case (Some p)
    obtain name r where p: "p = (name, r)" by (cases p)
    with Some have match: "placeholder_at (c # s) = Some (name, r)" by simp
    then have names: "set (list_placeholders (c # s)) = insert name (set (list_placeholders r))"
      by (auto simp: list_placeholders_def)
    show ?thesis
    proof (cases "vars name")
      case None
      with match names show ?thesis by auto
    next
      case (Some v)
      from 2(2) [OF match refl Some] Some match names show ?thesis by (auto split: if_splits)
    qed
  qed
qed

lemma render_prompt_total:
  "set (list_placeholders tpl) \<subseteq> dom vars \<Longrightarrow> render_prompt vars tpl = Inr (concat (map (fill vars) (pieces tpl)))"
  using render_prompt_correct [of tpl vars] by simp

text \<open>Only the values of a template's own placeholders matter.\<close>

lemma render_prompt_cong:
  assumes "set (list_placeholders tpl) \<subseteq> dom vars"
    and "\<And>name. name \<in> set (list_placeholders tpl) \<Longrightarrow> vars' name = vars name"
  shows "render_prompt vars' tpl = render_prompt vars tpl"
proof -
  have "set (list_placeholders tpl) \<subseteq> dom vars'" using assms by fastforce
  moreover have "fill vars' x = fill vars x" if "x \<in> set (pieces tpl)" for x
  proof (cases x)
    case (Placeholder name)
    with that have "name \<in> set (list_placeholders tpl)"
      by (simp add: list_placeholders_def placeholder_names_pieces)
    with assms(2) Placeholder show ?thesis by simp
  qed simp
  then have "map (fill vars') (pieces tpl) = map (fill vars) (pieces tpl)" by simp
  ultimately show ?thesis using assms(1) by (simp only: render_prompt_total)
qed

end
