(* ===== verification/LlmGateway.thy ===== *)
theory LlmGateway
  imports Complex_Main PlanningPipeline
begin

text \<open>
  The one adapter that calls the model (\<open>infrastructure/ai/openrouter.gateway.ts\<close>) and the two
  ports built on it (\<open>gateway-llm-planner.ts\<close>, \<open>gateway-suggestion-generator.ts\<close>). The outside
  world is a state \<open>'w\<close>: \<open>fetch\<close>, the clock, \<open>sleep\<close>, \<open>Math.random\<close> and the hook before an
  attempt are functions on it. \<open>JSON.parse\<close>, \<open>Number\<close> and \<open>Date.parse\<close> on a text are parameters
  (\<open>Number\<close> as a rational number, \<open>None\<close> when not finite; \<open>gw_number_text\<close> prints a number).
\<close>

section \<open>Data\<close>

datatype chat_role = SystemRole | UserRole | AssistantRole

record chat_message =
  cm_role :: chat_role
  cm_content :: js_string

record chat_request =
  cq_url :: js_string
  cq_apiKey :: "js_string option"
  cq_model :: js_string
  cq_messages :: "chat_message list"
  cq_maxTokens :: int
  cq_schemaName :: js_string
  cq_models :: "js_string list option"
  cq_timeoutMs :: int

text \<open>
  What \<open>fetch\<close> and \<open>text()\<close> give: a rejection with the error's name and \<open>signal.aborted\<close> (of
  either call), a status that is not ok with its \<open>retry-after\<close> header, or the text of the body.
\<close>

datatype fetch_reply =
    NetworkError js_string bool
  | StatusReply int "js_string option"
  | BodyText js_string

record gateway_config =
  gc_apiKey :: "js_string option"
  gc_baseUrl :: "js_string option"
  gc_model :: "js_string option"
  gc_fallbackModels :: "js_string option"
  gc_maxTokens :: "int option"
  gc_timeoutMs :: "int option"
  gc_maxRetries :: "int option"

record 'w gateway_deps =
  gw_fetch :: "chat_request \<Rightarrow> 'w \<Rightarrow> fetch_reply \<times> 'w"
  gw_now :: "'w \<Rightarrow> time"
  gw_sleep :: "rat \<Rightarrow> 'w \<Rightarrow> 'w"
  gw_random :: "'w \<Rightarrow> rat"
  gw_json :: "js_string \<Rightarrow> json option"
  gw_number :: "js_string \<Rightarrow> rat option"
  gw_number_text :: "rat \<Rightarrow> js_string"
  gw_date :: "js_string \<Rightarrow> time option"

record 'w completion_request =
  cr_system :: js_string
  cr_user :: js_string
  cr_schemaName :: js_string
  cr_maxTokens :: "int option"
  cr_beforeAttempt :: "'w \<Rightarrow> (app_error + unit) \<times> 'w"

record llm_usage =
  lu_promptTokens :: "rat option"
  lu_completionTokens :: "rat option"
  lu_totalTokens :: "rat option"

record raw_completion =
  rc_content :: js_string
  rc_model :: js_string
  rc_finishReason :: js_string
  rc_usage :: "llm_usage option"

record llm_completion =
  lc_json :: json
  lc_model :: js_string
  lc_finishReason :: js_string
  lc_usage :: "llm_usage option"

datatype retry_kind = RateLimitRetry | TransientRetry | NoRetry

text \<open>An attempt: an \<open>AttemptFailure\<close>, any other thrown error, or a completion.\<close>

datatype attempt_outcome =
    Failed app_error retry_kind "rat option"
  | Thrown app_error
  | Completed raw_completion

section \<open>Fixed texts and configuration\<close>

definition unavailable_message :: js_string where
  "unavailable_message = js ''AI provider temporarily unavailable''"

definition not_configured_message :: js_string where
  "not_configured_message = js ''AI suggestion generation is not configured''"

definition provider_failed_message :: js_string where
  "provider_failed_message = js ''The AI provider failed to generate a suggestion''"

definition invalid_response_message :: js_string where
  "invalid_response_message = js ''The AI provider returned an invalid response''"

definition empty_response_message :: js_string where
  "empty_response_message = js ''The AI provider returned an empty response''"

definition rate_limited_message :: js_string where
  "rate_limited_message = js ''The AI provider is rate-limited''"

definition refused_message :: js_string where
  "refused_message = js ''The model refused to generate a suggestion''"

definition truncated_message :: js_string where
  "truncated_message = js ''The model response was truncated before completion''"

definition repair_instruction :: js_string where
  "repair_instruction = js ''Your previous reply was not valid JSON. Reply again with ONLY the JSON object that satisfies the schema: no prose, no markdown, no code fences.''"

text \<open>\<open>value || fallback\<close> on strings.\<close>

definition or_default :: "js_string option \<Rightarrow> js_string \<Rightarrow> js_string" where
  "or_default v d = (case v of Some s \<Rightarrow> if s = [] then d else s | None \<Rightarrow> d)"

definition is_available :: "gateway_config \<Rightarrow> bool" where
  "is_available c \<longleftrightarrow> or_default (gc_apiKey c) [] \<noteq> []"

definition config_model :: "gateway_config \<Rightarrow> js_string" where
  "config_model c = or_default (gc_model c) (js ''openrouter/free'')"

fun split_char :: "16 word \<Rightarrow> js_string \<Rightarrow> js_string list" where
  "split_char sep [] = [[]]"
| "split_char sep (c # s) =
     (if c = sep then [] # split_char sep s
      else (case split_char sep s of [] \<Rightarrow> [[c]] | w # ws \<Rightarrow> (c # w) # ws))"

definition parse_model_list :: "js_string option \<Rightarrow> js_string list" where
  "parse_model_list v =
     filter (\<lambda>m. 0 < length m) (map trim (split_char 44 (case v of None \<Rightarrow> [] | Some s \<Rightarrow> s)))"

definition other_models :: "gateway_config \<Rightarrow> js_string list" where
  "other_models c = filter (\<lambda>m. m \<noteq> config_model c) (parse_model_list (gc_fallbackModels c))"

definition model_identity :: "(json \<Rightarrow> js_string) \<Rightarrow> gateway_config \<Rightarrow> js_string" where
  "model_identity json_text c = json_text (JArr (map JStr (config_model c # other_models c)))"

definition timeout_ms :: "gateway_config \<Rightarrow> int" where
  "timeout_ms c = (case gc_timeoutMs c of None \<Rightarrow> 60000 | Some t \<Rightarrow> t)"

definition max_retries :: "gateway_config \<Rightarrow> int" where
  "max_retries c = min 3 (max 0 (case gc_maxRetries c of None \<Rightarrow> 1 | Some n \<Rightarrow> n))"

definition strip_slashes :: "js_string \<Rightarrow> js_string" where
  "strip_slashes s = rev (dropWhile (\<lambda>c. c = 47) (rev s))"

section \<open>Reading a reply\<close>

definition truthy :: "json \<Rightarrow> bool" where
  "truthy v = (case v of JNull \<Rightarrow> False | JBool b \<Rightarrow> b | JNum n \<Rightarrow> n \<noteq> NInt 0 | JStr s \<Rightarrow> s \<noteq> [] | _ \<Rightarrow> True)"

text \<open>\<open>v?.key\<close> as a value that is truthy.\<close>

definition truthy_prop :: "js_string \<Rightarrow> json \<Rightarrow> json option" where
  "truthy_prop k v = (case obj_get k v of Some w \<Rightarrow> if truthy w then Some w else None | None \<Rightarrow> None)"

definition string_prop :: "js_string \<Rightarrow> json \<Rightarrow> js_string option" where
  "string_prop k v = (case obj_get k v of Some (JStr s) \<Rightarrow> Some s | _ \<Rightarrow> None)"

definition number_value :: "(js_string \<Rightarrow> rat option) \<Rightarrow> number \<Rightarrow> rat option" where
  "number_value to_number n = (case n of NInt k \<Rightarrow> Some (of_int k) | NFrac s \<Rightarrow> to_number s)"

definition to_status :: "(js_string \<Rightarrow> rat option) \<Rightarrow> json option \<Rightarrow> rat option" where
  "to_status to_number code =
     (case code of
        Some (JStr s) \<Rightarrow> to_number s
      | Some (JNum n) \<Rightarrow> number_value to_number n
      | _ \<Rightarrow> None)"

definition usage_number :: "(js_string \<Rightarrow> rat option) \<Rightarrow> json option \<Rightarrow> rat option" where
  "usage_number to_number v = (case v of Some (JNum n) \<Rightarrow> number_value to_number n | _ \<Rightarrow> None)"

definition to_usage :: "(js_string \<Rightarrow> rat option) \<Rightarrow> json option \<Rightarrow> llm_usage option" where
  "to_usage to_number v =
     (case v of
        None \<Rightarrow> None
      | Some u \<Rightarrow>
          (if \<not> truthy u then None
           else
             (let r = \<lparr>lu_promptTokens = usage_number to_number (obj_get (js ''prompt_tokens'') u),
                       lu_completionTokens = usage_number to_number (obj_get (js ''completion_tokens'') u),
                       lu_totalTokens = usage_number to_number (obj_get (js ''total_tokens'') u)\<rparr>
              in if lu_promptTokens r = None \<and> lu_completionTokens r = None \<and> lu_totalTokens r = None
                 then None else Some r)))"

definition add_tokens :: "rat option \<Rightarrow> rat option \<Rightarrow> rat option" where
  "add_tokens x y =
     (case (x, y) of (None, None) \<Rightarrow> None
      | _ \<Rightarrow> Some ((case x of None \<Rightarrow> 0 | Some a \<Rightarrow> a) + (case y of None \<Rightarrow> 0 | Some b \<Rightarrow> b)))"

definition usage_field :: "(llm_usage \<Rightarrow> rat option) \<Rightarrow> llm_usage option \<Rightarrow> rat option" where
  "usage_field f u = (case u of None \<Rightarrow> None | Some v \<Rightarrow> f v)"

definition sum_usage :: "llm_usage option \<Rightarrow> llm_usage option \<Rightarrow> llm_usage option" where
  "sum_usage a b =
     (if a = None \<and> b = None then None
      else Some \<lparr>lu_promptTokens = add_tokens (usage_field lu_promptTokens a) (usage_field lu_promptTokens b),
        lu_completionTokens = add_tokens (usage_field lu_completionTokens a) (usage_field lu_completionTokens b),
        lu_totalTokens = add_tokens (usage_field lu_totalTokens a) (usage_field lu_totalTokens b)\<rparr>)"

definition parse_retry_after :: "'w gateway_deps \<Rightarrow> time \<Rightarrow> js_string option \<Rightarrow> rat option" where
  "parse_retry_after d now header =
     (case header of
        None \<Rightarrow> None
      | Some h \<Rightarrow>
          (if trim h = [] then None
           else
             (case gw_number d h of
                Some n \<Rightarrow> if 0 \<le> n then Some n else None
              | None \<Rightarrow>
                  (case gw_date d h of
                     None \<Rightarrow> None
                   | Some date \<Rightarrow> Some (of_int (max 0 (- ((- (date - now)) div 1000))))))))"

definition network_failure :: "js_string \<Rightarrow> bool \<Rightarrow> attempt_outcome" where
  "network_failure name aborted =
     Failed (GeneratorUnavailable unavailable_message)
       (if aborted \<or> name = js ''TimeoutError'' \<or> name = js ''AbortError'' then NoRetry else TransientRetry) None"

definition status_failure :: "'w gateway_deps \<Rightarrow> time \<Rightarrow> rat option \<Rightarrow> js_string option \<Rightarrow> attempt_outcome" where
  "status_failure d now status retry_after =
     (case status of
        None \<Rightarrow> Failed (GenerationProvider provider_failed_message) NoRetry None
      | Some s \<Rightarrow>
          (if s = 429 then
             (let seconds = parse_retry_after d now retry_after
              in Failed (GeneratorRateLimited rate_limited_message (map_option (gw_number_text d) seconds))
                   RateLimitRetry seconds)
           else if 500 \<le> s then Failed (GeneratorUnavailable unavailable_message) TransientRetry None
           else if s = 408 then Failed (GeneratorUnavailable unavailable_message) NoRetry None
           else Failed (GenerationProvider provider_failed_message) NoRetry None))"

text \<open>\<open>choices?.[0]\<close>, on whatever value \<open>choices\<close> is, when it is truthy.\<close>

definition first_choice :: "json \<Rightarrow> json option" where
  "first_choice parsed =
     (case obj_get (js ''choices'') parsed of
        Some (JArr (x # _)) \<Rightarrow> if truthy x then Some x else None
      | Some (JObj ps) \<Rightarrow> truthy_prop (js ''0'') (JObj ps)
      | Some (JStr (c # _)) \<Rightarrow> Some (JStr [c])
      | _ \<Rightarrow> None)"

definition read_choice :: "'w gateway_deps \<Rightarrow> gateway_config \<Rightarrow> time \<Rightarrow> json \<Rightarrow> json \<Rightarrow> attempt_outcome" where
  "read_choice d c now parsed choice =
     (case truthy_prop (js ''error'') choice of
        Some err \<Rightarrow> status_failure d now (to_status (gw_number d) (obj_get (js ''code'') err)) None
      | None \<Rightarrow>
          (let finish_reason = (case string_prop (js ''finish_reason'') choice of Some s \<Rightarrow> s | None \<Rightarrow> []);
               model = or_default (string_prop (js ''model'') parsed) (config_model c)
           in if finish_reason = js ''length'' then Thrown (GenerationTruncated truncated_message)
              else if finish_reason = js ''content_filter'' then Thrown (GenerationRefused refused_message)
              else
                (case Option.bind (obj_get (js ''message'') choice) (string_prop (js ''content'')) of
                   None \<Rightarrow> Thrown (GenerationProvider empty_response_message)
                 | Some content \<Rightarrow>
                     (if trim content = [] then Thrown (GenerationProvider empty_response_message)
                      else Completed \<lparr>rc_content = content, rc_model = model, rc_finishReason = finish_reason,
                        rc_usage = to_usage (gw_number d) (obj_get (js ''usage'') parsed)\<rparr>))))"

definition is_object :: "json \<Rightarrow> bool" where
  "is_object v = (case v of JObj _ \<Rightarrow> True | JArr _ \<Rightarrow> True | _ \<Rightarrow> False)"

definition read_body :: "'w gateway_deps \<Rightarrow> gateway_config \<Rightarrow> time \<Rightarrow> js_string \<Rightarrow> attempt_outcome" where
  "read_body d c now body =
     (case gw_json d body of
        None \<Rightarrow> Thrown (GenerationProvider invalid_response_message)
      | Some parsed \<Rightarrow>
          (if \<not> is_object parsed then Thrown (GenerationProvider invalid_response_message)
           else
             (case truthy_prop (js ''error'') parsed of
                Some err \<Rightarrow> status_failure d now (to_status (gw_number d) (obj_get (js ''code'') err)) None
              | None \<Rightarrow>
                  (case first_choice parsed of
                     None \<Rightarrow> Thrown (GenerationProvider empty_response_message)
                   | Some choice \<Rightarrow> read_choice d c now parsed choice))))"

definition read_reply :: "'w gateway_deps \<Rightarrow> gateway_config \<Rightarrow> time \<Rightarrow> fetch_reply \<Rightarrow> attempt_outcome" where
  "read_reply d c now reply =
     (case reply of
        NetworkError name aborted \<Rightarrow> network_failure name aborted
      | StatusReply status retry_after \<Rightarrow> status_failure d now (Some (of_int status)) retry_after
      | BodyText t \<Rightarrow> read_body d c now t)"

section \<open>Attempts and retries\<close>

definition build_request ::
    "'w gateway_deps \<Rightarrow> gateway_config \<Rightarrow> 'w completion_request \<Rightarrow> chat_message list \<Rightarrow> time \<Rightarrow> 'w \<Rightarrow> chat_request" where
  "build_request d c req messages deadline w =
     \<lparr>cq_url = strip_slashes (or_default (gc_baseUrl c) (js ''https://openrouter.ai/api/v1'')) @ js ''/chat/completions'',
      cq_apiKey = gc_apiKey c, cq_model = config_model c, cq_messages = messages,
      cq_maxTokens = (case cr_maxTokens req of Some n \<Rightarrow> n | None \<Rightarrow> (case gc_maxTokens c of Some n \<Rightarrow> n | None \<Rightarrow> 4096)),
      cq_schemaName = cr_schemaName req,
      cq_models = (if 0 < length (parse_model_list (gc_fallbackModels c)) then Some (config_model c # other_models c) else None),
      cq_timeoutMs = max 1 (deadline - gw_now d w)\<rparr>"

definition attempt ::
    "'w gateway_deps \<Rightarrow> gateway_config \<Rightarrow> 'w completion_request \<Rightarrow> chat_message list \<Rightarrow> time \<Rightarrow> 'w \<Rightarrow>
     attempt_outcome \<times> 'w" where
  "attempt d c req messages deadline w =
     (case cr_beforeAttempt req w of
        (Inl e, w1) \<Rightarrow> (Thrown e, w1)
      | (Inr _, w1) \<Rightarrow>
          (case gw_fetch d (build_request d c req messages deadline w1) w1 of
             (reply, w2) \<Rightarrow> (read_reply d c (gw_now d w2) reply, w2)))"

definition retry_delay_ms ::
    "'w gateway_deps \<Rightarrow> retry_kind \<Rightarrow> rat option \<Rightarrow> time \<Rightarrow> int \<Rightarrow> 'w \<Rightarrow> rat option" where
  "retry_delay_ms d retry retry_after deadline left w =
     (if left \<le> 0 \<or> retry = NoRetry then None
      else
        (let remaining = deadline - gw_now d w;
             wait = (case retry of
                 RateLimitRetry \<Rightarrow> (case retry_after of None \<Rightarrow> None | Some s \<Rightarrow> if 10 < s then None else Some (s * 1000))
               | _ \<Rightarrow> Some (500 + of_int \<lfloor>gw_random d w * 250\<rfloor>))
         in (case wait of
               None \<Rightarrow> None
             | Some ms \<Rightarrow> if 1000 \<le> of_int remaining - ms then Some ms else None)))"

lemma retry_delay_left: "retry_delay_ms d retry secs deadline left w = Some ms \<Longrightarrow> 0 < left"
  by (auto simp: retry_delay_ms_def split: if_splits)

text \<open>\<open>callWithRetries\<close>: the result, the retries left, the world.\<close>

function call_with_retries ::
    "'w gateway_deps \<Rightarrow> gateway_config \<Rightarrow> 'w completion_request \<Rightarrow> chat_message list \<Rightarrow> time \<Rightarrow> int \<Rightarrow> 'w \<Rightarrow>
     (app_error + raw_completion) \<times> int \<times> 'w" where
  "call_with_retries d c req messages deadline left w =
     (case attempt d c req messages deadline w of
        (Completed raw, w1) \<Rightarrow> (Inr raw, left, w1)
      | (Thrown e, w1) \<Rightarrow> (Inl e, left, w1)
      | (Failed e retry seconds, w1) \<Rightarrow>
          (case retry_delay_ms d retry seconds deadline left w1 of
             None \<Rightarrow> (Inl e, left, w1)
           | Some ms \<Rightarrow> call_with_retries d c req messages deadline (left - 1) (gw_sleep d ms w1)))"
  by pat_completeness auto
termination
  by (relation "measure (\<lambda>(_, _, _, _, _, left, _). nat left)") (auto dest: retry_delay_left)

declare call_with_retries.simps [simp del]

section \<open>\<open>complete\<close>\<close>

definition code_fence :: js_string where
  "code_fence = [96, 96, 96]"

definition fence_tag_char :: "16 word \<Rightarrow> bool" where
  "fence_tag_char c \<longleftrightarrow> word_char c \<or> c = 45"

text \<open>The match of the fence pattern: its greedy choices are the only ones, the body is trimmed.\<close>

definition strip_fence :: "js_string \<Rightarrow> js_string" where
  "strip_fence content =
     (let t = trim content; r = dropWhile js_ws (dropWhile fence_tag_char (drop 3 t)) in
      if starts_with code_fence t \<and> 3 \<le> length r \<and> drop (length r - 3) r = code_fence
      then trim (take (length r - 3) r) else t)"

definition parse_json_content :: "'w gateway_deps \<Rightarrow> js_string \<Rightarrow> json option" where
  "parse_json_content d content = gw_json d (strip_fence content)"

definition to_completion :: "raw_completion \<Rightarrow> json \<Rightarrow> llm_completion" where
  "to_completion raw v = \<lparr>lc_json = v, lc_model = rc_model raw, lc_finishReason = rc_finishReason raw,
     lc_usage = rc_usage raw\<rparr>"

definition first_messages :: "'w completion_request \<Rightarrow> chat_message list" where
  "first_messages req = [\<lparr>cm_role = SystemRole, cm_content = cr_system req\<rparr>,
     \<lparr>cm_role = UserRole, cm_content = cr_user req\<rparr>]"

definition repair_messages :: "'w completion_request \<Rightarrow> js_string \<Rightarrow> chat_message list" where
  "repair_messages req reply = first_messages req @
     [\<lparr>cm_role = AssistantRole, cm_content = reply\<rparr>, \<lparr>cm_role = UserRole, cm_content = repair_instruction\<rparr>]"

text \<open>The repair retry; \<open>first\<close> is the reply that was not JSON.\<close>

definition repair ::
    "'w gateway_deps \<Rightarrow> gateway_config \<Rightarrow> 'w completion_request \<Rightarrow> time \<Rightarrow> raw_completion \<Rightarrow> int \<Rightarrow> 'w \<Rightarrow>
     (app_error + llm_completion) \<times> 'w" where
  "repair d c req deadline first left w =
     (if deadline - gw_now d w \<le> 0 then (Inl (GenerationProvider invalid_response_message), w)
      else
        (case call_with_retries d c req (repair_messages req (rc_content first)) deadline left w of
           (Inl e, _, w') \<Rightarrow> (Inl e, w')
         | (Inr second, _, w') \<Rightarrow>
             (let summed = second\<lparr>rc_usage := sum_usage (rc_usage first) (rc_usage second)\<rparr> in
              case parse_json_content d (rc_content summed) of
                Some v \<Rightarrow> (Inr (to_completion summed v), w')
              | None \<Rightarrow> (Inl (GenerationProvider invalid_response_message), w'))))"

definition gateway_complete ::
    "'w gateway_deps \<Rightarrow> gateway_config \<Rightarrow> 'w completion_request \<Rightarrow> 'w \<Rightarrow> (app_error + llm_completion) \<times> 'w" where
  "gateway_complete d c req w =
     (if \<not> is_available c then (Inl (GeneratorUnavailable not_configured_message), w)
      else
        (let deadline = gw_now d w + timeout_ms c in
         case call_with_retries d c req (first_messages req) deadline (max_retries c) w of
           (Inl e, _, w') \<Rightarrow> (Inl e, w')
         | (Inr first, left, w') \<Rightarrow>
             (case parse_json_content d (rc_content first) of
                Some v \<Rightarrow> (Inr (to_completion first v), w')
              | None \<Rightarrow> repair d c req deadline first left w')))"

section \<open>The ports built on the gateway\<close>

text \<open>\<open>reserve user\<close> is \<open>AiQuota.reserve\<close> on the world.\<close>

type_synonym 'w reserve = "ident \<Rightarrow> 'w \<Rightarrow> (app_error + unit) \<times> 'w"

definition planner_unavailable :: app_error where
  "planner_unavailable = OtherError (js ''Error'') (js ''LLM planner requested without OPENROUTER_API_KEY configured'')"

definition gateway_plan ::
    "'w gateway_deps \<Rightarrow> gateway_config \<Rightarrow> 'w reserve \<Rightarrow> plan_input \<Rightarrow> 'w \<Rightarrow> (app_error + planning_result) \<times> 'w" where
  "gateway_plan d c reserve inp w =
     (if \<not> is_available c then (Inl planner_unavailable, w)
      else
        (case gateway_complete d c \<lparr>cr_system = pi_system inp, cr_user = pi_user inp, cr_schemaName = js ''planning_result'',
                cr_maxTokens = None, cr_beforeAttempt = reserve (pi_userId inp)\<rparr> w of
           (Inl e, w') \<Rightarrow> (Inl e, w')
         | (Inr completion, w') \<Rightarrow> (to_planning_result (lc_json completion) (lc_model completion), w')))"

record generate_input =
  gi_system :: js_string
  gi_user :: js_string
  gi_featureType :: js_string
  gi_userId :: ident

record generated_text =
  gt_suggestedText :: js_string
  gt_model :: "js_string option"

definition schema_mismatch_message :: js_string where
  "schema_mismatch_message = js ''The AI provider returned a response that did not match the expected schema''"

definition read_suggestion :: "llm_completion \<Rightarrow> app_error + generated_text" where
  "read_suggestion completion =
     (case string_prop (js ''suggested_text'') (lc_json completion) of
        None \<Rightarrow> Inl (GenerationProvider schema_mismatch_message)
      | Some t \<Rightarrow> Inr \<lparr>gt_suggestedText = t, gt_model = Some (lc_model completion)\<rparr>)"

definition gateway_generate ::
    "'w gateway_deps \<Rightarrow> gateway_config \<Rightarrow> 'w reserve \<Rightarrow> generate_input \<Rightarrow> 'w \<Rightarrow> (app_error + generated_text) \<times> 'w" where
  "gateway_generate d c reserve inp w =
     (case gateway_complete d c \<lparr>cr_system = gi_system inp, cr_user = gi_user inp, cr_schemaName = js ''suggestion'',
             cr_maxTokens = None, cr_beforeAttempt = reserve (gi_userId inp)\<rparr> w of
        (Inl e, w') \<Rightarrow> (Inl e, w')
      | (Inr completion, w') \<Rightarrow> (read_suggestion completion, w'))"

text \<open>\<open>NullSuggestionGenerator\<close>.\<close>

definition null_generate :: "generate_input \<Rightarrow> 'w \<Rightarrow> (app_error + generated_text) \<times> 'w" where
  "null_generate inp w = (Inl (GeneratorUnavailable not_configured_message), w)"

section \<open>Attempts are metered\<close>

text \<open>
  The same call with a log beside the world: one entry for each hook that let an attempt pass, one for
  each request sent. The log does not change the call (\<open>complete_traced\<close>).
\<close>

datatype gateway_event = Reserved | Asked chat_request

definition traced_request :: "'w completion_request \<Rightarrow> ('w \<times> gateway_event list) completion_request" where
  "traced_request req = \<lparr>cr_system = cr_system req, cr_user = cr_user req, cr_schemaName = cr_schemaName req,
     cr_maxTokens = cr_maxTokens req,
     cr_beforeAttempt = (\<lambda>(w, evs). case cr_beforeAttempt req w of
        (Inl e, w') \<Rightarrow> (Inl e, w', evs) | (Inr u, w') \<Rightarrow> (Inr u, w', evs @ [Reserved]))\<rparr>"

definition traced :: "'w gateway_deps \<Rightarrow> ('w \<times> gateway_event list) gateway_deps" where
  "traced d = \<lparr>gw_fetch = (\<lambda>q (w, evs). case gw_fetch d q w of (r, w') \<Rightarrow> (r, w', evs @ [Asked q])),
     gw_now = (\<lambda>(w, _). gw_now d w), gw_sleep = (\<lambda>ms (w, evs). (gw_sleep d ms w, evs)),
     gw_random = (\<lambda>(w, _). gw_random d w), gw_json = gw_json d, gw_number = gw_number d,
     gw_number_text = gw_number_text d, gw_date = gw_date d\<rparr>"

definition metered :: "chat_request list \<Rightarrow> gateway_event list" where
  "metered qs = concat (map (\<lambda>q. [Reserved, Asked q]) qs)"

lemma metered_append [simp]: "metered (qs @ rs) = metered qs @ metered rs" "metered [] = []"
  by (simp_all add: metered_def)

lemma traced_sel [simp]:
  "gw_json (traced d) = gw_json d" "gw_number (traced d) = gw_number d" "gw_date (traced d) = gw_date d"
  "gw_number_text (traced d) = gw_number_text d" "gw_now (traced d) (w, evs) = gw_now d w"
  "gw_sleep (traced d) ms (w, evs) = (gw_sleep d ms w, evs)" "gw_random (traced d) (w, evs) = gw_random d w"
  "gw_fetch (traced d) q (w, evs) = (case gw_fetch d q w of (r, w') \<Rightarrow> (r, w', evs @ [Asked q]))"
  by (simp_all add: traced_def)

lemma status_failure_traced [simp]: "status_failure (traced d) = status_failure d"
proof (intro ext)
  fix now status header
  have "parse_retry_after (traced d) now header = parse_retry_after d now header"
    by (simp add: parse_retry_after_def split: option.split)
  then show "status_failure (traced d) now status header = status_failure d now status header"
    by (simp add: status_failure_def split: option.split)
qed

lemma read_reply_traced [simp]: "read_reply (traced d) c now reply = read_reply d c now reply"
  by (simp add: read_reply_def read_body_def read_choice_def Let_def split: fetch_reply.split option.split)

lemma parse_json_content_traced [simp]: "parse_json_content (traced d) s = parse_json_content d s"
  by (simp add: parse_json_content_def)

lemma messages_traced [simp]:
  "first_messages (traced_request req) = first_messages req"
  "repair_messages (traced_request req) reply = repair_messages req reply"
  by (simp_all add: first_messages_def repair_messages_def traced_request_def)

lemma retry_delay_traced [simp]:
  "retry_delay_ms (traced d) retry secs deadline left (w, evs) = retry_delay_ms d retry secs deadline left w"
  by (simp add: retry_delay_ms_def split: retry_kind.split option.split)

lemma attempt_traced:
  "attempt (traced d) c (traced_request req) messages deadline (w, evs) =
     (case cr_beforeAttempt req w of
        (Inl e, w1) \<Rightarrow> (Thrown e, w1, evs)
      | (Inr _, w1) \<Rightarrow>
          (case attempt d c req messages deadline w of
             (r, w2) \<Rightarrow> (r, w2, evs @ metered [build_request d c req messages deadline w1])))"
proof -
  have "build_request (traced d) c (traced_request req) messages deadline (w1, evs') =
      build_request d c req messages deadline w1" for w1 evs'
    by (simp add: build_request_def traced_request_def)
  then show ?thesis
    by (auto simp: attempt_def traced_request_def metered_def split: prod.splits sum.splits)
qed

text \<open>One run of the retry loop: the requests it sends, and the retries they cost.\<close>

definition call_trace :: "int \<Rightarrow> int \<Rightarrow> chat_message list \<Rightarrow> chat_request list \<Rightarrow> bool" where
  "call_trace left left' messages qs \<longleftrightarrow>
     int (length qs) + left' \<le> left + 1 \<and> left' \<le> left \<and> min 0 left \<le> left' \<and>
     list_all (\<lambda>q. cq_messages q = messages) qs"

lemma attempt_traced_cases:
  obtains (refused) e w1 where "attempt d c req messages deadline w = (Thrown e, w1)"
      "attempt (traced d) c (traced_request req) messages deadline (w, evs) = (Thrown e, w1, evs)"
  | (asked) q r w2 where "attempt d c req messages deadline w = (r, w2)" "cq_messages q = messages"
      "attempt (traced d) c (traced_request req) messages deadline (w, evs) = (r, w2, evs @ metered [q])"
proof (cases "cr_beforeAttempt req w")
  case (Pair r0 w1)
  show ?thesis
  proof (cases r0)
    case (Inl e)
    with Pair refused [of e w1] show ?thesis by (simp add: attempt_traced) (simp add: attempt_def)
  next
    case (Inr u)
    obtain r w2 where "attempt d c req messages deadline w = (r, w2)" by (cases "attempt d c req messages deadline w")
    with Pair Inr asked [of r w2 "build_request d c req messages deadline w1"] show ?thesis
      by (simp add: attempt_traced build_request_def)
  qed
qed

lemma call_traced:
  "\<exists>r left' w' qs. call_with_retries d c req messages deadline left w = (r, left', w') \<and>
     call_with_retries (traced d) c (traced_request req) messages deadline left (w, evs) =
       (r, left', w', evs @ metered qs) \<and> call_trace left left' messages qs \<and> (isl r \<or> qs \<noteq> [])"
proof (induction d c req messages deadline left w arbitrary: evs rule: call_with_retries.induct)
  case (1 d c req messages deadline left w)
  let ?call = "call_with_retries d c req messages deadline left w"
  show ?case
  proof (cases rule: attempt_traced_cases [of d c req messages deadline w evs])
    case (refused e w1)
    then show ?thesis
      by (intro exI [of _ "Inl e"] exI [of _ left] exI [of _ w1] exI [of _ "[]"])
        (simp add: call_with_retries.simps [of _ _ _ _ _ left] call_trace_def)
  next
    case (asked q r w2)
    show ?thesis
    proof (cases "\<exists>e retry secs ms. r = Failed e retry secs \<and> retry_delay_ms d retry secs deadline left w2 = Some ms")
      case True
      then obtain e retry secs ms where r: "r = Failed e retry secs"
        and delay: "retry_delay_ms d retry secs deadline left w2 = Some ms" by blast
      from 1 [OF asked(1) [symmetric] r delay, of "evs @ metered [q]"]
      obtain r' left' w' qs where rest:
        "call_with_retries d c req messages deadline (left - 1) (gw_sleep d ms w2) = (r', left', w')"
        "call_with_retries (traced d) c (traced_request req) messages deadline (left - 1)
           (gw_sleep d ms w2, evs @ metered [q]) = (r', left', w', (evs @ metered [q]) @ metered qs)"
        "call_trace (left - 1) left' messages qs" "isl r' \<or> qs \<noteq> []"
        by blast
      with asked r delay retry_delay_left [OF delay] show ?thesis
        by (intro exI [of _ r'] exI [of _ left'] exI [of _ w'] exI [of _ "q # qs"])
          (simp add: call_with_retries.simps [of _ _ _ _ _ left] call_trace_def metered_def)
    next
      case False
      with asked show ?thesis
        by (intro exI [of _ "case r of Completed raw \<Rightarrow> Inr raw | Thrown e \<Rightarrow> Inl e | Failed e _ _ \<Rightarrow> Inl e"]
            exI [of _ left] exI [of _ w2] exI [of _ "[q]"])
          (auto simp: call_with_retries.simps [of _ _ _ _ _ left] call_trace_def
            split: attempt_outcome.splits option.splits)
    qed
  qed
qed

lemma max_retries_bounds: "0 \<le> max_retries c" "max_retries c \<le> 3"
  by (simp_all add: max_retries_def)

lemma call_tracedE:
  obtains r left' w' qs where "call_with_retries d c req messages deadline left w = (r, left', w')"
    "call_with_retries (traced d) c (traced_request req) messages deadline left (w, evs) =
       (r, left', w', evs @ metered qs)"
    "call_trace left left' messages qs" "isl r \<or> qs \<noteq> []"
  using call_traced [of d c req messages deadline left w evs] by (elim exE conjE) (rule that)

lemma repair_traced:
  assumes "0 \<le> left"
  shows "\<exists>r w' rs. repair d c req deadline raw left w = (r, w') \<and>
     repair (traced d) c (traced_request req) deadline raw left (w, evs) = (r, w', evs @ metered rs) \<and>
     list_all (\<lambda>q. cq_messages q = repair_messages req (rc_content raw)) rs \<and> int (length rs) \<le> left + 1"
proof (cases "deadline - gw_now d w \<le> 0")
  case True
  then show ?thesis by (intro exI [of _ w] exI [of _ "[]"] exI) (simp add: repair_def assms)
next
  case False
  let ?messages = "repair_messages req (rc_content raw)"
  obtain r2 left' w2 rs where call:
    "call_with_retries d c req ?messages deadline left w = (r2, left', w2)"
    "call_with_retries (traced d) c (traced_request req) ?messages deadline left (w, evs) =
       (r2, left', w2, evs @ metered rs)" "call_trace left left' ?messages rs"
    by (rule call_tracedE)
  have "\<exists>r. repair d c req deadline raw left w = (r, w2) \<and>
      repair (traced d) c (traced_request req) deadline raw left (w, evs) = (r, w2, evs @ metered rs)"
    using False call by (cases r2) (simp_all add: repair_def Let_def split: option.split)
  then obtain r where "repair d c req deadline raw left w = (r, w2)"
    "repair (traced d) c (traced_request req) deadline raw left (w, evs) = (r, w2, evs @ metered rs)" by blast
  with call(3) assms show ?thesis
    by (intro exI [of _ r] exI [of _ w2] exI [of _ rs]) (simp add: call_trace_def)
qed

text \<open>The requests of a whole call: those of the first run, then those of the repair.\<close>

lemma complete_traced:
  "\<exists>r w' qs rs reply. gateway_complete d c req w = (r, w') \<and>
     gateway_complete (traced d) c (traced_request req) (w, evs) = (r, w', evs @ metered (qs @ rs)) \<and>
     list_all (\<lambda>q. cq_messages q = first_messages req) qs \<and>
     list_all (\<lambda>q. cq_messages q = repair_messages req reply) rs \<and>
     int (length (qs @ rs)) \<le> max_retries c + 2 \<and> (isl r \<or> qs \<noteq> [])"
proof (cases "is_available c")
  case False
  then show ?thesis
    by (intro exI [of _ "Inl (GeneratorUnavailable not_configured_message)"] exI [of _ w] exI [of _ "[]"])
      (simp add: gateway_complete_def max_retries_def)
next
  case True
  let ?deadline = "gw_now d w + timeout_ms c"
  obtain r1 left w1 qs where first:
    "call_with_retries d c req (first_messages req) ?deadline (max_retries c) w = (r1, left, w1)"
    "call_with_retries (traced d) c (traced_request req) (first_messages req) ?deadline (max_retries c) (w, evs) =
       (r1, left, w1, evs @ metered qs)"
    "call_trace (max_retries c) left (first_messages req) qs" "isl r1 \<or> qs \<noteq> []"
    by (rule call_tracedE)
  have len: "int (length qs) + left \<le> max_retries c + 1" "0 \<le> left"
    using first(3) max_retries_bounds(1) [of c] by (simp_all add: call_trace_def)
  have all: "list_all (\<lambda>q. cq_messages q = first_messages req) qs" using first(3) by (simp add: call_trace_def)
  have direct: ?thesis if "gateway_complete d c req w = (r, w1)"
    "gateway_complete (traced d) c (traced_request req) (w, evs) = (r, w1, evs @ metered qs)" "isl r \<or> qs \<noteq> []" for r
    using that len all by (intro exI [of _ r] exI [of _ w1] exI [of _ qs] exI [of _ "[]"]) simp
  show ?thesis
  proof (cases r1)
    case (Inl e)
    with True first direct [of "Inl e"] show ?thesis by (simp add: gateway_complete_def Let_def)
  next
    case (Inr raw)
    show ?thesis
    proof (cases "parse_json_content d (rc_content raw)")
      case (Some v)
      with True first Inr direct [of "Inr (to_completion raw v)"] show ?thesis by (simp add: gateway_complete_def Let_def)
    next
      case None
      obtain r w2 rs where rep: "repair d c req ?deadline raw left w1 = (r, w2)"
        "repair (traced d) c (traced_request req) ?deadline raw left (w1, evs @ metered qs) =
           (r, w2, (evs @ metered qs) @ metered rs)"
        "list_all (\<lambda>q. cq_messages q = repair_messages req (rc_content raw)) rs" "int (length rs) \<le> left + 1"
        using repair_traced [OF len(2), of d c req ?deadline raw w1 "evs @ metered qs"] by (elim exE conjE) (rule that)
      then have "gateway_complete d c req w = (r, w2)"
        "gateway_complete (traced d) c (traced_request req) (w, evs) = (r, w2, evs @ metered (qs @ rs))"
        using True first Inr None by (simp_all add: gateway_complete_def Let_def)
      with rep(3,4) len all first(4) Inr show ?thesis
        by (intro exI [of _ r] exI [of _ w2] exI [of _ qs] exI [of _ rs]) auto
    qed
  qed
qed

section \<open>Only fixed texts are thrown\<close>

fun fixed_gateway_error :: "app_error \<Rightarrow> bool" where
  "fixed_gateway_error (GeneratorUnavailable m) \<longleftrightarrow> m = not_configured_message \<or> m = unavailable_message"
| "fixed_gateway_error (GenerationProvider m) \<longleftrightarrow>
     m = provider_failed_message \<or> m = invalid_response_message \<or> m = empty_response_message"
| "fixed_gateway_error (GenerationRefused m) \<longleftrightarrow> m = refused_message"
| "fixed_gateway_error (GenerationTruncated m) \<longleftrightarrow> m = truncated_message"
| "fixed_gateway_error (GeneratorRateLimited m _) \<longleftrightarrow> m = rate_limited_message"
| "fixed_gateway_error _ \<longleftrightarrow> False"

fun outcome_ok :: "(app_error \<Rightarrow> bool) \<Rightarrow> attempt_outcome \<Rightarrow> bool" where
  "outcome_ok P (Failed e _ _) = P e"
| "outcome_ok P (Thrown e) = P e"
| "outcome_ok P (Completed _) = True"

lemma status_failure_fixed: "outcome_ok fixed_gateway_error (status_failure d now status header)"
  by (simp add: status_failure_def Let_def split: option.split)

lemma read_reply_fixed: "outcome_ok fixed_gateway_error (read_reply d c now reply)"
  by (simp add: read_reply_def network_failure_def status_failure_fixed read_body_def read_choice_def Let_def
      split: fetch_reply.split option.split)

text \<open>An error the hook throws, or one of the gateway's own.\<close>

definition gateway_throws :: "'w completion_request \<Rightarrow> app_error \<Rightarrow> bool" where
  "gateway_throws req e \<longleftrightarrow> fixed_gateway_error e \<or> (\<exists>w. fst (cr_beforeAttempt req w) = Inl e)"

lemma attempt_throws: "outcome_ok (gateway_throws req) (fst (attempt d c req messages deadline w))"
proof (cases "cr_beforeAttempt req w")
  case (Pair r0 w1)
  have fixed: "outcome_ok (gateway_throws req) o'" if "outcome_ok fixed_gateway_error o'" for o'
    using that by (cases o') (simp_all add: gateway_throws_def)
  show ?thesis
  proof (cases r0)
    case (Inl e)
    with Pair have "fst (cr_beforeAttempt req w) = Inl e" by simp
    then have "gateway_throws req e" unfolding gateway_throws_def by blast
    with Pair Inl show ?thesis by (simp add: attempt_def)
  next
    case (Inr u)
    with Pair show ?thesis by (simp add: attempt_def fixed read_reply_fixed split: prod.split)
  qed
qed

lemma call_throws:
  "fst (call_with_retries d c req messages deadline left w) = Inl e \<Longrightarrow> gateway_throws req e"
proof (induction d c req messages deadline left w rule: call_with_retries.induct)
  case (1 d c req messages deadline left w)
  obtain r w1 where r: "attempt d c req messages deadline w = (r, w1)" by (cases "attempt d c req messages deadline w")
  with attempt_throws [of req d c messages deadline w] have ok: "outcome_ok (gateway_throws req) r" by simp
  show ?case
  proof (cases r)
    case (Failed e' retry secs)
    with 1 r ok show ?thesis
      by (cases "retry_delay_ms d retry secs deadline left w1")
        (simp_all add: call_with_retries.simps [of _ _ _ _ _ left])
  qed (use 1(2) r ok in \<open>simp_all add: call_with_retries.simps [of _ _ _ _ _ left]\<close>)
qed

lemma repair_throws: "fst (repair d c req deadline first left w) = Inl e \<Longrightarrow> gateway_throws req e"
  using call_throws [of d c req "repair_messages req (rc_content first)" deadline left w e]
  by (auto simp: repair_def gateway_throws_def Let_def split: if_splits prod.splits sum.splits option.splits)

lemma complete_throws: "fst (gateway_complete d c req w) = Inl e \<Longrightarrow> gateway_throws req e"
  using call_throws [of d c req "first_messages req" "gw_now d w + timeout_ms c" "max_retries c" w e]
  by (auto simp: gateway_complete_def Let_def intro: repair_throws simp: gateway_throws_def [of req "GeneratorUnavailable _"]
      split: if_splits prod.splits sum.splits option.splits)

section \<open>Properties\<close>

text \<open>C20: Every provider attempt is metered and their number is bounded: the requests a completion sends
  are each preceded by one reservation of its own, and there are no other reservations; they are at
  most the configured retries and two, and never more than five, the repair retry included. All carry
  the given system and user text, a repair also the rejected reply. (The log beside the world changes
  nothing of the call.)\<close>

theorem provider_attempts_metered:
  assumes "gateway_complete (traced d) c (traced_request req) (w, []) = (r, w', evs)"
  shows "gateway_complete d c req w = (r, w') \<and>
    (\<exists>qs rs reply. evs = metered (qs @ rs) \<and>
       list_all (\<lambda>q. cq_messages q = first_messages req) qs \<and>
       list_all (\<lambda>q. cq_messages q = repair_messages req reply) rs \<and>
       int (length (qs @ rs)) \<le> max_retries c + 2 \<and> length (qs @ rs) \<le> 5 \<and> (isl r \<or> qs \<noteq> []))"
proof -
  obtain r1 w1 qs rs reply where run: "gateway_complete d c req w = (r1, w1)"
    "gateway_complete (traced d) c (traced_request req) (w, []) = (r1, w1, [] @ metered (qs @ rs))"
    "list_all (\<lambda>q. cq_messages q = first_messages req) qs"
    "list_all (\<lambda>q. cq_messages q = repair_messages req reply) rs"
    "int (length (qs @ rs)) \<le> max_retries c + 2" "isl r1 \<or> qs \<noteq> []"
    using complete_traced [of d c req w "[]"] by (elim exE conjE) (rule that)
  then have "length (qs @ rs) \<le> 5" using max_retries_bounds(2) [of c] by linarith
  with run assms show ?thesis by auto
qed

definition sample_config :: gateway_config where
  "sample_config = \<lparr>gc_apiKey = Some (js ''key''), gc_baseUrl = None, gc_model = None, gc_fallbackModels = None,
     gc_maxTokens = None, gc_timeoutMs = None, gc_maxRetries = None\<rparr>"

definition sample_reply :: json where
  "sample_reply = JObj [(js ''choices'', JArr [JObj [(js ''message'', JObj [(js ''content'', JStr (js ''x''))])]])]"

text \<open>A provider that is down once and then answers; the world counts the requests.\<close>

definition flaky_provider :: "nat gateway_deps" where
  "flaky_provider = \<lparr>gw_fetch = (\<lambda>q n. (if n = 0 then StatusReply 503 None else BodyText (js ''x''), n + 1)),
     gw_now = (\<lambda>_. 0), gw_sleep = (\<lambda>_ n. n), gw_random = (\<lambda>_. 0), gw_json = (\<lambda>_. Some sample_reply),
     gw_number = (\<lambda>_. None), gw_number_text = (\<lambda>_. []), gw_date = (\<lambda>_. None)\<rparr>"

definition sample_request :: "nat completion_request" where
  "sample_request = \<lparr>cr_system = js ''s'', cr_user = js ''u'', cr_schemaName = js ''n'', cr_maxTokens = None,
     cr_beforeAttempt = (\<lambda>n. (Inr (), n))\<rparr>"

lemma sample_completion: "\<exists>v. gateway_complete flaky_provider sample_config sample_request 0 = (Inr v, 2)"
proof -
  have down: "attempt flaky_provider sample_config sample_request ms dl 0 =
      (Failed (GeneratorUnavailable unavailable_message) TransientRetry None, Suc 0)" for ms dl
    by (simp add: attempt_def sample_request_def flaky_provider_def read_reply_def status_failure_def)
  have delay: "retry_delay_ms flaky_provider TransientRetry None 60000 1 (Suc 0) = Some 500"
    by (simp add: retry_delay_ms_def flaky_provider_def)
  have up: "\<exists>raw. attempt flaky_provider sample_config sample_request ms dl (Suc 0) = (Completed raw, 2)" for ms dl
    by (simp add: attempt_def sample_request_def flaky_provider_def read_reply_def read_body_def read_choice_def
        sample_reply_def is_object_def truthy_prop_def first_choice_def truthy_def string_prop_def trim_def
        trim_start_def trim_end_def js_ws_def js_def Let_def)
  have config: "is_available sample_config" "timeout_ms sample_config = 60000" "max_retries sample_config = 1"
    by (simp_all add: is_available_def or_default_def sample_config_def timeout_ms_def max_retries_def)
  have world: "gw_now flaky_provider n = 0" "gw_sleep flaky_provider ms n = n" for ms n by (simp_all add: flaky_provider_def)
  have parse: "parse_json_content flaky_provider t = Some sample_reply" for t
    by (simp add: parse_json_content_def flaky_provider_def)
  obtain raw where raw: "attempt flaky_provider sample_config sample_request (first_messages sample_request) 60000 (Suc 0) =
      (Completed raw, 2)" using up by blast
  show ?thesis
    by (simp add: gateway_complete_def config world call_with_retries.simps [of _ _ _ _ _ 1] down delay
        call_with_retries.simps [of _ _ _ _ _ 0] raw parse)
qed

theorem provider_attempts_metered_witness:
  "\<exists>w' evs qs v. gateway_complete (traced flaky_provider) sample_config (traced_request sample_request) (0, []) = (Inr v, w', evs) \<and>
     evs = metered qs \<and> qs \<noteq> [] \<and> length qs \<le> 5"
proof -
  obtain r w' evs where run: "gateway_complete (traced flaky_provider) sample_config (traced_request sample_request) (0, []) = (r, w', evs)"
    by (metis prod_cases3)
  from provider_attempts_metered [OF run] obtain qs rs where
    "gateway_complete flaky_provider sample_config sample_request 0 = (r, w')" "evs = metered (qs @ rs)" "length (qs @ rs) \<le> 5"
    "isl r \<or> qs \<noteq> []" by blast
  with run sample_completion show ?thesis by (auto intro!: exI [of _ "qs @ rs"])
qed

text \<open>Whatever the provider sends, a completion throws one of the gateway's fixed errors, whose
  texts hold nothing of the reply, or what the hook before the attempt threw, unchanged. So the
  planner's failure is stored as one of the fixed texts, if the quota's errors are its own two.\<close>

theorem provider_text_not_thrown:
  assumes "gateway_plan d c reserve inp w = (Inl e, w')"
    and "\<And>w1 f w2. reserve (pi_userId inp) w1 = (Inl f, w2) \<Longrightarrow> f = AiQuotaUnavailable \<or> (\<exists>s. f = AiQuotaExceeded s)"
  shows "fixed_gateway_error e \<or> e = output_invalid \<or> e = planner_unavailable \<or> e = AiQuotaUnavailable \<or>
    (\<exists>s. e = AiQuotaExceeded s)"
proof (cases "is_available c")
  case False
  with assms(1) show ?thesis by (simp add: gateway_plan_def)
next
  case True
  let ?req = "\<lparr>cr_system = pi_system inp, cr_user = pi_user inp, cr_schemaName = js ''planning_result'',
    cr_maxTokens = None, cr_beforeAttempt = reserve (pi_userId inp)\<rparr>"
  show ?thesis
  proof (cases "gateway_complete d c ?req w")
    case (Pair r w1)
    show ?thesis
    proof (cases r)
      case (Inl f)
      with True Pair assms(1) have "f = e" by (simp add: gateway_plan_def)
      then have "gateway_throws ?req e" using complete_throws [of d c ?req w e] Pair Inl by simp
      then show ?thesis
        using assms(2) by (auto simp: gateway_throws_def) (metis prod.collapse)
    next
      case (Inr completion)
      with True Pair assms(1) have "to_planning_result (lc_json completion) (lc_model completion) = Inl e"
        by (simp add: gateway_plan_def)
      then show ?thesis by (auto simp: to_planning_result_def Let_def split: if_splits)
    qed
  qed
qed

theorem provider_text_not_thrown_witness:
  "\<exists>w' e. gateway_plan flaky_provider (sample_config\<lparr>gc_apiKey := None\<rparr>) (\<lambda>_ n. (Inl AiQuotaUnavailable, n))
      \<lparr>pi_userId = [], pi_prompt = [], pi_context = [], pi_system = [], pi_user = []\<rparr> 0 = (Inl e, w') \<and>
    (fixed_gateway_error e \<or> e = output_invalid \<or> e = planner_unavailable \<or> e = AiQuotaUnavailable \<or>
      (\<exists>s. e = AiQuotaExceeded s))"
proof -
  let ?c = "sample_config\<lparr>gc_apiKey := None\<rparr>" and ?r = "\<lambda>_ n. (Inl AiQuotaUnavailable, n :: nat)"
    and ?i = "\<lparr>pi_userId = [], pi_prompt = [], pi_context = [], pi_system = [], pi_user = []\<rparr>"
  have run: "gateway_plan flaky_provider ?c ?r ?i 0 = (Inl planner_unavailable, 0)"
    by (simp add: gateway_plan_def is_available_def or_default_def)
  from provider_text_not_thrown [OF run] run show ?thesis by auto
qed

end
