(* ===== verification/Prompts.thy ===== *)
theory Prompts
  imports PlanningRun PromptRender
begin

text \<open>
  Versioned prompts (\<open>domain/ai/prompt-definitions.ts\<close>, \<open>prompt.repository.ts\<close>,
  \<open>infrastructure/persistence/ai/prompt.typeorm.repository.ts\<close>, \<open>application/ai/*-prompt*.ts\<close>): the
  table, the per-instance cache of active prompts with its generation, and the admin use-cases.
\<close>

section \<open>Definitions of the feature types\<close>

record prompt_definition =
  pf_featureType :: js_string
  pf_userInvocable :: bool
  pf_allowedPlaceholders :: "js_string list"
  pf_requiredUserPlaceholder :: js_string

definition prompt_feature_types :: "js_string list" where
  "prompt_feature_types = map js [''suggestion'', ''rewrite'', ''summarize'', ''expand'', ''planning'']"

definition system_template_placeholders :: "js_string list" where
  "system_template_placeholders = [js ''nonce'']"

definition invocable_definition :: "js_string \<Rightarrow> prompt_definition" where
  "invocable_definition f = \<lparr>pf_featureType = f, pf_userInvocable = True,
     pf_allowedPlaceholders = map js [''content'', ''context'', ''nonce''],
     pf_requiredUserPlaceholder = js ''content''\<rparr>"

definition planning_definition :: prompt_definition where
  "planning_definition = \<lparr>pf_featureType = js ''planning'', pf_userInvocable = False,
     pf_allowedPlaceholders = map js [''prompt'', ''context'', ''nonce''],
     pf_requiredUserPlaceholder = js ''prompt''\<rparr>"

definition get_prompt_definition :: "js_string \<Rightarrow> prompt_definition option" where
  "get_prompt_definition f =
     (if f = js ''planning'' then Some planning_definition
      else if f \<in> set prompt_feature_types then Some (invocable_definition f) else None)"

section \<open>The repository\<close>

record create_prompt_data =
  cp_featureType :: js_string
  cp_version :: js_string
  cp_systemTemplate :: js_string
  cp_template :: js_string
  cp_userInvocable :: bool

text \<open>The table, and on one instance the cache of lookups with the time each expires.\<close>

record prompts_state =
  pq_rows :: "prompt list"
  pq_cache :: "js_string \<rightharpoonup> prompt option \<times> time"
  pq_generation :: nat
  pq_emitted :: "event list"

definition active_prompt_cache_ttl_ms :: int where
  "active_prompt_cache_ttl_ms = 60000"

definition version_conflict_message :: js_string where
  "version_conflict_message = js ''A prompt with this feature type and version already exists''"

definition activation_conflict_message :: js_string where
  "activation_conflict_message = js ''Another prompt was activated concurrently; retry''"

definition read_active :: "js_string \<Rightarrow> prompt list \<Rightarrow> prompt option" where
  "read_active f rows = find (\<lambda>r. pm_featureType r = f \<and> pm_isActive r) rows"

definition cached_prompt :: "js_string \<Rightarrow> time \<Rightarrow> prompts_state \<Rightarrow> prompt option option" where
  "cached_prompt f now s =
     (case pq_cache s f of
        None \<Rightarrow> None
      | Some (p, expires_at) \<Rightarrow> if now < expires_at then Some p else None)"

definition fill_cache :: "js_string \<Rightarrow> nat \<Rightarrow> prompt option \<Rightarrow> time \<Rightarrow> prompts_state \<Rightarrow> prompts_state" where
  "fill_cache f generation p now s =
     (if generation = pq_generation s
      then s\<lparr>pq_cache := (pq_cache s)(f \<mapsto> (p, now + active_prompt_cache_ttl_ms))\<rparr> else s)"

text \<open>\<open>before\<close> and \<open>after\<close> are what happens on the instance before and after the read is served.\<close>

definition find_active_by_feature_type ::
    "(prompts_state \<Rightarrow> prompts_state) \<Rightarrow> (prompts_state \<Rightarrow> prompts_state) \<Rightarrow> js_string \<Rightarrow> time \<Rightarrow> time \<Rightarrow>
     prompts_state \<Rightarrow> prompt option \<times> prompts_state" where
  "find_active_by_feature_type before after f now later s =
     (case cached_prompt f now s of
        Some p \<Rightarrow> (p, s)
      | None \<Rightarrow>
          (let generation = pq_generation s; s1 = before s; p = read_active f (pq_rows s1)
           in (p, fill_cache f generation p later (after s1))))"

definition find_prompt :: "ident \<Rightarrow> prompt list \<Rightarrow> prompt option" where
  "find_prompt i rows = find (\<lambda>r. pm_id r = i) rows"

text \<open>\<open>collate\<close> is the database's order on feature types.\<close>

definition list_prompts :: "(js_string \<Rightarrow> int) \<Rightarrow> js_string option \<Rightarrow> prompt list \<Rightarrow> prompt list" where
  "list_prompts collate f rows =
     sort_key (\<lambda>r. collate (pm_featureType r)) (sort_key (\<lambda>r. - pm_createdAt r)
       (case f of None \<Rightarrow> rows | Some t \<Rightarrow> if t = [] then rows else filter (\<lambda>r. pm_featureType r = t) rows))"

definition create_prompt_row ::
    "ident \<Rightarrow> create_prompt_data \<Rightarrow> time \<Rightarrow> prompt list \<Rightarrow> (http_error + prompt) \<times> prompt list" where
  "create_prompt_row new_id d now rows =
     (if list_ex (\<lambda>r. pm_featureType r = cp_featureType d \<and> pm_version r = cp_version d) rows
      then (Inl (Conflict version_conflict_message), rows)
      else
        (let r = \<lparr>pm_id = new_id, pm_featureType = cp_featureType d, pm_version = cp_version d,
               pm_systemTemplate = cp_systemTemplate d, pm_template = cp_template d,
               pm_userInvocable = cp_userInvocable d, pm_isActive = False, pm_createdAt = now, pm_updatedAt = now\<rparr>
         in (Inr r, rows @ [r])))"

definition set_active :: "bool \<Rightarrow> time \<Rightarrow> prompt \<Rightarrow> prompt" where
  "set_active b now r = r\<lparr>pm_isActive := b, pm_updatedAt := now\<rparr>"

text \<open>
  The transaction of \<open>activate\<close>. \<open>conflict\<close>: a concurrent one committed first, and the unique index
  on active prompts refuses this one.
\<close>

definition activate_rows ::
    "bool \<Rightarrow> ident \<Rightarrow> time \<Rightarrow> prompt list \<Rightarrow> (http_error + prompt option) \<times> prompt list" where
  "activate_rows conflict i now rows =
     (case find_prompt i rows of
        None \<Rightarrow> (Inr None, rows)
      | Some target \<Rightarrow>
          (if conflict then (Inl (Conflict activation_conflict_message), rows)
           else
             (let rows1 = sql_update (\<lambda>r. pm_featureType r = pm_featureType target \<and> pm_isActive r) (set_active False now) rows;
                  rows2 = sql_update (\<lambda>r. pm_id r = i) (set_active True now) rows1
              in (Inr (find_prompt i rows2), rows2))))"

definition clear_active_cache :: "prompts_state \<Rightarrow> prompts_state" where
  "clear_active_cache s = s\<lparr>pq_generation := pq_generation s + 1, pq_cache := Map.empty\<rparr>"

definition activate ::
    "bool \<Rightarrow> (prompts_state \<Rightarrow> prompts_state) \<Rightarrow> ident \<Rightarrow> time \<Rightarrow> prompts_state \<Rightarrow>
     (http_error + prompt option) \<times> prompts_state" where
  "activate conflict meanwhile i now s =
     (case activate_rows conflict i now (pq_rows s) of
        (Inr (Some p), rows) \<Rightarrow> (Inr (Some p), clear_active_cache (meanwhile (s\<lparr>pq_rows := rows\<rparr>)))
      | (r, rows) \<Rightarrow> (r, s\<lparr>pq_rows := rows\<rparr>))"

section \<open>Use-cases\<close>

record create_prompt_input =
  ci_actorId :: ident
  ci_featureType :: js_string
  ci_version :: js_string
  ci_systemTemplate :: js_string
  ci_userTemplate :: js_string

text \<open>\<open>template.replace(PLACEHOLDER_PATTERN, '')\<close>.\<close>

fun remove_placeholders :: "js_string \<Rightarrow> js_string" where
  "remove_placeholders [] = []"
| "remove_placeholders (c # s) =
     (case placeholder_at (c # s) of
        None \<Rightarrow> c # remove_placeholders s
      | Some (_, r) \<Rightarrow> remove_placeholders r)"

definition quoted :: "js_string \<Rightarrow> js_string" where
  "quoted s = [34] @ s @ [34]"

definition check_template ::
    "js_string \<Rightarrow> js_string \<Rightarrow> js_string \<Rightarrow> js_string list \<Rightarrow> http_error option" where
  "check_template feature field tpl allowed =
     (let unknown = filter (\<lambda>n. n \<notin> set allowed) (list_placeholders tpl); rest = remove_placeholders tpl in
      if 0 < length unknown
      then Some (BadRequest (field @ js '' uses placeholders not allowed for '' @ quoted feature @ js '': '' @
             join (js '', '') unknown @ js ''. Allowed: '' @ join (js '', '') allowed))
      else if str_includes rest (js ''{{'') \<or> str_includes rest (js ''}}'')
      then Some (BadRequest (field @ js '' contains a malformed placeholder ('' @ quoted (js ''{{'') @ js '' or '' @
             quoted (js ''}}'') @ js '' outside a valid {{name}})''))
      else None)"

definition check_templates :: "create_prompt_input \<Rightarrow> http_error + prompt_definition" where
  "check_templates inp =
     (case get_prompt_definition (ci_featureType inp) of
        None \<Rightarrow> Inl (BadRequest (js ''Unknown feature type '' @ quoted (ci_featureType inp) @ js ''. Known types: '' @
                  join (js '', '') prompt_feature_types))
      | Some def \<Rightarrow>
          (case check_template (ci_featureType inp) (js ''system_template'') (ci_systemTemplate inp) system_template_placeholders of
             Some e \<Rightarrow> Inl e
           | None \<Rightarrow>
               (case check_template (ci_featureType inp) (js ''user_template'') (ci_userTemplate inp) (pf_allowedPlaceholders def) of
                  Some e \<Rightarrow> Inl e
                | None \<Rightarrow>
                    (if pf_requiredUserPlaceholder def \<notin> set (list_placeholders (ci_userTemplate inp))
                     then Inl (BadRequest (js ''user_template must contain {{'' @ pf_requiredUserPlaceholder def @ js ''}}''))
                     else Inr def))))"

definition create_prompt ::
    "ident \<Rightarrow> create_prompt_input \<Rightarrow> time \<Rightarrow> prompts_state \<Rightarrow> (http_error + prompt) \<times> prompts_state" where
  "create_prompt new_id inp now s =
     (case check_templates inp of
        Inl e \<Rightarrow> (Inl e, s)
      | Inr def \<Rightarrow>
          (case create_prompt_row new_id \<lparr>cp_featureType = ci_featureType inp, cp_version = ci_version inp,
                  cp_systemTemplate = ci_systemTemplate inp, cp_template = ci_userTemplate inp,
                  cp_userInvocable = pf_userInvocable def\<rparr> now (pq_rows s) of
             (Inl e, rows) \<Rightarrow> (Inl e, s\<lparr>pq_rows := rows\<rparr>)
           | (Inr p, rows) \<Rightarrow> (Inr p, s\<lparr>pq_rows := rows, pq_emitted := pq_emitted s @
               [PromptCreated (ci_actorId inp) (pm_id p) (pm_featureType p) (pm_version p)]\<rparr>)))"

definition activate_prompt ::
    "bool \<Rightarrow> (prompts_state \<Rightarrow> prompts_state) \<Rightarrow> ident \<Rightarrow> ident \<Rightarrow> time \<Rightarrow> prompts_state \<Rightarrow>
     (http_error + prompt) \<times> prompts_state" where
  "activate_prompt conflict meanwhile actor i now s =
     (case activate conflict meanwhile i now s of
        (Inl e, s1) \<Rightarrow> (Inl e, s1)
      | (Inr None, s1) \<Rightarrow> (Inl (NotFound (js ''Prompt '' @ i @ js '' not found'')), s1)
      | (Inr (Some p), s1) \<Rightarrow> (Inr p, s1\<lparr>pq_emitted := pq_emitted s1 @
          [PromptActivated actor (pm_id p) (pm_featureType p) (pm_version p)]\<rparr>))"

section \<open>What an accepted prompt guarantees\<close>

lemma check_template_None:
  "check_template f field tpl allowed = None \<Longrightarrow> set (list_placeholders tpl) \<subseteq> set allowed"
  by (auto simp: check_template_def Let_def filter_empty_conv split: if_splits)

lemma check_templates_Inr:
  assumes "check_templates inp = Inr def"
  shows "get_prompt_definition (ci_featureType inp) = Some def \<and>
    set (list_placeholders (ci_systemTemplate inp)) \<subseteq> set system_template_placeholders \<and>
    set (list_placeholders (ci_userTemplate inp)) \<subseteq> set (pf_allowedPlaceholders def) \<and>
    pf_requiredUserPlaceholder def \<in> set (list_placeholders (ci_userTemplate inp))"
  using assms by (auto simp: check_templates_def dest: check_template_None split: option.splits if_splits)

lemma create_prompt_InrE:
  assumes "create_prompt new_id inp now s = (Inr p, s')"
  obtains def where "check_templates inp = Inr def"
    "p = \<lparr>pm_id = new_id, pm_featureType = ci_featureType inp, pm_version = ci_version inp,
       pm_systemTemplate = ci_systemTemplate inp, pm_template = ci_userTemplate inp,
       pm_userInvocable = pf_userInvocable def, pm_isActive = False, pm_createdAt = now, pm_updatedAt = now\<rparr>"
    "pq_rows s' = pq_rows s @ [p]" "pq_cache s' = pq_cache s" "pq_generation s' = pq_generation s"
    "\<not> list_ex (\<lambda>r. pm_featureType r = pm_featureType p \<and> pm_version r = pm_version p) (pq_rows s)"
  using assms by (auto simp: create_prompt_def create_prompt_row_def Let_def split: sum.splits if_splits)

lemma nonce_allowed:
  assumes "get_prompt_definition f = Some def"
  shows "set system_template_placeholders \<subseteq> set (pf_allowedPlaceholders def)"
proof -
  have "def = planning_definition \<or> def = invocable_definition f"
    using assms by (simp add: get_prompt_definition_def split: if_splits)
  then show ?thesis
    by (elim disjE) (simp_all add: system_template_placeholders_def planning_definition_def invocable_definition_def)
qed

section \<open>One active prompt, and a cache that tells the truth\<close>

definition prompts_ok :: "prompt list \<Rightarrow> bool" where
  "prompts_ok rows \<longleftrightarrow> distinct (map pm_id rows) \<and>
     (\<forall>r \<in> set rows. \<forall>q \<in> set rows. pm_isActive r \<and> pm_isActive q \<and> pm_featureType r = pm_featureType q \<longrightarrow> r = q)"

lemma read_active_append: "\<not> pm_isActive p \<Longrightarrow> read_active f (rows @ [p]) = read_active f rows"
  by (induction rows) (auto simp: read_active_def)

lemma activate_rows_Some:
  assumes "activate_rows conflict i now rows = (Inr (Some p), rows')"
  obtains target where "find_prompt i rows = Some target"
    "rows' = sql_update (\<lambda>r. pm_id r = i) (set_active True now)
       (sql_update (\<lambda>r. pm_featureType r = pm_featureType target \<and> pm_isActive r) (set_active False now) rows)"
    "find_prompt i rows' = Some p"
  using assms by (auto simp: activate_rows_def Let_def split: option.splits if_splits)

lemma set_active_sel [simp]:
  "pm_id (set_active b now r) = pm_id r" "pm_featureType (set_active b now r) = pm_featureType r"
  "pm_isActive (set_active b now r) = b"
  by (simp_all add: set_active_def)

text \<open>After an activation its prompt is the active one of its feature type, the other types keep theirs.\<close>

lemma activate_rows_active:
  assumes ok: "prompts_ok rows" and run: "activate_rows conflict i now rows = (Inr (Some p), rows')"
  shows "pm_id p = i \<and> p \<in> set rows' \<and> pm_isActive p \<and> distinct (map pm_id rows') \<and>
    (\<forall>r \<in> set rows'. pm_isActive r \<and> pm_featureType r = pm_featureType p \<longrightarrow> r = p) \<and>
    (\<forall>r \<in> set rows'. pm_featureType r \<noteq> pm_featureType p \<longrightarrow> r \<in> set rows)"
proof -
  obtain target where target: "find_prompt i rows = Some target"
    and rows': "rows' = sql_update (\<lambda>r. pm_id r = i) (set_active True now)
       (sql_update (\<lambda>r. pm_featureType r = pm_featureType target \<and> pm_isActive r) (set_active False now) rows)"
    and p: "find_prompt i rows' = Some p" using run by (rule activate_rows_Some)
  have t: "target \<in> set rows" "pm_id target = i"
    using target by (auto simp: find_prompt_def dest: find_SomeD)
  have pin: "p \<in> set rows'" "pm_id p = i" using p by (auto simp: find_prompt_def dest: find_SomeD)
  have ids: "map pm_id rows' = map pm_id rows" unfolding rows' by (simp add: frame_simps)
  then have dist: "distinct (map pm_id rows')" using ok by (simp add: prompts_ok_def)
  have only: "r = target" if "r \<in> set rows" "pm_id r = i" for r
    using ok t that by (auto simp: prompts_ok_def distinct_map dest: inj_onD)
  have origin: "\<exists>r0 \<in> set rows. pm_id r = pm_id r0 \<and> pm_featureType r = pm_featureType r0 \<and>
      (pm_id r0 = i \<longrightarrow> pm_isActive r) \<and> (pm_id r0 \<noteq> i \<and> pm_featureType r0 = pm_featureType target \<longrightarrow> \<not> pm_isActive r) \<and>
      (pm_featureType r0 \<noteq> pm_featureType target \<longrightarrow> r = r0)" if mem: "r \<in> set rows'" for r
  proof -
    obtain r0 r1 where r0: "r0 \<in> set rows" and r: "r = (if pm_id r1 = i then set_active True now r1 else r1)"
      and r1: "r1 = (if pm_featureType r0 = pm_featureType target \<and> pm_isActive r0 then set_active False now r0 else r0)"
      using mem unfolding rows' set_sql_update by blast
    have "pm_id r1 = pm_id r0" "pm_featureType r1 = pm_featureType r0" by (simp_all add: r1)
    moreover have "r0 = target" if "pm_id r0 = i" using only [OF r0 that] .
    ultimately show ?thesis using r0 by (intro bexI [of _ r0]) (auto simp: r r1)
  qed
  have feat: "pm_featureType p = pm_featureType target" "pm_isActive p"
  proof -
    from origin [OF pin(1)] obtain r0 where "r0 \<in> set rows" "pm_id p = pm_id r0"
      "pm_featureType p = pm_featureType r0" "pm_id r0 = i \<longrightarrow> pm_isActive p" by blast
    with pin(2) only [of r0] show "pm_featureType p = pm_featureType target" "pm_isActive p" by simp_all
  qed
  have "r = p" if "r \<in> set rows'" "pm_isActive r" "pm_featureType r = pm_featureType p" for r
  proof -
    have "pm_id r = i" using origin [OF that(1)] that(2,3) feat(1) by auto
    then show ?thesis using dist that(1) pin by (auto simp: distinct_map dest: inj_onD)
  qed
  moreover have "r \<in> set rows" if "r \<in> set rows'" "pm_featureType r \<noteq> pm_featureType p" for r
    using origin [OF that(1)] that(2) feat(1) by auto
  ultimately show ?thesis using pin feat dist by blast
qed

lemma activate_rows_ok:
  assumes "prompts_ok rows" and "activate_rows conflict i now rows = (Inr (Some p), rows')"
  shows "prompts_ok rows'"
  using activate_rows_active [OF assms] assms(1) unfolding prompts_ok_def by metis

text \<open>
  One instance: the lookups that await the database, each with the generation it started in and, once
  served, the row it read; and the activations that have committed and not yet cleared the cache.
\<close>

datatype lookup = Waiting js_string nat | Served js_string nat "prompt option"

record prompt_instance =
  py_state :: prompts_state
  py_lookups :: "lookup set"
  py_clears :: nat

inductive prompt_step :: "prompt_instance \<Rightarrow> prompt_instance \<Rightarrow> bool" where
  lookup_starts: "cached_prompt f now (py_state y) = None \<Longrightarrow>
    prompt_step y (y\<lparr>py_lookups := insert (Waiting f (pq_generation (py_state y))) (py_lookups y)\<rparr>)"
| lookup_served: "Waiting f g \<in> py_lookups y \<Longrightarrow>
    prompt_step y (y\<lparr>py_lookups := insert (Served f g (read_active f (pq_rows (py_state y)))) (py_lookups y)\<rparr>)"
| lookup_ends: "Served f g p \<in> py_lookups y \<Longrightarrow>
    prompt_step y (y\<lparr>py_state := fill_cache f g p now (py_state y)\<rparr>)"
| lookup_forgotten: "prompt_step y (y\<lparr>py_lookups := py_lookups y - {l}\<rparr>)"
| creation: "create_prompt new_id inp now (py_state y) = (r, s) \<Longrightarrow>
    (\<forall>q \<in> set (pq_rows (py_state y)). pm_id q \<noteq> new_id) \<Longrightarrow> prompt_step y (y\<lparr>py_state := s\<rparr>)"
| activation_commits: "activate_rows conflict i now (pq_rows (py_state y)) = (Inr (Some p), rows) \<Longrightarrow>
    prompt_step y (y\<lparr>py_state := (py_state y)\<lparr>pq_rows := rows\<rparr>, py_clears := py_clears y + 1\<rparr>)"
| activation_clears: "py_clears y = Suc n \<Longrightarrow>
    prompt_step y (y\<lparr>py_state := clear_active_cache (py_state y), py_clears := n\<rparr>)"

inductive prompt_reachable :: "prompt list \<Rightarrow> prompt_instance \<Rightarrow> bool" for rows where
  start: "prompt_reachable rows
    \<lparr>py_state = \<lparr>pq_rows = rows, pq_cache = Map.empty, pq_generation = 0, pq_emitted = []\<rparr>,
     py_lookups = {}, py_clears = 0\<rparr>"
| more: "prompt_reachable rows y \<Longrightarrow> prompt_step y y' \<Longrightarrow> prompt_reachable rows y'"

definition lookup_ok :: "prompt_instance \<Rightarrow> lookup \<Rightarrow> bool" where
  "lookup_ok y l =
     (case l of
        Waiting f g \<Rightarrow> g \<le> pq_generation (py_state y)
      | Served f g p \<Rightarrow> g \<le> pq_generation (py_state y) \<and>
          (py_clears y = 0 \<and> g = pq_generation (py_state y) \<longrightarrow> p = read_active f (pq_rows (py_state y))))"

definition cache_ok :: "prompt_instance \<Rightarrow> bool" where
  "cache_ok y \<longleftrightarrow> py_clears y = 0 \<longrightarrow>
     (\<forall>f p e. pq_cache (py_state y) f = Some (p, e) \<longrightarrow> p = read_active f (pq_rows (py_state y)))"

definition instance_ok :: "prompt_instance \<Rightarrow> bool" where
  "instance_ok y \<longleftrightarrow> prompts_ok (pq_rows (py_state y)) \<and> cache_ok y \<and> (\<forall>l \<in> py_lookups y. lookup_ok y l)"

lemma create_prompt_keeps:
  assumes "create_prompt new_id inp now s = (r, s')" and "\<forall>q \<in> set (pq_rows s). pm_id q \<noteq> new_id"
  shows "(prompts_ok (pq_rows s) \<longrightarrow> prompts_ok (pq_rows s')) \<and> pq_cache s' = pq_cache s \<and>
    pq_generation s' = pq_generation s \<and> (\<forall>f. read_active f (pq_rows s') = read_active f (pq_rows s))"
proof (cases r)
  case (Inl e)
  then have "pq_rows s' = pq_rows s" "pq_cache s' = pq_cache s" "pq_generation s' = pq_generation s"
    using assms(1) by (auto simp: create_prompt_def create_prompt_row_def Let_def split: sum.splits if_splits)
  then show ?thesis by simp
next
  case (Inr p)
  with assms(1) obtain def where p: "pm_id p = new_id" "\<not> pm_isActive p"
    and rows: "pq_rows s' = pq_rows s @ [p]" "pq_cache s' = pq_cache s" "pq_generation s' = pq_generation s"
    by (auto elim: create_prompt_InrE)
  moreover have "prompts_ok (pq_rows s @ [p])" if "prompts_ok (pq_rows s)"
    using that p assms(2) by (auto simp: prompts_ok_def)
  ultimately show ?thesis by (simp add: read_active_append)
qed

lemma prompt_step_ok: "prompt_step y y' \<Longrightarrow> instance_ok y \<Longrightarrow> instance_ok y'"
proof (induction rule: prompt_step.induct)
  case (lookup_starts f now y)
  then show ?case by (auto simp: instance_ok_def cache_ok_def lookup_ok_def split: lookup.splits)
next
  case (lookup_served f g y)
  then show ?case by (auto simp: instance_ok_def cache_ok_def lookup_ok_def split: lookup.splits)
next
  case (lookup_ends f g p y now)
  then have "lookup_ok y (Served f g p)" by (simp add: instance_ok_def)
  with lookup_ends show ?case
    by (auto simp: instance_ok_def cache_ok_def lookup_ok_def fill_cache_def split: lookup.splits)
next
  case (lookup_forgotten y l)
  then show ?case by (auto simp: instance_ok_def cache_ok_def lookup_ok_def split: lookup.splits)
next
  case (creation new_id inp now y r s)
  with create_prompt_keeps [OF creation(1,2)] show ?case
    by (auto simp: instance_ok_def cache_ok_def lookup_ok_def split: lookup.splits)
next
  case (activation_commits conflict i now y p rows)
  then have "prompts_ok rows" by (auto simp: instance_ok_def intro: activate_rows_ok)
  with activation_commits show ?case
    by (auto simp: instance_ok_def cache_ok_def lookup_ok_def split: lookup.splits)
next
  case (activation_clears y n)
  then show ?case
    by (auto simp: instance_ok_def cache_ok_def lookup_ok_def clear_active_cache_def split: lookup.splits)
qed

lemma reachable_ok: "prompt_reachable rows y \<Longrightarrow> prompts_ok rows \<Longrightarrow> instance_ok y"
  by (induction rule: prompt_reachable.induct)
    (auto simp: instance_ok_def cache_ok_def dest: prompt_step_ok [unfolded instance_ok_def cache_ok_def])

section \<open>Properties\<close>

text \<open>C22: However lookups, creations and activations of one instance interleave, a feature type has at
  most one active prompt, and once the committed activations have cleared the cache a lookup it
  answers gives exactly the active prompt of the table: a lookup that began before an activation
  cannot put the old prompt back.\<close>

theorem cached_prompt_is_active:
  assumes "prompt_reachable rows y" and "prompts_ok rows"
  shows "prompts_ok (pq_rows (py_state y)) \<and>
    (py_clears y = 0 \<longrightarrow> cached_prompt f now (py_state y) = Some p \<longrightarrow> p = read_active f (pq_rows (py_state y)))"
  using reachable_ok [OF assms]
  by (auto simp: instance_ok_def cache_ok_def cached_prompt_def split: option.splits if_splits)

definition sample_prompt :: prompt where
  "sample_prompt = \<lparr>pm_id = js ''p'', pm_featureType = js ''rewrite'', pm_version = js ''v1'', pm_systemTemplate = [],
     pm_template = js ''{{content}}'', pm_userInvocable = True, pm_isActive = True, pm_createdAt = 0, pm_updatedAt = 0\<rparr>"

theorem cached_prompt_is_active_witness:
  "\<exists>y. prompt_reachable [sample_prompt] y \<and> py_clears y = 0 \<and>
     cached_prompt (js ''rewrite'') 5 (py_state y) = Some (Some sample_prompt) \<and>
     read_active (js ''rewrite'') (pq_rows (py_state y)) = Some sample_prompt"
proof -
  let ?f = "js ''rewrite''"
  let ?y0 = "\<lparr>py_state = \<lparr>pq_rows = [sample_prompt], pq_cache = Map.empty, pq_generation = 0, pq_emitted = []\<rparr>,
     py_lookups = {}, py_clears = 0\<rparr>"
  let ?y1 = "?y0\<lparr>py_lookups := {Waiting ?f 0}\<rparr>"
  let ?y2 = "?y0\<lparr>py_lookups := {Served ?f 0 (Some sample_prompt), Waiting ?f 0}\<rparr>"
  let ?y3 = "?y2\<lparr>py_state := fill_cache ?f 0 (Some sample_prompt) 0 (py_state ?y2)\<rparr>"
  have active: "read_active ?f [sample_prompt] = Some sample_prompt" by (simp add: read_active_def sample_prompt_def)
  have "prompt_reachable [sample_prompt] ?y0" by (rule start)
  moreover have "prompt_step ?y0 ?y1" using lookup_starts [of ?f 0 ?y0] by (simp add: cached_prompt_def)
  moreover have "prompt_step ?y1 ?y2" using lookup_served [of ?f 0 ?y1] by (simp add: active)
  moreover have "prompt_step ?y2 ?y3" using lookup_ends [of ?f 0 "Some sample_prompt" ?y2] by simp
  ultimately have reach: "prompt_reachable [sample_prompt] ?y3" by (blast intro: more)
  have hit: "cached_prompt ?f 5 (py_state ?y3) = Some (Some sample_prompt)"
    by (simp add: cached_prompt_def fill_cache_def active_prompt_cache_ttl_ms_def)
  have clears: "py_clears ?y3 = 0" by simp
  have "prompts_ok [sample_prompt]" by (simp add: prompts_ok_def)
  from cached_prompt_is_active [OF reach this, of ?f 5 "Some sample_prompt"] hit clears
  have "read_active ?f (pq_rows (py_state ?y3)) = Some sample_prompt" by simp
  with reach hit clears show ?thesis by blast
qed

text \<open>A prompt that the admin use-case accepts is stored inactive under a new version, and always
  renders: with a value for each placeholder its feature type allows, both templates give text (a
  suggestion never answers that the prompt is misconfigured), the system text depends on the nonce
  alone, so no content of a user can reach it, and the user template uses the required placeholder.\<close>

theorem accepted_prompt_renders:
  assumes "create_prompt new_id inp now s = (Inr p, s')"
    and "get_prompt_definition (ci_featureType inp) = Some def" and "set (pf_allowedPlaceholders def) \<subseteq> dom vars"
  shows "(\<exists>sys usr. render_prompt vars (pm_systemTemplate p) = Inr sys \<and> render_prompt vars (pm_template p) = Inr usr) \<and>
    (vars' (js ''nonce'') = vars (js ''nonce'') \<longrightarrow>
       render_prompt vars' (pm_systemTemplate p) = render_prompt vars (pm_systemTemplate p)) \<and>
    pf_requiredUserPlaceholder def \<in> set (list_placeholders (pm_template p)) \<and>
    \<not> pm_isActive p \<and> pm_userInvocable p = pf_userInvocable def \<and> pq_rows s' = pq_rows s @ [p] \<and>
    (\<forall>r \<in> set (pq_rows s). \<not> (pm_featureType r = pm_featureType p \<and> pm_version r = pm_version p))"
proof -
  from assms(1) obtain def' where def': "check_templates inp = Inr def'" and
    p: "p = \<lparr>pm_id = new_id, pm_featureType = ci_featureType inp, pm_version = ci_version inp,
       pm_systemTemplate = ci_systemTemplate inp, pm_template = ci_userTemplate inp,
       pm_userInvocable = pf_userInvocable def', pm_isActive = False, pm_createdAt = now, pm_updatedAt = now\<rparr>" and
    rows: "pq_rows s' = pq_rows s @ [p]"
      "\<not> list_ex (\<lambda>r. pm_featureType r = pm_featureType p \<and> pm_version r = pm_version p) (pq_rows s)"
    by (rule create_prompt_InrE)
  from check_templates_Inr [OF def'] assms(2)
  have ok: "def' = def" "set (list_placeholders (pm_systemTemplate p)) \<subseteq> set system_template_placeholders"
    "set (list_placeholders (pm_template p)) \<subseteq> set (pf_allowedPlaceholders def)"
    "pf_requiredUserPlaceholder def \<in> set (list_placeholders (pm_template p))" by (simp_all add: p)
  have sys: "set (list_placeholders (pm_systemTemplate p)) \<subseteq> dom vars"
    using ok(2) nonce_allowed [OF assms(2)] assms(3) by blast
  have usr: "set (list_placeholders (pm_template p)) \<subseteq> dom vars" using ok(3) assms(3) by blast
  have "render_prompt vars' (pm_systemTemplate p) = render_prompt vars (pm_systemTemplate p)"
    if "vars' (js ''nonce'') = vars (js ''nonce'')"
    using render_prompt_cong [OF sys, of vars'] that ok(2) by (auto simp: system_template_placeholders_def)
  with render_prompt_total [OF sys] render_prompt_total [OF usr] ok rows show ?thesis
    by (auto simp: list_ex_iff p)
qed

definition sample_input :: create_prompt_input where
  "sample_input = \<lparr>ci_actorId = [], ci_featureType = js ''rewrite'', ci_version = js ''v9'', ci_systemTemplate = js ''Hi'',
     ci_userTemplate = js ''{{content}}''\<rparr>"

lemma sample_input_accepted: "check_templates sample_input = Inr (invocable_definition (js ''rewrite''))"
proof -
  have tpl: "js ''{{content}}'' = 123 # 123 # js ''content'' @ [125, 125]" by (simp add: js_def)
  have "takeWhile word_char (js ''content'' @ [125, 125]) = js ''content''"
    "dropWhile word_char (js ''content'' @ [125, 125]) = [125, 125]"
    "dropWhile js_ws (js ''content'' @ [125, 125]) = js ''content'' @ [125, 125]"
    by (simp_all add: js_def word_char_def js_ws_def)
  then have at: "placeholder_at (js ''{{content}}'') = Some (js ''content'', [])"
    unfolding tpl by (simp add: placeholder_at_def Let_def js_ws_def)
  then have "placeholder_names (js ''{{content}}'') = [js ''content'']" "remove_placeholders (js ''{{content}}'') = []"
    unfolding tpl by simp_all
  moreover have "placeholder_names (js ''Hi'') = []" "remove_placeholders (js ''Hi'') = js ''Hi''"
    by (simp_all add: js_def placeholder_at_def Let_def)
  moreover have "\<not> str_includes (js ''Hi'') (js ''{{'')" "\<not> str_includes (js ''Hi'') (js ''}}'')"
    "\<not> str_includes [] (js ''{{'')" "\<not> str_includes [] (js ''}}'')"
    by (simp_all add: str_includes_def positions_of_def starts_with_def js_def)
  ultimately show ?thesis
    by (simp add: check_templates_def sample_input_def get_prompt_definition_def prompt_feature_types_def
        check_template_def list_placeholders_def invocable_definition_def system_template_placeholders_def Let_def)
qed

theorem accepted_prompt_renders_witness:
  "\<exists>p s' out. create_prompt (js ''i'') sample_input 0 \<lparr>pq_rows = [], pq_cache = Map.empty, pq_generation = 0, pq_emitted = []\<rparr> =
      (Inr p, s') \<and>
    render_prompt [js ''content'' \<mapsto> js ''a'', js ''context'' \<mapsto> [], js ''nonce'' \<mapsto> js ''0''] (pm_template p) = Inr out"
proof -
  let ?s = "\<lparr>pq_rows = [], pq_cache = Map.empty, pq_generation = 0, pq_emitted = []\<rparr>"
  let ?vars = "[js ''content'' \<mapsto> js ''a'', js ''context'' \<mapsto> [], js ''nonce'' \<mapsto> js ''0'']"
  obtain p s' where run: "create_prompt (js ''i'') sample_input 0 ?s = (Inr p, s')"
    by (simp add: create_prompt_def sample_input_accepted create_prompt_row_def Let_def)
  have def: "get_prompt_definition (ci_featureType sample_input) = Some (invocable_definition (js ''rewrite''))"
    using check_templates_Inr [OF sample_input_accepted] by blast
  have dom: "set (pf_allowedPlaceholders (invocable_definition (js ''rewrite''))) \<subseteq> dom ?vars"
    by (simp add: invocable_definition_def)
  from run accepted_prompt_renders [OF run def dom] show ?thesis by blast
qed

end
