(* ===== verification/Suggestions.thy ===== *)
theory Suggestions
  imports LlmGateway Prompts Documents
begin

text \<open>
  AI suggestions on a section: \<open>application/ai/generate-suggestion.use-case.ts\<close>,
  \<open>review-suggestion\<close>, \<open>list-suggestions\<close>, \<open>suggestion-cache-key.ts\<close>,
  \<open>infrastructure/ai/redis-ai-response-cache.ts\<close> and the TypeORM repository. The generator is a
  function on the world \<open>'w\<close> (\<open>gateway_generate\<close>, or \<open>null_generate\<close> without a key); SHA-256,
  \<open>JSON.stringify\<close> and \<open>JSON.parse\<close> are parameters.
\<close>

section \<open>Data and repository\<close>

datatype suggestion_status = SuggestionPending | SuggestionAccepted | SuggestionRejected

record suggestion =
  sg_id :: ident
  sg_sectionId :: ident
  sg_userId :: ident
  sg_featureType :: js_string
  sg_originalText :: js_string
  sg_suggestedText :: js_string
  sg_status :: suggestion_status
  sg_promptVersion :: js_string
  sg_model :: "js_string option"
  sg_createdAt :: time
  sg_updatedAt :: time

text \<open>A Redis value with its expiry.\<close>

type_synonym response_cache = "js_string \<rightharpoonup> js_string \<times> time"

record suggestions_state =
  su_docs :: docs_state
  su_rows :: "suggestion list"
  su_cache :: response_cache
  su_emitted :: "event list"

definition find_suggestion :: "ident \<Rightarrow> suggestion list \<Rightarrow> suggestion option" where
  "find_suggestion i t = find (\<lambda>r. sg_id r = i) t"

definition find_by_section_id :: "ident \<Rightarrow> suggestion list \<Rightarrow> suggestion list" where
  "find_by_section_id i t = sort_key (\<lambda>r. - sg_createdAt r) (filter (\<lambda>r. sg_sectionId r = i) t)"

text \<open>The insert references the section.\<close>

definition create_suggestion_row ::
    "suggestion \<Rightarrow> suggestions_state \<Rightarrow> (http_error + suggestion) \<times> suggestions_state" where
  "create_suggestion_row r s =
     (if find_section (sg_sectionId r) (ds_sections (su_docs s)) = None then (Inl fk_violation, s)
      else (Inr r, s\<lparr>su_rows := su_rows s @ [r]\<rparr>))"

text \<open>\<open>UPDATE ... WHERE id = $1 AND status = 'pending'\<close>; the id is the primary key.\<close>

definition mark_reviewed ::
    "ident \<Rightarrow> suggestion_status \<Rightarrow> time \<Rightarrow> suggestion list \<Rightarrow> suggestion option \<times> suggestion list" where
  "mark_reviewed i status now t =
     (let upd = (\<lambda>r. r\<lparr>sg_status := status, sg_updatedAt := now\<rparr>) in
      case find_suggestion i t of
        None \<Rightarrow> (None, t)
      | Some r \<Rightarrow>
          (if sg_status r = SuggestionPending then (Some (upd r), sql_update (\<lambda>r. sg_id r = i) upd t)
           else (None, t)))"

section \<open>The response cache\<close>

record cache_deps =
  ca_ttlSeconds :: int
  ca_stringify :: "json \<Rightarrow> js_string"
  ca_parse :: "js_string \<Rightarrow> json option"

definition parse_entry :: "cache_deps \<Rightarrow> js_string \<Rightarrow> generated_text option" where
  "parse_entry c raw =
     (case ca_parse c raw of
        None \<Rightarrow> None
      | Some v \<Rightarrow>
          (case (obj_get (js ''suggestedText'') v, obj_get (js ''model'') v) of
             (Some (JStr t), Some JNull) \<Rightarrow> Some \<lparr>gt_suggestedText = t, gt_model = None\<rparr>
           | (Some (JStr t), Some (JStr m)) \<Rightarrow> Some \<lparr>gt_suggestedText = t, gt_model = Some m\<rparr>
           | _ \<Rightarrow> None))"

definition cache_key_prefix :: js_string where
  "cache_key_prefix = js ''ai-cache:suggestion:''"

text \<open>\<open>reachable\<close>: Redis answers.\<close>

definition cache_get ::
    "cache_deps \<Rightarrow> bool \<Rightarrow> time \<Rightarrow> js_string \<Rightarrow> response_cache \<Rightarrow> generated_text option" where
  "cache_get c reachable now k st =
     (if ca_ttlSeconds c \<le> 0 \<or> \<not> reachable then None
      else (case st (cache_key_prefix @ k) of
          None \<Rightarrow> None
        | Some (raw, expires_at) \<Rightarrow> if expires_at \<le> now then None else parse_entry c raw))"

definition entry_json :: "generated_text \<Rightarrow> json" where
  "entry_json g = JObj [(js ''suggestedText'', JStr (gt_suggestedText g)),
     (js ''model'', case gt_model g of None \<Rightarrow> JNull | Some m \<Rightarrow> JStr m)]"

definition cache_set ::
    "cache_deps \<Rightarrow> bool \<Rightarrow> time \<Rightarrow> js_string \<Rightarrow> generated_text \<Rightarrow> response_cache \<Rightarrow> response_cache" where
  "cache_set c reachable now k g st =
     (if ca_ttlSeconds c \<le> 0 \<or> \<not> reachable then st
      else st(cache_key_prefix @ k \<mapsto> (ca_stringify c (entry_json g), now + ca_ttlSeconds c * 1000)))"

record cache_key_input =
  ck_userId :: ident
  ck_featureType :: js_string
  ck_promptVersion :: js_string
  ck_modelScope :: js_string
  ck_content :: js_string
  ck_context :: js_string

definition suggestion_cache_key :: "(js_string \<Rightarrow> js_string) \<Rightarrow> (json \<Rightarrow> js_string) \<Rightarrow> cache_key_input \<Rightarrow> js_string" where
  "suggestion_cache_key sha stringify k = sha (stringify (JArr [JNum (NInt 1), JStr (ck_userId k),
     JStr (ck_featureType k), JStr (ck_promptVersion k), JStr (ck_modelScope k), JStr (ck_content k),
     JStr (ck_context k)]))"

section \<open>Generation\<close>

definition assert_section_owned :: "ident \<Rightarrow> ident \<Rightarrow> docs_state \<Rightarrow> http_error + doc_section" where
  "assert_section_owned user i s =
     (case find_section i (ds_sections s) of
        None \<Rightarrow> Inl (section_not_found i)
      | Some n \<Rightarrow>
          (case find_document (sn_documentId n) (ds_documents s) of
             None \<Rightarrow> Inl (section_not_found i)
           | Some d \<Rightarrow> if dm_userId d \<noteq> user then Inl (section_not_found i) else Inr n))"

definition one_line :: "js_string \<Rightarrow> js_string" where
  "one_line title = take 200 (trim (collapse_ws title))"

definition light_context :: "prompt \<Rightarrow> doc_section \<Rightarrow> docs_state \<Rightarrow> js_string list" where
  "light_context p n s =
     (if js ''context'' \<notin> set (list_placeholders (pm_systemTemplate p)) \<union> set (list_placeholders (pm_template p)) then []
      else
        (let siblings = find_titles_by_document (sn_documentId n) (ds_sections s);
             index = length (takeWhile (\<lambda>(i, _). i \<noteq> sn_id n) siblings)
         in (case find_document (sn_documentId n) (ds_documents s) of
               None \<Rightarrow> [] | Some d \<Rightarrow> [js ''Document: '' @ one_line (dm_title d)]) @
            (if 0 < index \<and> index < length siblings
             then [js ''Previous section: '' @ one_line (snd (siblings ! (index - 1)))] else []) @
            (if index + 1 < length siblings
             then [js ''Next section: '' @ one_line (snd (siblings ! (index + 1)))] else [])))"

definition max_suggested_text_chars :: nat where
  "max_suggested_text_chars = 100000"

definition valid_output :: "(js_string \<Rightarrow> js_string) \<Rightarrow> js_string \<Rightarrow> leak_context \<Rightarrow> bool" where
  "valid_output lower out leak \<longleftrightarrow>
     trim out \<noteq> [] \<and> length out \<le> max_suggested_text_chars \<and> \<not> leaks_prompt lower out leak"

definition generation_failed_message :: js_string where
  "generation_failed_message = js ''AI suggestion generation failed''"

fun map_generation_error :: "app_error \<Rightarrow> http_error" where
  "map_generation_error (AiQuotaExceeded retry) = TooManyRequests ai_quota_exceeded_message retry"
| "map_generation_error AiQuotaUnavailable = ServiceUnavailable ai_quota_unavailable_message"
| "map_generation_error (GeneratorUnavailable m) =
     ServiceUnavailable (if m = not_configured_message then js ''AI not configured'' else m)"
| "map_generation_error (GenerationRefused m) = Unprocessable m"
| "map_generation_error (GenerationTruncated m) = BadGateway m"
| "map_generation_error (GeneratorRateLimited m hint) = ServiceUnavailable
     (case hint of None \<Rightarrow> m
      | Some t \<Rightarrow> if t = js ''0'' then m else m @ js '' (retry after '' @ t @ js ''s)'')"
| "map_generation_error (GenerationProvider m) = BadGateway m"
| "map_generation_error _ = BadGateway generation_failed_message"

text \<open>
  \<open>sx_prompt\<close> is the answer of \<open>findActiveByFeatureType\<close>; \<open>sx_cache_up\<close> whether Redis answers the
  read and the write.
\<close>

record 'w suggest_deps = guard_deps +
  sx_prompt :: "js_string \<Rightarrow> prompt option"
  sx_available :: bool
  sx_scope :: js_string
  sx_generate :: "generate_input \<Rightarrow> 'w \<Rightarrow> (app_error + generated_text) \<times> 'w"
  sx_maxInputChars :: nat
  sx_sha :: "js_string \<Rightarrow> js_string"
  sx_cache :: cache_deps
  sx_cache_up :: "bool \<times> bool"

definition suggestion_vars :: "guard_deps \<Rightarrow> js_string \<Rightarrow> js_string list \<Rightarrow> js_string \<Rightarrow> js_string option" where
  "suggestion_vars g content light =
     [js ''content'' \<mapsto> prepare_untrusted_text (gd_redact g) content,
      js ''context'' \<mapsto> prepare_untrusted_text (gd_redact g) (join [10] light), js ''nonce'' \<mapsto> gd_nonce g]"

definition render_suggestion_prompt ::
    "guard_deps \<Rightarrow> prompt \<Rightarrow> js_string \<Rightarrow> js_string list \<Rightarrow> rendered_prompt option" where
  "render_suggestion_prompt g p content light =
     (let vars = suggestion_vars g content light in
      case (render_prompt vars (pm_systemTemplate p), render_prompt vars (pm_template p)) of
        (Inr sys, Inr usr) \<Rightarrow> Some \<lparr>rp_system = sys, rp_user = usr\<rparr>
      | _ \<Rightarrow> None)"

text \<open>The checks before the model: the section, its prompt, the light context and the rendered prompt.\<close>

definition prepare_suggestion ::
    "'w suggest_deps \<Rightarrow> ident \<Rightarrow> ident \<Rightarrow> js_string \<Rightarrow> docs_state \<Rightarrow>
     http_error + (doc_section \<times> prompt \<times> js_string list \<times> rendered_prompt)" where
  "prepare_suggestion d user i feature s =
     (case assert_section_owned user i s of
        Inl e \<Rightarrow> Inl e
      | Inr n \<Rightarrow>
          (case sx_prompt d feature of
             None \<Rightarrow> Inl (NotFound (js ''No active prompt configured for feature type '' @ quoted feature))
           | Some p \<Rightarrow>
               (if \<not> pm_userInvocable p
                then Inl (NotFound (js ''No active prompt configured for feature type '' @ quoted feature))
                else if \<not> sx_available d then Inl (ServiceUnavailable (js ''AI not configured''))
                else if sx_maxInputChars d < length (sn_content n)
                then Inl (Unprocessable (js ''Section text is too long for AI processing (maximum '' @
                       nat_str (sx_maxInputChars d) @ js '' characters)''))
                else
                  (let light = light_context p n s in
                   case render_suggestion_prompt (guard_deps.truncate d) p (sn_content n) light of
                     None \<Rightarrow> Inl (ServiceUnavailable (js ''AI prompt is misconfigured''))
                   | Some r \<Rightarrow> Inr (n, p, light, r)))))"

text \<open>The model's answer with its check, or the error the client gets.\<close>

definition ask_model ::
    "'w suggest_deps \<Rightarrow> ident \<Rightarrow> js_string \<Rightarrow> rendered_prompt \<Rightarrow> leak_context \<Rightarrow> 'w \<Rightarrow>
     (http_error + generated_text) \<times> 'w" where
  "ask_model d user feature r leak w =
     (case sx_generate d \<lparr>gi_system = rp_system r, gi_user = rp_user r, gi_featureType = feature, gi_userId = user\<rparr> w of
        (Inl e, w') \<Rightarrow> (Inl (map_generation_error e), w')
      | (Inr g, w') \<Rightarrow>
          (if valid_output (gd_lower d) (gt_suggestedText g) leak then (Inr g, w')
           else (Inl (map_generation_error (GenerationProvider invalid_response_message)), w')))"

definition suggestion_leak :: "guard_deps \<Rightarrow> doc_section \<Rightarrow> js_string list \<Rightarrow> rendered_prompt \<Rightarrow> leak_context" where
  "suggestion_leak g n light r = \<lparr>lk_nonce = gd_nonce g, lk_system = rp_system r,
     lk_source = join [10] (sn_content n # light)\<rparr>"

definition suggestion_key ::
    "'w suggest_deps \<Rightarrow> ident \<Rightarrow> js_string \<Rightarrow> prompt \<Rightarrow> doc_section \<Rightarrow> js_string list \<Rightarrow> js_string" where
  "suggestion_key d user feature p n light = suggestion_cache_key (sx_sha d) (gd_json_text d)
     \<lparr>ck_userId = user, ck_featureType = feature, ck_promptVersion = pm_version p, ck_modelScope = sx_scope d,
      ck_content = prepare_untrusted_text (gd_redact d) (sn_content n),
      ck_context = prepare_untrusted_text (gd_redact d) (join [10] light)\<rparr>"

definition new_suggestion ::
    "ident \<Rightarrow> ident \<Rightarrow> js_string \<Rightarrow> prompt \<Rightarrow> doc_section \<Rightarrow> generated_text \<Rightarrow> time \<Rightarrow> suggestion" where
  "new_suggestion i user feature p n g now = \<lparr>sg_id = i, sg_sectionId = sn_id n, sg_userId = user,
     sg_featureType = feature, sg_originalText = sn_content n, sg_suggestedText = gt_suggestedText g,
     sg_status = SuggestionPending, sg_promptVersion = pm_version p, sg_model = gt_model g,
     sg_createdAt = now, sg_updatedAt = now\<rparr>"

text \<open>A cached text that fails validation counts as a miss.\<close>

definition cached_suggestion ::
    "'w suggest_deps \<Rightarrow> js_string \<Rightarrow> leak_context \<Rightarrow> time \<Rightarrow> response_cache \<Rightarrow> generated_text option" where
  "cached_suggestion d k leak now st =
     (case cache_get (sx_cache d) (fst (sx_cache_up d)) now k st of
        None \<Rightarrow> None
      | Some g \<Rightarrow> if valid_output (gd_lower d) (gt_suggestedText g) leak then Some g else None)"

text \<open>\<open>meanwhile\<close>: what others do while the model answers.\<close>

definition generate_suggestion ::
    "'w suggest_deps \<Rightarrow> (suggestions_state \<Rightarrow> suggestions_state) \<Rightarrow> ident \<Rightarrow> ident \<Rightarrow> ident \<Rightarrow> js_string \<Rightarrow>
     time \<Rightarrow> suggestions_state \<Rightarrow> 'w \<Rightarrow> (http_error + suggestion) \<times> suggestions_state \<times> 'w" where
  "generate_suggestion d meanwhile new_id user i feature now s w =
     (case prepare_suggestion d user i feature (su_docs s) of
        Inl e \<Rightarrow> (Inl e, s, w)
      | Inr (n, p, light, r) \<Rightarrow>
          (let leak = suggestion_leak (guard_deps.truncate d) n light r;
               k = suggestion_key d user feature p n light;
               store = (\<lambda>g. create_suggestion_row (new_suggestion new_id user feature p n g now))
           in case cached_suggestion d k leak now (su_cache s) of
                Some g \<Rightarrow> (case store g (meanwhile s) of (a, s') \<Rightarrow> (a, s', w))
              | None \<Rightarrow>
                  (case ask_model d user feature r leak w of
                     (Inl e, w') \<Rightarrow> (Inl e, meanwhile s, w')
                   | (Inr g, w') \<Rightarrow>
                       (let s1 = meanwhile s;
                            cache = cache_set (sx_cache d) (snd (sx_cache_up d)) now k g (su_cache s1)
                        in case store g (s1\<lparr>su_cache := cache\<rparr>) of (a, s') \<Rightarrow> (a, s', w')))))"

section \<open>Listing and reviewing\<close>

definition list_suggestions :: "ident \<Rightarrow> ident \<Rightarrow> suggestions_state \<Rightarrow> http_error + suggestion list" where
  "list_suggestions user i s =
     map_sum id (\<lambda>_. find_by_section_id i (su_rows s)) (assert_section_owned user i (su_docs s))"

definition suggestion_not_found :: "ident \<Rightarrow> http_error" where
  "suggestion_not_found i = NotFound (js ''Suggestion '' @ i @ js '' not found'')"

definition already_reviewed :: "ident \<Rightarrow> http_error" where
  "already_reviewed i = Conflict (js ''Suggestion '' @ i @ js '' has already been reviewed'')"

fun suggestion_status_text :: "suggestion_status \<Rightarrow> js_string" where
  "suggestion_status_text SuggestionPending = js ''pending''"
| "suggestion_status_text SuggestionAccepted = js ''accepted''"
| "suggestion_status_text SuggestionRejected = js ''rejected''"

definition review_suggestion ::
    "(suggestions_state \<Rightarrow> suggestions_state) \<Rightarrow> ident \<Rightarrow> ident \<Rightarrow> suggestion_status \<Rightarrow> time \<Rightarrow>
     suggestions_state \<Rightarrow> (http_error + suggestion) \<times> suggestions_state" where
  "review_suggestion meanwhile user i status now s =
     (case find_suggestion i (su_rows s) of
        None \<Rightarrow> (Inl (suggestion_not_found i), s)
      | Some r \<Rightarrow>
          (case assert_section_owned user (sg_sectionId r) (su_docs s) of
             Inl e \<Rightarrow> (Inl e, s)
           | Inr _ \<Rightarrow>
               (if sg_status r \<noteq> SuggestionPending then (Inl (already_reviewed i), s)
                else
                  (let s1 = meanwhile s in
                   case mark_reviewed i status now (su_rows s1) of
                     (None, t) \<Rightarrow> (Inl (already_reviewed i), s1\<lparr>su_rows := t\<rparr>)
                   | (Some reviewed, t) \<Rightarrow> (Inr reviewed, s1\<lparr>su_rows := t, su_emitted := su_emitted s1 @
                       [SuggestionReviewed user (sg_id reviewed) (suggestion_status_text (sg_status reviewed))]\<rparr>)))))"

section \<open>Lemmas\<close>

lemma assert_section_owned_Inr:
  "assert_section_owned user i s = Inr n \<Longrightarrow>
     find_section i (ds_sections s) = Some n \<and> document_owner s (sn_documentId n) = Some user"
  by (auto simp: assert_section_owned_def document_owner_def split: option.splits if_splits)

lemma find_section_id: "find_section i t = Some n \<Longrightarrow> sn_id n = i"
  by (auto simp: find_section_def dest: find_SomeD)

lemma prepare_suggestion_Inr:
  assumes "prepare_suggestion d user i feature s = Inr (n, p, light, r)"
  shows "assert_section_owned user i s = Inr n \<and> sx_prompt d feature = Some p \<and> pm_userInvocable p \<and>
    sx_available d \<and> length (sn_content n) \<le> sx_maxInputChars d \<and> light = light_context p n s \<and>
    render_suggestion_prompt (guard_deps.truncate d) p (sn_content n) light = Some r"
  using assms
  by (auto simp: prepare_suggestion_def Let_def split: sum.splits option.splits if_splits)

lemma cached_suggestion_valid:
  "cached_suggestion d k leak now st = Some g \<Longrightarrow> valid_output (gd_lower d) (gt_suggestedText g) leak"
  by (auto simp: cached_suggestion_def split: option.splits if_splits)

lemma ask_model_Inr:
  assumes "ask_model d user feature r leak w = (Inr g, w')"
  shows "valid_output (gd_lower d) (gt_suggestedText g) leak \<and> sx_generate d
    \<lparr>gi_system = rp_system r, gi_user = rp_user r, gi_featureType = feature, gi_userId = user\<rparr> w = (Inr g, w')"
  using assms by (auto simp: ask_model_def split: prod.splits sum.splits if_splits)

lemma ask_model_world:
  "snd (ask_model d user feature r leak w) = snd (sx_generate d
    \<lparr>gi_system = rp_system r, gi_user = rp_user r, gi_featureType = feature, gi_userId = user\<rparr> w)"
  by (auto simp: ask_model_def split: prod.splits sum.splits if_splits)

lemma create_suggestion_row_Inr:
  "create_suggestion_row r s = (Inr g, s') \<Longrightarrow> g = r \<and> su_rows s' = su_rows s @ [r]"
  by (auto simp: create_suggestion_row_def split: if_splits)

lemma create_suggestion_row_Inl:
  "create_suggestion_row r s = (Inl e, s') \<Longrightarrow> e = fk_violation \<and> s' = s"
  by (auto simp: create_suggestion_row_def split: if_splits)

text \<open>What was stored is read back, until it expires.\<close>

lemma cache_get_set:
  assumes "0 < ca_ttlSeconds c" and "later < now + ca_ttlSeconds c * 1000"
    and "\<And>v. ca_parse c (ca_stringify c v) = Some v"
  shows "cache_get c True later k (cache_set c True now k g st) = Some g"
  using assms by (cases g) (auto simp: cache_get_def cache_set_def parse_entry_def entry_json_def split: option.splits)

text \<open>Writes of reviews compete for the pending status.\<close>

definition review_writes :: "ident \<Rightarrow> (suggestion list \<Rightarrow> suggestion option \<times> suggestion list) set" where
  "review_writes i = {mark_reviewed i status now | status now. status \<noteq> SuggestionPending}"

interpretation reviews: guarded_updates "find_suggestion i" "\<lambda>r. sg_status r = SuggestionPending" "review_writes i"
  for i
proof
  fix f t and r :: suggestion and t'
  assume "f \<in> review_writes i"
  then obtain status now where f: "f = mark_reviewed i status now" "status \<noteq> SuggestionPending"
    by (auto simp: review_writes_def)
  have key: "find_suggestion i (sql_update (\<lambda>r. sg_id r = i) upd t) = map_option upd (find_suggestion i t)"
    if "\<And>r. sg_id (upd r) = sg_id r" for upd
    unfolding find_suggestion_def find_sql_update_key [of sg_id upd, OF that]
    by (auto dest: find_SomeD intro: option.map_cong0 split: option.splits simp: map_option_case)
  show "(\<exists>d. find_suggestion i t = Some d \<and> sg_status d = SuggestionPending) \<and>
      (\<exists>d. find_suggestion i t' = Some d \<and> sg_status d \<noteq> SuggestionPending)" if "f t = (Some r, t')"
    using that f by (auto simp: mark_reviewed_def Let_def key split: option.splits if_splits)
  show "t' = t \<and> (\<forall>d. find_suggestion i t = Some d \<longrightarrow> sg_status d \<noteq> SuggestionPending)" if "f t = (None, t')"
    using that f by (auto simp: mark_reviewed_def Let_def split: option.splits if_splits)
qed

section \<open>Properties\<close>


definition plain_prompt :: prompt where
  "plain_prompt = \<lparr>pm_id = [], pm_featureType = js ''rewrite'', pm_version = js ''v'', pm_systemTemplate = [],
     pm_template = [], pm_userInvocable = True, pm_isActive = True, pm_createdAt = 0, pm_updatedAt = 0\<rparr>"

definition sample_suggest :: "unit suggest_deps" where
  "sample_suggest = \<lparr>gd_redact = id, gd_lower = id, gd_json_text = (\<lambda>_. []), gd_nonce = js ''0a'',
     sx_prompt = (\<lambda>_. Some plain_prompt), sx_available = True, sx_scope = [],
     sx_generate = (\<lambda>_ w. (Inr \<lparr>gt_suggestedText = js ''ok'', gt_model = None\<rparr>, w)), sx_maxInputChars = 100,
     sx_sha = id, sx_cache = \<lparr>ca_ttlSeconds = 0, ca_stringify = (\<lambda>_. []), ca_parse = (\<lambda>_. None)\<rparr>,
     sx_cache_up = (True, True)\<rparr>"

definition sample_suggestions :: suggestions_state where
  "sample_suggestions = \<lparr>su_docs = sample_docs, su_rows = [], su_cache = Map.empty, su_emitted = []\<rparr>"

lemma sample_suggestion_run:
  "\<exists>g s' w'. generate_suggestion sample_suggest id (js ''g'') (js ''u'') (js ''s'') (js ''rewrite'') 0
     sample_suggestions () = (Inr g, s', w')"
proof -
  obtain n where section_n: "find_section (js ''s'') (ds_sections sample_docs) = Some n"
    and own: "assert_section_owned (js ''u'') (js ''s'') sample_docs = Inr n" and len: "length (sn_content n) \<le> 100"
    and id_n: "sn_id n = js ''s''"
    by (simp add: sample_docs_def create_document_def create_section_def create_section_row_def get_document_def
        find_document_def find_section_def emit_doc_def new_section_def assert_section_owned_def Let_def)
  have light: "light_context plain_prompt n sample_docs = []"
    by (simp add: light_context_def plain_prompt_def list_placeholders_def)
  have rendered: "render_suggestion_prompt g plain_prompt c [] = Some \<lparr>rp_system = [], rp_user = []\<rparr>" for g c
    by (simp add: render_suggestion_prompt_def plain_prompt_def)
  have prep: "prepare_suggestion sample_suggest (js ''u'') (js ''s'') (js ''rewrite'') sample_docs =
      Inr (n, plain_prompt, [], \<lparr>rp_system = [], rp_user = []\<rparr>)"
    using own len light rendered
    by (simp add: prepare_suggestion_def sample_suggest_def) (simp add: plain_prompt_def)
  have valid: "valid_output id (js ''ok'') \<lparr>lk_nonce = js ''0a'', lk_system = [], lk_source = src\<rparr>" for src
    by (simp add: valid_output_def max_suggested_text_chars_def leaks_prompt_def str_includes_def positions_of_def
        starts_with_def normalize_text_def min_leak_sentence_chars_def trim_def trim_start_def trim_end_def js_ws_def js_def)
  have "cached_suggestion sample_suggest k leak 0 Map.empty = None" for k leak
    by (simp add: cached_suggestion_def cache_get_def sample_suggest_def)
  moreover have "ask_model sample_suggest (js ''u'') (js ''rewrite'') \<lparr>rp_system = [], rp_user = []\<rparr>
      (suggestion_leak (guard_deps.truncate sample_suggest) n [] \<lparr>rp_system = [], rp_user = []\<rparr>) () =
      (Inr \<lparr>gt_suggestedText = js ''ok'', gt_model = None\<rparr>, ())"
    using valid by (simp add: ask_model_def suggestion_leak_def sample_suggest_def guard_deps.truncate_def)
  ultimately show ?thesis
    using prep section_n id_n
    by (simp add: generate_suggestion_def sample_suggestions_def create_suggestion_row_def new_suggestion_def Let_def)
qed


text \<open>However many reviews of one suggestion race, exactly one takes effect if it is pending, and
  none otherwise: a review is never overwritten.\<close>

theorem suggestion_reviewed_once:
  assumes "set fs \<subseteq> review_writes i"
  shows "wins fs t = (if fs \<noteq> [] \<and> (\<exists>r. find_suggestion i t = Some r \<and> sg_status r = SuggestionPending) then 1 else 0)"
  by (rule reviews.wins_once [OF assms])

theorem suggestion_reviewed_once_witness:
  "wins [mark_reviewed (js ''g'') SuggestionAccepted 1, mark_reviewed (js ''g'') SuggestionRejected 2]
     [\<lparr>sg_id = js ''g'', sg_sectionId = [], sg_userId = [], sg_featureType = [], sg_originalText = [],
       sg_suggestedText = [], sg_status = SuggestionPending, sg_promptVersion = [], sg_model = None,
       sg_createdAt = 0, sg_updatedAt = 0\<rparr>] = 1"
proof -
  have "set [mark_reviewed (js ''g'') SuggestionAccepted 1, mark_reviewed (js ''g'') SuggestionRejected 2]
      \<subseteq> review_writes (js ''g'')"
    unfolding review_writes_def by auto
  from suggestion_reviewed_once [OF this] show ?thesis by (simp add: find_suggestion_def)
qed

text \<open>A review changes one row's status and nothing of the documents.\<close>

lemma review_suggestion_effect:
  assumes "review_suggestion meanwhile user i status now s = (Inr r, s')"
  shows "su_docs s' = su_docs (meanwhile s) \<and> sg_id r = i \<and> sg_status r = status \<and>
    su_rows s' = sql_update (\<lambda>q. sg_id q = i) (\<lambda>q. q\<lparr>sg_status := status, sg_updatedAt := now\<rparr>) (su_rows (meanwhile s)) \<and>
    su_emitted s' = su_emitted (meanwhile s) @ [SuggestionReviewed user i (suggestion_status_text status)]"
  using assms
  by (auto simp: review_suggestion_def mark_reviewed_def find_suggestion_def Let_def
      dest: find_SomeD split: option.splits sum.splits if_splits)

end
