(* ===== verification/UtcDates.thy ===== *)
theory UtcDates
  imports JsText "HOL-Library.List_Lexorder"
begin

text \<open>
  The UTC calendar of JavaScript's \<open>Date\<close> and the date texts (\<open>YYYY-MM-DD\<close>) the program makes with
  \<open>toISOString().slice(0, 10)\<close> and compares as strings. A day is its number since 1970-01-01, a month
  counts from 0 as in \<open>getUTCMonth\<close>. Strings are ordered by code unit, as JavaScript's \<open><\<close> does.
\<close>

section \<open>Years and months\<close>

text \<open>The number of the first day of a year (\<open>DayFromYear\<close> of ECMAScript).\<close>

definition day_from_year :: "int \<Rightarrow> int" where
  "day_from_year y = 365 * (y - 1970) + (y - 1969) div 4 - (y - 1901) div 100 + (y - 1601) div 400"

definition leap_year :: "int \<Rightarrow> bool" where
  "leap_year y \<longleftrightarrow> y mod 4 = 0 \<and> (y mod 100 \<noteq> 0 \<or> y mod 400 = 0)"

definition month_lengths :: "int \<Rightarrow> int list" where
  "month_lengths y = [31, if leap_year y then 29 else 28, 31, 30, 31, 30, 31, 31, 30, 31, 30, 31]"

lemma div_step:
  fixes x n :: int
  assumes "0 < n"
  shows "(x + 1) div n = x div n + (if (x + 1) mod n = 0 then 1 else 0)"
proof -
  have r: "0 \<le> x mod n" "x mod n < n" using assms by simp_all
  have "x + 1 = x mod n + 1 + x div n * n" by simp
  then have d: "(x + 1) div n = x div n + (x mod n + 1) div n" and m: "(x + 1) mod n = (x mod n + 1) mod n"
    using assms by (metis add.commute div_mult_self1 less_irrefl, metis mod_mult_self1)
  show ?thesis
  proof (cases "x mod n + 1 = n")
    case True
    with d m assms show ?thesis by simp
  next
    case False
    with r have "x mod n + 1 < n" "0 < x mod n + 1" by simp_all
    with d m show ?thesis by simp
  qed
qed

lemma day_from_next_year: "day_from_year (y + 1) = day_from_year y + 365 + (if leap_year y then 1 else 0)"
proof -
  have "y - 1969 + 1 = y + (- 492) * 4" "y - 1901 + 1 = y + (- 19) * 100" "y - 1601 + 1 = y + (- 4) * 400" by simp_all
  then have m: "(y - 1969 + 1) mod 4 = 0 \<longleftrightarrow> y mod 4 = 0" "(y - 1901 + 1) mod 100 = 0 \<longleftrightarrow> y mod 100 = 0"
    "(y - 1601 + 1) mod 400 = 0 \<longleftrightarrow> y mod 400 = 0" by (simp_all only: mod_mult_self1)
  have "(4::int) dvd 100" "(100::int) dvd 400" by simp_all
  then have i: "y mod 100 = 0 \<longrightarrow> y mod 4 = 0" "y mod 400 = 0 \<longrightarrow> y mod 100 = 0"
    unfolding dvd_eq_mod_eq_0 [symmetric] using dvd_trans by blast+
  have bits: "(if a \<and> (\<not> b \<or> c) then 1 else 0 :: int) = (if a then 1 else 0) - (if b then 1 else 0) + (if c then 1 else 0)"
    if "b \<longrightarrow> a" "c \<longrightarrow> b" for a b c
    using that by (cases a; cases b; cases c) simp_all
  have e: "y + 1 - 1969 = y - 1969 + 1" "y + 1 - 1901 = y - 1901 + 1" "y + 1 - 1601 = y - 1601 + 1" by simp_all
  have "(y + 1 - 1969) div 4 = (y - 1969) div 4 + (if y mod 4 = 0 then 1 else 0)"
    "(y + 1 - 1901) div 100 = (y - 1901) div 100 + (if y mod 100 = 0 then 1 else 0)"
    "(y + 1 - 1601) div 400 = (y - 1601) div 400 + (if y mod 400 = 0 then 1 else 0)"
    unfolding e m [symmetric] by (rule div_step, simp)+
  moreover have "365 * (y + 1 - 1970) = 365 * (y - 1970) + 365" by simp
  moreover have "(if leap_year y then 1 else 0 :: int) =
      (if y mod 4 = 0 then 1 else 0) - (if y mod 100 = 0 then 1 else 0) + (if y mod 400 = 0 then 1 else 0)"
    unfolding leap_year_def by (rule bits [OF i])
  ultimately show ?thesis unfolding day_from_year_def by linarith
qed

lemma sum_month_lengths: "sum_list (month_lengths y) = 365 + (if leap_year y then 1 else 0)"
  by (simp add: month_lengths_def)

lemma month_lengths_pos: "n \<in> set (month_lengths y) \<Longrightarrow> 28 \<le> n" and length_month_lengths [simp]: "length (month_lengths y) = 12"
  by (auto simp: month_lengths_def split: if_splits)

lemma day_from_year_step: "day_from_year y + 365 \<le> day_from_year (y + 1)"
  by (simp add: day_from_next_year)

lemma day_from_year_mono: "x \<le> y \<Longrightarrow> day_from_year x \<le> day_from_year y"
proof (induction y rule: int_ge_induct)
  case (step y)
  with day_from_year_step [of y] show ?case by linarith
qed simp

section \<open>The date of a day\<close>

function year_from :: "int \<Rightarrow> int \<Rightarrow> int" where
  "year_from d y = (if day_from_year (y + 1) \<le> d then year_from d (y + 1) else y)"
  by pat_completeness auto
termination
proof (relation "measure (\<lambda>(d, y). nat (d - day_from_year y))")
  fix d y
  assume "day_from_year (y + 1) \<le> d"
  with day_from_year_step [of y] show "((d, y + 1), d, y) \<in> measure (\<lambda>(d, y). nat (d - day_from_year y))"
    by (simp add: nat_less_eq_zless)
qed simp

declare year_from.simps [simp del]

text \<open>\<open>getUTCFullYear\<close>, \<open>getUTCMonth\<close>, \<open>getUTCDate\<close>.\<close>

definition utc_year :: "int \<Rightarrow> int" where
  "utc_year d = year_from d (1970 + d div (if 0 \<le> d then 366 else 365))"

fun month_day :: "int list \<Rightarrow> int \<Rightarrow> int \<times> int" where
  "month_day [] d = (0, d)"
| "month_day (n # ns) d = (if d < n then (0, d) else map_prod (\<lambda>m. m + 1) id (month_day ns (d - n)))"

definition utc_month :: "int \<Rightarrow> int" where
  "utc_month d = fst (month_day (month_lengths (utc_year d)) (d - day_from_year (utc_year d)))"

definition utc_date :: "int \<Rightarrow> int" where
  "utc_date d = snd (month_day (month_lengths (utc_year d)) (d - day_from_year (utc_year d))) + 1"

text \<open>\<open>MakeDay\<close>; \<open>Date.UTC\<close> reads a year from 0 to 99 as one of the twentieth century.\<close>

definition make_day :: "int \<Rightarrow> int \<Rightarrow> int \<Rightarrow> int" where
  "make_day y m d =
     (let y' = y + m div 12
      in day_from_year y' + sum_list (take (nat (m mod 12)) (month_lengths y')) + d - 1)"

definition date_utc :: "int \<Rightarrow> int \<Rightarrow> int \<Rightarrow> int" where
  "date_utc y m d = make_day (if 0 \<le> y \<and> y \<le> 99 then 1900 + y else y) m d"

section \<open>Date texts\<close>

fun fixed_digits :: "nat \<Rightarrow> nat \<Rightarrow> js_string" where
  "fixed_digits 0 n = []"
| "fixed_digits (Suc k) n = fixed_digits k (n div 10) @ [48 + of_nat (n mod 10)]"

definition iso_year :: "int \<Rightarrow> js_string" where
  "iso_year y = (if 0 \<le> y \<and> y \<le> 9999 then fixed_digits 4 (nat y)
     else (if y < 0 then 45 else 43) # fixed_digits 6 (nat \<bar>y\<bar>))"

definition iso_date :: "int \<Rightarrow> js_string" where
  "iso_date d = take 10 (iso_year (utc_year d) @ 45 # fixed_digits 2 (nat (utc_month d + 1)) @
     45 # fixed_digits 2 (nat (utc_date d)))"

definition day_of_time :: "time \<Rightarrow> int" where
  "day_of_time at = at div 86400000"

definition to_utc_date :: "time \<Rightarrow> js_string" where
  "to_utc_date at = iso_date (day_of_time at)"

fun split_on :: "16 word \<Rightarrow> js_string \<Rightarrow> js_string list" where
  "split_on c [] = [[]]"
| "split_on c (x # s) =
     (if x = c then [] # split_on c s else (case split_on c s of [] \<Rightarrow> [[x]] | w # ws \<Rightarrow> (x # w) # ws))"

text \<open>\<open>Number(s)\<close> for an integer text; \<open>None\<close> is \<open>NaN\<close>.\<close>

definition js_digit :: "16 word \<Rightarrow> bool" where
  "js_digit c \<longleftrightarrow> 48 \<le> c \<and> c \<le> 57"

fun js_number :: "js_string \<Rightarrow> int option" where
  "js_number [] = Some 0"
| "js_number (c # s) =
     (if list_all js_digit (c # s) then Some (int (str_nat (c # s)))
      else if s \<noteq> [] \<and> list_all js_digit s \<and> c = 43 then Some (int (str_nat s))
      else if s \<noteq> [] \<and> list_all js_digit s \<and> c = 45 then Some (- int (str_nat s))
      else None)"

text \<open>\<open>addCalendarMonths\<close>; \<open>None\<close> is the \<open>RangeError\<close> of \<open>toISOString\<close> on an invalid date.\<close>

definition add_calendar_months :: "js_string \<Rightarrow> int \<Rightarrow> js_string option" where
  "add_calendar_months date months =
     (case map js_number (split_on 45 date) of
        Some y # Some m # Some d # _ \<Rightarrow>
          (let target = date_utc y (m - 1 + months) 1;
               last_day = utc_date (date_utc (utc_year target) (utc_month target + 1) 0)
           in Some (iso_date (make_day (utc_year target) (utc_month target) (min d last_day))))
      | _ \<Rightarrow> None)"

section \<open>Calendar lemmas\<close>

lemma day_from_year_strict: "x < y \<Longrightarrow> day_from_year x < day_from_year y"
  using day_from_year_step [of x] day_from_year_mono [of "x + 1" y] by simp

lemma year_from_bounds:
  "day_from_year y \<le> d \<Longrightarrow> day_from_year (year_from d y) \<le> d \<and> d < day_from_year (year_from d y + 1)"
  by (induction d y rule: year_from.induct) (subst (1 2) year_from.simps, auto)

lemma start_year: "day_from_year (1970 + d div (if 0 \<le> d then 366 else 365)) \<le> d"
proof -
  have far: "365 * k + (k + 1) div 4 - (k + 69) div 100 + (k + 369) div 400 \<le> (if 0 \<le> k then 366 * k else 365 * k)" for k :: int
  proof -
    have b: "4 * ((k + 1) div 4) \<le> k + 1" "k + 69 < 100 * ((k + 69) div 100) + 100" "400 * ((k + 369) div 400) \<le> k + 369"
      by simp_all
    have c: "0 \<le> k \<Longrightarrow> 0 \<le> (k + 69) div 100" by simp
    consider "k = -1" | "k = 0" | "k = 1" | "2 \<le> k" | "k \<le> -2" by linarith
    then show ?thesis by cases (use b c in simp_all)
  qed
  have "day_from_year (1970 + k) = 365 * k + (k + 1) div 4 - (k + 69) div 100 + (k + 369) div 400" for k
    by (simp add: day_from_year_def add.commute)
  with far have le: "day_from_year (1970 + k) \<le> (if 0 \<le> k then 366 * k else 365 * k)" for k by simp
  show ?thesis
  proof (cases "0 \<le> d")
    case True
    then have "0 \<le> d div 366" "366 * (d div 366) \<le> d" by simp_all
    with le [of "d div 366"] True show ?thesis by simp
  next
    case False
    then have "d div 365 < 0" "365 * (d div 365) \<le> d" by simp_all
    with le [of "d div 365"] False show ?thesis by simp
  qed
qed

lemma utc_year_bounds: "day_from_year (utc_year d) \<le> d" "d < day_from_year (utc_year d + 1)"
  using year_from_bounds [OF start_year] unfolding utc_year_def by blast+

lemma utc_year_unique: "day_from_year y \<le> d \<Longrightarrow> d < day_from_year (y + 1) \<Longrightarrow> utc_year d = y"
  using utc_year_bounds [of d] day_from_year_mono [of "y + 1" "utc_year d"] day_from_year_mono [of "utc_year d + 1" y]
  by linarith

lemma month_day_decode:
  "0 \<le> d \<Longrightarrow> d < sum_list ns \<Longrightarrow> month_day ns d = (m, r) \<Longrightarrow>
   0 \<le> m \<and> m < int (length ns) \<and> 0 \<le> r \<and> r < ns ! nat m \<and> d = sum_list (take (nat m) ns) + r"
proof (induction ns arbitrary: d m)
  case (Cons n ns)
  show ?case
  proof (cases "d < n")
    case False
    with Cons.prems obtain k where k: "month_day ns (d - n) = (k, r)" "m = k + 1"
      by (cases "month_day ns (d - n)") auto
    with Cons.IH [of "d - n" k] Cons.prems False show ?thesis by (auto simp: nat_add_distrib)
  qed (use Cons.prems in auto)
qed simp

lemma month_day_encode:
  "m < length ns \<Longrightarrow> 0 \<le> r \<Longrightarrow> r < ns ! m \<Longrightarrow> list_all (\<lambda>n. 0 \<le> n) ns \<Longrightarrow>
   month_day ns (sum_list (take m ns) + r) = (int m, r)"
proof (induction ns arbitrary: m)
  case (Cons n ns)
  show ?case
  proof (cases m)
    case (Suc k)
    moreover from Cons.prems have "0 \<le> sum_list (take k ns)"
      by (intro sum_list_nonneg) (auto simp: list_all_iff dest: in_set_takeD)
    ultimately show ?thesis using Cons by simp
  qed (use Cons.prems in simp)
qed simp

text \<open>Days and dates correspond.\<close>

definition valid_date :: "int \<Rightarrow> int \<Rightarrow> int \<Rightarrow> bool" where
  "valid_date y m d \<longleftrightarrow> 0 \<le> m \<and> m < 12 \<and> 1 \<le> d \<and> d \<le> month_lengths y ! nat m"

lemma utc_month_day:
  "0 \<le> utc_month n" "utc_month n < 12" "1 \<le> utc_date n" "utc_date n \<le> month_lengths (utc_year n) ! nat (utc_month n)"
  "n = day_from_year (utc_year n) + sum_list (take (nat (utc_month n)) (month_lengths (utc_year n))) + utc_date n - 1"
proof -
  let ?ns = "month_lengths (utc_year n)" and ?d = "n - day_from_year (utc_year n)"
  have "0 \<le> ?d" "?d < sum_list ?ns"
    using utc_year_bounds [of n] by (simp_all add: day_from_next_year sum_month_lengths)
  from month_day_decode [OF this, of "utc_month n" "utc_date n - 1"]
  show "0 \<le> utc_month n" "utc_month n < 12" "1 \<le> utc_date n" "utc_date n \<le> ?ns ! nat (utc_month n)"
    "n = day_from_year (utc_year n) + sum_list (take (nat (utc_month n)) ?ns) + utc_date n - 1"
    by (auto simp: utc_month_def utc_date_def)
qed

lemma valid_date_utc: "valid_date (utc_year n) (utc_month n) (utc_date n)"
  using utc_month_day [of n] by (simp add: valid_date_def)

lemma make_day_utc [simp]: "make_day (utc_year n) (utc_month n) (utc_date n) = n"
  using utc_month_day [of n] by (simp add: make_day_def Let_def)

lemma month_prefix_mono:
  "i \<le> j \<Longrightarrow> sum_list (take i (month_lengths y)) \<le> sum_list (take j (month_lengths y))"
proof (induction j rule: dec_induct)
  case (step j)
  have "sum_list (take j (month_lengths y)) \<le> sum_list (take (Suc j) (month_lengths y))"
  proof (cases "j < 12")
    case True
    moreover from this have "0 \<le> month_lengths y ! j" using month_lengths_pos [of "month_lengths y ! j" y] by simp
    ultimately show ?thesis by (simp add: take_Suc_conv_app_nth)
  qed simp
  with step show ?case by simp
qed simp

lemma month_prefix_next: "m < 12 \<Longrightarrow>
    sum_list (take (Suc m) (month_lengths y)) = sum_list (take m (month_lengths y)) + month_lengths y ! m"
  by (simp add: take_Suc_conv_app_nth)

lemma make_day_fields:
  assumes "valid_date y m d"
  shows "utc_year (make_day y m d) = y" "utc_month (make_day y m d) = m" "utc_date (make_day y m d) = d"
proof -
  let ?ns = "month_lengths y"
  have v: "0 \<le> m" "m < 12" "1 \<le> d" "d \<le> ?ns ! nat m" using assms by (auto simp: valid_date_def)
  have day: "make_day y m d = day_from_year y + (sum_list (take (nat m) ?ns) + (d - 1))"
    using v by (simp add: make_day_def)
  have "0 \<le> sum_list (take (nat m) ?ns)" using month_prefix_mono [of 0 "nat m" y] by simp
  moreover have "sum_list (take (nat m) ?ns) + ?ns ! nat m \<le> sum_list ?ns"
    using month_prefix_next [of "nat m" y] month_prefix_mono [of "Suc (nat m)" 12 y] v by simp
  ultimately show y: "utc_year (make_day y m d) = y"
    unfolding day using v by (intro utc_year_unique) (simp_all add: day_from_next_year sum_month_lengths)
  have "month_day ?ns (sum_list (take (nat m) ?ns) + (d - 1)) = (int (nat m), d - 1)"
    using v by (intro month_day_encode) (auto simp: list_all_iff dest: month_lengths_pos)
  then show "utc_month (make_day y m d) = m" "utc_date (make_day y m d) = d"
    unfolding utc_month_def utc_date_def y unfolding day using v by simp_all
qed

definition date_less :: "int \<times> int \<times> int \<Rightarrow> int \<times> int \<times> int \<Rightarrow> bool" where
  "date_less = (\<lambda>(y, m, d) (y', m', d'). y < y' \<or> y = y' \<and> (m < m' \<or> m = m' \<and> d < d'))"

definition civil :: "int \<Rightarrow> int \<times> int \<times> int" where
  "civil n = (utc_year n, utc_month n, utc_date n)"

lemma civil_less: "date_less (civil a) (civil b) \<Longrightarrow> a < b"
proof -
  note bounds = utc_month_day [of a] utc_month_day [of b]
  have months: "sum_list (take (nat (utc_month a)) (month_lengths (utc_year a))) + utc_date a
      \<le> sum_list (take (nat (utc_month b)) (month_lengths (utc_year a)))" if "utc_month a < utc_month b"
  proof -
    have "Suc (nat (utc_month a)) \<le> nat (utc_month b)" "nat (utc_month a) < 12" using that bounds(1,2) by linarith+
    with month_prefix_next [of "nat (utc_month a)" "utc_year a"] bounds(4)
      month_prefix_mono [of "Suc (nat (utc_month a))" "nat (utc_month b)" "utc_year a"] show ?thesis by linarith
  qed
  assume "date_less (civil a) (civil b)"
  then consider "utc_year a < utc_year b" | "utc_year a = utc_year b" "utc_month a < utc_month b"
    | "utc_year a = utc_year b" "utc_month a = utc_month b" "utc_date a < utc_date b"
    by (auto simp: date_less_def civil_def)
  then show "a < b"
  proof cases
    case 1
    with day_from_year_mono [of "utc_year a + 1" "utc_year b"] utc_year_bounds [of a] utc_year_bounds [of b]
    show ?thesis by simp
  next
    case 2
    with months bounds(5,8,10) show ?thesis by simp
  next
    case 3
    with bounds(5,10) show ?thesis by simp
  qed
qed

lemma civil_less_iff: "date_less (civil a) (civil b) \<longleftrightarrow> a < b"
proof -
  have "date_less (civil a) (civil b) \<or> civil a = civil b \<or> date_less (civil b) (civil a)"
    unfolding date_less_def civil_def prod.case prod.inject by (meson linorder_less_linear)
  moreover have "a = b" if "civil a = civil b"
    using that make_day_utc unfolding civil_def prod.inject by metis
  ultimately show ?thesis using civil_less [of a b] civil_less [of b a] by fastforce
qed

section \<open>Texts\<close>

lemma length_fixed_digits [simp]: "length (fixed_digits k n) = k"
  by (induction k arbitrary: n) simp_all

lemma append_less_append:
  fixes xs :: "'a::linorder list"
  shows "length xs = length ys \<Longrightarrow> xs @ us < ys @ vs \<longleftrightarrow> xs < ys \<or> xs = ys \<and> us < vs"
  by (induction xs ys rule: list_induct2) auto

lemma digit_less: "a < 10 \<Longrightarrow> b < 10 \<Longrightarrow> (48 + of_nat a :: 16 word) < 48 + of_nat b \<longleftrightarrow> a < b"
  and digit_eq: "a < 10 \<Longrightarrow> b < 10 \<Longrightarrow> (of_nat a :: 16 word) = of_nat b \<longleftrightarrow> a = b"
proof -
  have u: "unat (48 + of_nat n :: 16 word) = 48 + n" "unat (of_nat n :: 16 word) = n" if "n < 10" for n
    using that by (simp_all add: unat_word_ariths unat_of_nat)
  assume "a < 10" "b < 10"
  with u show "(48 + of_nat a :: 16 word) < 48 + of_nat b \<longleftrightarrow> a < b" by (simp add: word_less_nat_alt)
  from u \<open>a < 10\<close> \<open>b < 10\<close> show "(of_nat a :: 16 word) = of_nat b \<longleftrightarrow> a = b" by (metis)
qed

lemma fixed_digits_order:
  "a < 10 ^ k \<Longrightarrow> b < 10 ^ k \<Longrightarrow>
   (fixed_digits k a < fixed_digits k b \<longleftrightarrow> a < b) \<and> (fixed_digits k a = fixed_digits k b \<longleftrightarrow> a = b)"
proof (induction k arbitrary: a b)
  case (Suc k)
  then have "a div 10 < 10 ^ k" "b div 10 < 10 ^ k" by (simp_all add: less_mult_imp_div_less mult.commute)
  note IH = Suc.IH [OF this]
  have split: "(q * 10 + r < q' * 10 + r') = (q < q' \<or> q = q' \<and> r < r')" "(q * 10 + r = q' * 10 + r') = (q = q' \<and> r = r')"
    if "r < 10" "r' < 10" for q r q' r' :: nat
    using that by (cases q q' rule: linorder_cases; simp; linarith)+
  have less: "a < b \<longleftrightarrow> a div 10 < b div 10 \<or> a div 10 = b div 10 \<and> a mod 10 < b mod 10"
    and eq: "a = b \<longleftrightarrow> a div 10 = b div 10 \<and> a mod 10 = b mod 10"
    using split [of "a mod 10" "b mod 10" "a div 10" "b div 10"] unfolding div_mult_mod_eq by simp_all
  show ?case unfolding less eq by (simp add: append_less_append IH digit_less digit_eq)
qed simp

lemma iso_date_text:
  assumes "0 \<le> utc_year n" "utc_year n \<le> 9999"
  shows "iso_date n = fixed_digits 4 (nat (utc_year n)) @ 45 # fixed_digits 2 (nat (utc_month n + 1)) @
    45 # fixed_digits 2 (nat (utc_date n))"
proof -
  have "length (iso_year (utc_year n) @ 45 # fixed_digits 2 (nat (utc_month n + 1)) @ 45 # fixed_digits 2 (nat (utc_date n))) = 10"
    using assms by (simp add: iso_year_def)
  then show ?thesis using assms unfolding iso_date_def by (simp only: take_all) (simp add: iso_year_def)
qed

lemma utc_date_le: "utc_date n \<le> 31"
proof -
  have "month_lengths y ! m \<le> 31" if "m < 12" for y m
  proof -
    from that have "month_lengths y ! m \<in> set (month_lengths y)" by simp
    then show ?thesis by (auto simp: month_lengths_def)
  qed
  from this [of "nat (utc_month n)" "utc_year n"] utc_month_day(1,2,4) [of n] show ?thesis by linarith
qed

text \<open>Date texts of four-digit years compare as the days do.\<close>

lemma iso_date_less:
  assumes "0 \<le> utc_year a" "utc_year a \<le> 9999" "0 \<le> utc_year b" "utc_year b \<le> 9999"
  shows "iso_date a < iso_date b \<longleftrightarrow> a < b"
proof -
  have m: "nat (utc_month n + 1) < 10 ^ 2" "nat (utc_date n) < 10 ^ 2" for n
    using utc_month_day(1,2,3) [of n] utc_date_le [of n] by simp_all
  have y: "nat (utc_year a) < 10 ^ 4" "nat (utc_year b) < 10 ^ 4" using assms by simp_all
  have inj: "nat (utc_year a) < nat (utc_year b) \<longleftrightarrow> utc_year a < utc_year b" "nat (utc_year a) = nat (utc_year b) \<longleftrightarrow> utc_year a = utc_year b"
    "nat (utc_month a + 1) < nat (utc_month b + 1) \<longleftrightarrow> utc_month a < utc_month b" "nat (utc_month a + 1) = nat (utc_month b + 1) \<longleftrightarrow> utc_month a = utc_month b"
    "nat (utc_date a) < nat (utc_date b) \<longleftrightarrow> utc_date a < utc_date b"
    using assms utc_month_day(1,3) [of a] utc_month_day(1,3) [of b] by linarith+
  show ?thesis
    unfolding iso_date_text [OF assms(1,2)] iso_date_text [OF assms(3,4)] civil_less_iff [symmetric]
    by (simp only: append_less_append length_fixed_digits Cons_less_Cons less_irrefl simp_thms date_less_def civil_def
        fixed_digits_order [OF y] fixed_digits_order [OF m(1) m(1)] fixed_digits_order [OF m(2) m(2)] inj prod.case)
qed

lemma iso_date_le:
  assumes "0 \<le> utc_year a" "utc_year a \<le> 9999" "0 \<le> utc_year b" "utc_year b \<le> 9999"
  shows "iso_date a \<le> iso_date b \<longleftrightarrow> a \<le> b"
  using iso_date_less [OF assms(3,4,1,2)] by (simp only: not_less [symmetric])

section \<open>Adding months\<close>

lemma fixed_digits_are_digits: "list_all js_digit (fixed_digits k n)"
proof (induction k arbitrary: n)
  case (Suc k)
  have "js_digit (48 + of_nat a)" if "a < 10" for a
    using that by (simp add: js_digit_def word_le_nat_alt unat_word_ariths unat_of_nat)
  from this [of "n mod 10"] show ?case using Suc by simp
qed simp

lemma str_nat_snoc: "str_nat (s @ [c]) = str_nat s * 10 + digit_val c"
  by (simp add: str_nat_def)

lemma str_nat_fixed_digits: "n < 10 ^ k \<Longrightarrow> str_nat (fixed_digits k n) = n"
proof (induction k arbitrary: n)
  case (Suc k)
  then have "n div 10 < 10 ^ k" by (simp add: less_mult_imp_div_less mult.commute)
  with Suc.IH show ?case by (simp add: str_nat_snoc digit_val_digit)
qed (simp add: str_nat_def)

lemma js_number_digits: "list_all js_digit s \<Longrightarrow> s \<noteq> [] \<Longrightarrow> js_number s = Some (int (str_nat s))"
  by (cases s) simp_all

lemma js_number_fixed_digits: "n < 10 ^ Suc k \<Longrightarrow> js_number (fixed_digits (Suc k) n) = Some (int n)"
  using js_number_digits [OF fixed_digits_are_digits [of "Suc k" n]] str_nat_fixed_digits [of n "Suc k"] by simp

lemma split_on_digits:
  "list_all js_digit s \<Longrightarrow> split_on 45 (s @ 45 # t) = s # split_on 45 t"
  "list_all js_digit s \<Longrightarrow> split_on 45 s = [s]"
  by (induction s) (auto simp: js_digit_def word_le_nat_alt)

lemma iso_date_numbers:
  assumes "0 \<le> utc_year n" "utc_year n \<le> 9999"
  shows "map js_number (split_on 45 (iso_date n)) = [Some (utc_year n), Some (utc_month n + 1), Some (utc_date n)]"
proof -
  have y: "nat (utc_year n) < 10 ^ Suc 3" "nat (utc_month n + 1) < 10 ^ Suc 1" "nat (utc_date n) < 10 ^ Suc 1"
    using assms utc_month_day(1,2,3) [of n] utc_date_le [of n] by simp_all
  have k: "4 = Suc 3" "2 = Suc 1" by simp_all
  show ?thesis
    unfolding iso_date_text [OF assms] split_on_digits(1) [OF fixed_digits_are_digits] split_on_digits(2) [OF fixed_digits_are_digits]
      list.map k js_number_fixed_digits [OF y(1)] js_number_fixed_digits [OF y(2)] js_number_fixed_digits [OF y(3)]
    using assms utc_month_day(1,3) [of n] by simp
qed

lemma month_length_bounds: "0 \<le> m \<Longrightarrow> m < 12 \<Longrightarrow> 28 \<le> month_lengths y ! nat m"
  by (rule month_lengths_pos [of _ y]) (simp add: nat_less_iff)

lemma last_day_of_month:
  assumes "0 \<le> m" "m < 12"
  shows "utc_date (make_day y (m + 1) 0) = month_lengths y ! nat m"
proof -
  have "make_day y (m + 1) 0 = make_day y m (month_lengths y ! nat m)"
  proof (cases "m = 11")
    case True
    have "sum_list (month_lengths y) = sum_list (take 11 (month_lengths y)) + month_lengths y ! 11"
      using month_prefix_next [of 11 y] by simp
    with True show ?thesis by (simp add: make_day_def day_from_next_year sum_month_lengths)
  next
    case False
    with assms have "nat (m + 1) = Suc (nat m)" "nat m < 12" "(m + 1) div 12 = 0" "(m + 1) mod 12 = m + 1" by simp_all
    with assms show ?thesis by (simp add: make_day_def month_prefix_next)
  qed
  moreover have "valid_date y m (month_lengths y ! nat m)"
    using assms month_length_bounds [OF assms, of y] by (simp add: valid_date_def)
  ultimately show ?thesis by (simp add: make_day_fields(3))
qed

lemma make_day_normal: "make_day y m d = make_day (y + m div 12) (m mod 12) d"
  by (simp add: make_day_def Let_def)

text \<open>The date \<open>k\<close> months after a day: its day of the month, or the last of a shorter month.\<close>

definition months_after :: "int \<Rightarrow> int \<Rightarrow> int \<times> int \<times> int" where
  "months_after n k =
     (let y = utc_year n + (utc_month n + k) div 12; m = (utc_month n + k) mod 12
      in (y, m, min (utc_date n) (month_lengths y ! nat m)))"

lemma add_months:
  assumes "100 \<le> utc_year n" and "utc_year n \<le> 9999" and "0 \<le> k"
  shows "\<exists>r. add_calendar_months (iso_date n) k = Some (iso_date r) \<and> civil r = months_after n k"
proof -
  define y where "y = utc_year n + (utc_month n + k) div 12"
  define m where "m = (utc_month n + k) mod 12"
  let ?r = "make_day y m (min (utc_date n) (month_lengths y ! nat m))"
  have m: "0 \<le> m" "m < 12" by (simp_all add: m_def)
  have y: "100 \<le> y"
    using assms(1,3) utc_month_day(1) [of n] by (simp add: y_def pos_imp_zdiv_nonneg_iff add_increasing2)
  have len: "28 \<le> month_lengths y ! nat m" by (rule month_length_bounds [OF m])
  have t: "valid_date y m 1" "valid_date y m (min (utc_date n) (month_lengths y ! nat m))"
    using m len utc_month_day(3) [of n] by (simp_all add: valid_date_def)
  have target: "date_utc (utc_year n) (utc_month n + 1 - 1 + k) 1 = make_day y m 1"
    using assms(1) make_day_normal [of "utc_year n" "utc_month n + k" 1] by (simp add: date_utc_def y_def m_def)
  have "date_utc y (m + 1) 0 = make_day y (m + 1) 0" using y by (simp add: date_utc_def)
  then have "add_calendar_months (iso_date n) k = Some (iso_date ?r)"
    using assms(1,2) target
    by (simp add: add_calendar_months_def iso_date_numbers make_day_fields [OF t(1)] last_day_of_month [OF m] Let_def)
  moreover have "civil ?r = months_after n k"
    by (simp add: civil_def months_after_def Let_def make_day_fields [OF t(2)] y_def [symmetric] m_def [symmetric])
  ultimately show ?thesis by blast
qed

section \<open>Properties\<close>

text \<open>Adding calendar months to a date keeps its day of the month, or clamps it to the last day of a
  shorter month, and carries over years; so the result is a date of the intended month.\<close>

theorem add_calendar_months_clamps:
  assumes "100 \<le> utc_year n" and "utc_year n \<le> 9999" and "0 \<le> k"
    and "y = utc_year n + (utc_month n + k) div 12" and "m = (utc_month n + k) mod 12"
  shows "\<exists>r. add_calendar_months (iso_date n) k = Some (iso_date r) \<and>
    civil r = (y, m, min (utc_date n) (month_lengths y ! nat m))"
  using add_months [OF assms(1,2,3)] unfolding months_after_def Let_def assms(4,5) .

text \<open>2026-11-30 and three months: 2027-02-28.\<close>

theorem add_calendar_months_clamps_witness:
  "\<exists>r. add_calendar_months (iso_date 20787) 3 = Some (iso_date r) \<and> civil r = (2027, 1, 28)"
proof -
  have "civil 20787 = (2026, 10, 30)" by code_simp
  then show ?thesis
    using add_calendar_months_clamps [of 20787 3 2027 1] by (simp add: civil_def month_lengths_def leap_year_def)
qed

text \<open>C35: The date texts the program stores and compares as strings are in the order of the days they name.\<close>

theorem utc_dates_compare:
  assumes "0 \<le> utc_year (day_of_time a)" "utc_year (day_of_time a) \<le> 9999"
    and "0 \<le> utc_year (day_of_time b)" "utc_year (day_of_time b) \<le> 9999"
  shows "(to_utc_date a < to_utc_date b \<longleftrightarrow> a div 86400000 < b div 86400000) \<and>
    (to_utc_date a = to_utc_date b \<longleftrightarrow> a div 86400000 = b div 86400000)"
  using iso_date_less [OF assms] iso_date_le [OF assms] iso_date_le [OF assms(3,4,1,2)]
  unfolding to_utc_date_def day_of_time_def by (metis order_antisym_conv order_eq_refl)

theorem utc_dates_compare_witness: "to_utc_date 0 < to_utc_date 86400000"
proof -
  have "utc_year (day_of_time 0) = 1970" "utc_year (day_of_time 86400000) = 1970" by code_simp+
  then show ?thesis using utc_dates_compare [of 0 86400000] by simp
qed

end
