(* ===== verification/LeadScores.thy ===== *)
theory LeadScores
  imports UtcDates Stores
begin

text \<open>
  Lead scoring: the answers, signals and scores of \<open>domain/leads\<close>, their three repositories in
  \<open>infrastructure/persistence/leads\<close>, and \<open>computeLeadScore\<close>. A due date is its text \<open>YYYY-MM-DD\<close>.
\<close>

section \<open>Data\<close>

datatype persona = Apprentice | Intern | Student | PersonaOther

datatype deliverable_type = Thesis | ApprenticeshipReport | InternshipReport | DeliverableOther

datatype academic_level = L3 | M1 | M2 | LevelOther

datatype work_tool = TrelloTool | NotionTool | Teams | Slack | EmailTool | Drive | ToolOther

datatype blocker = GettingStarted | FindingPastWork | Structuring | Writing | LackOfTime

datatype acquisition_channel = Friend | School | Tiktok | Instagram | Linkedin | Google | ChannelOther

datatype lead_signal_type = ExportPaywallHit

datatype lead_tier = Hot | Warm | Cold

datatype lead_action = InterviewAndProOffer | ScheduledEmails | Newsletter | NoOutreach

datatype score_rule =
    DueWithin3Months
  | DueWithin3To6Months
  | PersonaApprentice
  | PersonaIntern
  | CitedTrello
  | ConnectedTool
  | ExportPaywallRule

record onboarding_profile =
  op_userId :: ident
  op_persona :: persona
  op_deliverableType :: deliverable_type
  op_dueDate :: js_string
  op_academicLevel :: academic_level
  op_schoolName :: "js_string option"
  op_workTools :: "work_tool list"
  op_blockers :: "blocker list"
  op_acquisitionChannel :: acquisition_channel
  op_marketingOptIn :: bool
  op_marketingOptInAt :: time
  op_submittedAt :: time
  op_createdAt :: time
  op_updatedAt :: time

record submit_onboarding_data =
  so_userId :: ident
  so_persona :: persona
  so_deliverableType :: deliverable_type
  so_dueDate :: js_string
  so_academicLevel :: academic_level
  so_schoolName :: "js_string option"
  so_workTools :: "work_tool list"
  so_blockers :: "blocker list"
  so_acquisitionChannel :: acquisition_channel
  so_marketingOptIn :: bool

record lead_signal =
  ls_id :: ident
  ls_userId :: ident
  ls_type :: lead_signal_type
  ls_firstSeenAt :: time
  ls_lastSeenAt :: time
  ls_occurrences :: int

record lead_score_facts =
  lf_persona :: "persona option"
  lf_dueDate :: "js_string option"
  lf_workTools :: "work_tool list option"
  lf_hasActiveConnector :: bool
  lf_hasPaywallSignal :: bool

record lead_score_result =
  sc_score :: int
  sc_tier :: lead_tier
  sc_breakdown :: "(score_rule \<times> int) list"

record lead_score_row =
  sr_userId :: ident
  sr_result :: lead_score_result
  sr_computedAt :: time

section \<open>Score\<close>

definition tier_for_score :: "int \<Rightarrow> lead_tier" where
  "tier_for_score score = (if 8 \<le> score then Hot else if 4 \<le> score then Warm else Cold)"

text \<open>The rule on the due date. \<open>None\<close>: \<open>addCalendarMonths\<close> throws.\<close>

definition due_rule :: "js_string option \<Rightarrow> js_string \<Rightarrow> (score_rule \<times> int) list option" where
  "due_rule due today =
     (case due of
        None \<Rightarrow> Some []
      | Some d \<Rightarrow>
          (if d \<noteq> [] \<and> today \<le> d
           then
             (case add_calendar_months today 3 of
                None \<Rightarrow> None
              | Some in3 \<Rightarrow>
                  (if d < in3 then Some [(DueWithin3Months, 3)]
                   else
                     (case add_calendar_months today 6 of
                        None \<Rightarrow> None
                      | Some in6 \<Rightarrow> Some (if d \<le> in6 then [(DueWithin3To6Months, 2)] else []))))
           else Some []))"

definition compute_lead_score :: "lead_score_facts \<Rightarrow> time \<Rightarrow> lead_score_result option" where
  "compute_lead_score facts now =
     (case due_rule (lf_dueDate facts) (to_utc_date now) of
        None \<Rightarrow> None
      | Some due \<Rightarrow>
          (let breakdown = due @
                 (if lf_persona facts = Some Apprentice then [(PersonaApprentice, 2)] else []) @
                 (if lf_persona facts = Some Intern then [(PersonaIntern, 1)] else []) @
                 (case lf_workTools facts of
                    None \<Rightarrow> [] | Some tools \<Rightarrow> if TrelloTool \<in> set tools then [(CitedTrello, 2)] else []) @
                 (if lf_hasActiveConnector facts then [(ConnectedTool, 3)] else []) @
                 (if lf_hasPaywallSignal facts then [(ExportPaywallRule, 3)] else []);
               score = foldl (\<lambda>sum entry. sum + snd entry) 0 breakdown
           in Some \<lparr>sc_score = score, sc_tier = tier_for_score score, sc_breakdown = breakdown\<rparr>))"

fun action_by_tier :: "lead_tier \<Rightarrow> lead_action" where
  "action_by_tier Hot = InterviewAndProOffer"
| "action_by_tier Warm = ScheduledEmails"
| "action_by_tier Cold = Newsletter"

definition suggested_action :: "lead_tier \<Rightarrow> bool \<Rightarrow> lead_action" where
  "suggested_action tier opt_in = (if opt_in then action_by_tier tier else NoOutreach)"

section \<open>Repositories\<close>

definition find_profile :: "ident \<Rightarrow> onboarding_profile list \<Rightarrow> onboarding_profile option" where
  "find_profile u t = find (\<lambda>p. op_userId p = u) t"

definition new_profile :: "submit_onboarding_data \<Rightarrow> time \<Rightarrow> onboarding_profile" where
  "new_profile x now = \<lparr>op_userId = so_userId x, op_persona = so_persona x,
     op_deliverableType = so_deliverableType x, op_dueDate = so_dueDate x, op_academicLevel = so_academicLevel x,
     op_schoolName = so_schoolName x, op_workTools = so_workTools x, op_blockers = so_blockers x,
     op_acquisitionChannel = so_acquisitionChannel x, op_marketingOptIn = so_marketingOptIn x,
     op_marketingOptInAt = now, op_submittedAt = now, op_createdAt = now, op_updatedAt = now\<rparr>"

text \<open>The \<open>CASE\<close> of both statements.\<close>

definition opt_in_time :: "bool \<Rightarrow> time \<Rightarrow> onboarding_profile \<Rightarrow> time" where
  "opt_in_time opt_in now p = (if op_marketingOptIn p \<noteq> opt_in then now else op_marketingOptInAt p)"

definition upsert_profile ::
    "submit_onboarding_data \<Rightarrow> time \<Rightarrow> onboarding_profile list \<Rightarrow> onboarding_profile \<times> onboarding_profile list" where
  "upsert_profile x now t =
     (case find_profile (so_userId x) t of
        None \<Rightarrow> (new_profile x now, t @ [new_profile x now])
      | Some p \<Rightarrow>
          (let p' = (new_profile x now)\<lparr>op_marketingOptInAt := opt_in_time (so_marketingOptIn x) now p, op_createdAt := op_createdAt p\<rparr>
           in (p', sql_update (\<lambda>q. op_userId q = so_userId x) (\<lambda>_. p') t)))"

definition update_consent_row ::
    "ident \<Rightarrow> bool \<Rightarrow> time \<Rightarrow> onboarding_profile list \<Rightarrow> onboarding_profile option \<times> onboarding_profile list" where
  "update_consent_row u opt_in now t =
     (let t' = sql_update (\<lambda>p. op_userId p = u)
        (\<lambda>p. p\<lparr>op_marketingOptInAt := opt_in_time opt_in now p, op_marketingOptIn := opt_in, op_updatedAt := now\<rparr>) t
      in (find_profile u t', t'))"

text \<open>\<open>record\<close>: the unique index on user and type makes the insert an update of the one row.\<close>

definition record_signal :: "ident \<Rightarrow> ident \<Rightarrow> lead_signal_type \<Rightarrow> time \<Rightarrow> lead_signal list \<Rightarrow> lead_signal list" where
  "record_signal new_id u ty now t =
     (if list_ex (\<lambda>s. ls_userId s = u \<and> ls_type s = ty) t
      then sql_update (\<lambda>s. ls_userId s = u \<and> ls_type s = ty)
        (\<lambda>s. s\<lparr>ls_occurrences := ls_occurrences s + 1, ls_lastSeenAt := max (ls_lastSeenAt s) now\<rparr>) t
      else t @ [\<lparr>ls_id = new_id, ls_userId = u, ls_type = ty, ls_firstSeenAt = now, ls_lastSeenAt = now, ls_occurrences = 1\<rparr>])"

definition find_signals :: "ident \<Rightarrow> lead_signal list \<Rightarrow> lead_signal list" where
  "find_signals u t = sort_key ls_firstSeenAt (filter (\<lambda>s. ls_userId s = u) t)"

definition find_score :: "ident \<Rightarrow> lead_score_row list \<Rightarrow> lead_score_row option" where
  "find_score u t = find (\<lambda>r. sr_userId r = u) t"

definition save_if_newer :: "ident \<Rightarrow> lead_score_result \<Rightarrow> time \<Rightarrow> lead_score_row list \<Rightarrow> lead_score_row list" where
  "save_if_newer u result computed_at t =
     (let row = \<lparr>sr_userId = u, sr_result = result, sr_computedAt = computed_at\<rparr> in
      if find_score u t = None then t @ [row]
      else sql_update (\<lambda>r. sr_userId r = u \<and> sr_computedAt r \<le> computed_at) (\<lambda>_. row) t)"

section \<open>Lemmas\<close>

lemma foldl_points: "foldl (\<lambda>sum entry. sum + snd entry) n xs = n + sum_list (map snd xs)" for n :: int
  by (induction xs arbitrary: n) simp_all

lemma find_save_if_newer:
  "find_score u (save_if_newer v result at' t) =
    (if u = v
     then (case find_score u t of
             Some r \<Rightarrow> if at' < sr_computedAt r then Some r else Some \<lparr>sr_userId = u, sr_result = result, sr_computedAt = at'\<rparr>
           | None \<Rightarrow> Some \<lparr>sr_userId = u, sr_result = result, sr_computedAt = at'\<rparr>)
     else find_score u t)"
proof -
  have row: "find (\<lambda>r. sr_userId r = w) (sql_update (\<lambda>r. sr_userId r = v \<and> sr_computedAt r \<le> at') (\<lambda>_. x) t) =
      (case find (\<lambda>r. sr_userId r = w) t of
         Some r \<Rightarrow> Some (if w = v \<and> sr_computedAt r \<le> at' then x else r) | None \<Rightarrow> None)" if "sr_userId x = v" for x w
    by (induction t) (use that in auto)
  show ?thesis
    by (auto simp: save_if_newer_def find_score_def Let_def find_append row split: option.split)
qed

lemma find_upsert_profile:
  "find_profile (so_userId x) (snd (upsert_profile x now t)) = Some (fst (upsert_profile x now t)) \<and>
   op_userId (fst (upsert_profile x now t)) = so_userId x \<and> op_dueDate (fst (upsert_profile x now t)) = so_dueDate x"
proof -
  have row: "find (\<lambda>p. op_userId p = u) (sql_update (\<lambda>q. op_userId q = u) (\<lambda>_. y) t) =
      map_option (\<lambda>_. y) (find (\<lambda>p. op_userId p = u) t)" if "op_userId y = u" for u y
    by (induction t) (use that in auto)
  show ?thesis
    by (cases "find_profile (so_userId x) t")
      (auto simp: upsert_profile_def find_profile_def Let_def new_profile_def find_append row)
qed

text \<open>The parts of a breakdown.\<close>

definition persona_points :: "persona option \<Rightarrow> (score_rule \<times> int) list" where
  "persona_points p = (if p = Some Apprentice then [(PersonaApprentice, 2)] else []) @
     (if p = Some Intern then [(PersonaIntern, 1)] else [])"

definition tool_points :: "work_tool list option \<Rightarrow> (score_rule \<times> int) list" where
  "tool_points ts = (case ts of None \<Rightarrow> [] | Some tools \<Rightarrow> if TrelloTool \<in> set tools then [(CitedTrello, 2)] else [])"

definition flag_points :: "score_rule \<Rightarrow> bool \<Rightarrow> (score_rule \<times> int) list" where
  "flag_points rule b = (if b then [(rule, 3)] else [])"

lemma persona_points_cases: "persona_points p \<in> {[], [(PersonaApprentice, 2)], [(PersonaIntern, 1)]}"
  and persona_points_sum: "sum_list (map snd (persona_points p)) = (if p = Some Apprentice then 2 else if p = Some Intern then 1 else 0)"
  by (simp_all add: persona_points_def)

lemma tool_points_cases: "tool_points ts \<in> {[], [(CitedTrello, 2)]}"
  and tool_points_sum: "sum_list (map snd (tool_points ts)) = (if TrelloTool \<in> set (case ts of None \<Rightarrow> [] | Some us \<Rightarrow> us) then 2 else 0)"
  by (simp_all add: tool_points_def split: option.split)

lemma compute_lead_score_parts:
  assumes "due_rule (lf_dueDate facts) (to_utc_date now) = Some d"
  shows "\<exists>r. compute_lead_score facts now = Some r \<and> sc_tier r = tier_for_score (sc_score r) \<and>
    sc_score r = sum_list (map snd (sc_breakdown r)) \<and>
    sc_breakdown r = d @ persona_points (lf_persona facts) @ tool_points (lf_workTools facts) @
      flag_points ConnectedTool (lf_hasActiveConnector facts) @ flag_points ExportPaywallRule (lf_hasPaywallSignal facts)"
  unfolding compute_lead_score_def assms
  by (simp add: Let_def foldl_points persona_points_def tool_points_def flag_points_def)

text \<open>What the store of scores does for one user.\<close>

fun newest :: "ident \<Rightarrow> time \<times> lead_score_result \<Rightarrow> lead_score_row option \<Rightarrow> lead_score_row option" where
  "newest u (at', result) None = Some \<lparr>sr_userId = u, sr_result = result, sr_computedAt = at'\<rparr>"
| "newest u (at', result) (Some r) =
     (if at' < sr_computedAt r then Some r else Some \<lparr>sr_userId = u, sr_result = result, sr_computedAt = at'\<rparr>)"

abbreviation save_runs :: "ident \<Rightarrow> (time \<times> lead_score_result) list \<Rightarrow> lead_score_row list \<Rightarrow> lead_score_row list" where
  "save_runs u \<equiv> fold (\<lambda>(at', result). save_if_newer u result at')"

lemma find_save_runs: "find_score u (save_runs u runs t) = fold (newest u) runs (find_score u t)"
proof (induction runs arbitrary: t)
  case (Cons run runs)
  obtain at' result where run: "run = (at', result)" by force
  show ?case unfolding run fold_simps comp_apply prod.case Cons.IH
    by (cases "find_score u t") (simp_all add: find_save_if_newer)
qed simp

lemma newest_commute: "fst a \<noteq> fst b \<Longrightarrow> newest u a \<circ> newest u b = newest u b \<circ> newest u a"
proof
  fix r
  assume "fst a \<noteq> fst b"
  then show "(newest u a \<circ> newest u b) r = (newest u b \<circ> newest u a) r"
    by (cases a; cases b; cases r) auto
qed

lemma newest_bound:
  "\<exists>r'. newest u run r = Some r' \<and> fst run \<le> sr_computedAt r' \<and> (\<forall>q. r = Some q \<longrightarrow> sr_computedAt q \<le> sr_computedAt r')"
  by (cases run; cases r) auto

lemma fold_newest_keeps:
  "\<exists>r'. fold (newest u) runs (Some r) = Some r' \<and> sr_computedAt r \<le> sr_computedAt r' \<and>
     list_all (\<lambda>run. fst run \<le> sr_computedAt r') runs"
proof (induction runs arbitrary: r)
  case (Cons run runs)
  obtain q where q: "newest u run (Some r) = Some q" "fst run \<le> sr_computedAt q" "sr_computedAt r \<le> sr_computedAt q"
    using newest_bound [of u run "Some r"] by auto
  from Cons.IH [of q] obtain r' where "fold (newest u) runs (Some q) = Some r'" "sr_computedAt q \<le> sr_computedAt r'"
    "list_all (\<lambda>run. fst run \<le> sr_computedAt r') runs" by blast
  with q show ?case by auto
qed simp

lemma due_rule_days:
  assumes today: "100 \<le> utc_year n" "utc_year n \<le> 9998"
    and due: "pred_option (\<lambda>d. 0 \<le> utc_year d \<and> utc_year d \<le> 9999) due"
  shows "\<exists>in3 in6. civil in3 = months_after n 3 \<and> civil in6 = months_after n 6 \<and>
    due_rule (map_option iso_date due) (iso_date n) = Some
      (case due of
         None \<Rightarrow> []
       | Some d \<Rightarrow> if d < n then [] else if d < in3 then [(DueWithin3Months, 3)]
           else if d \<le> in6 then [(DueWithin3To6Months, 2)] else [])"
proof -
  have n: "utc_year n \<le> 9999" "0 \<le> utc_year n" using today by simp_all
  obtain in3 where in3: "add_calendar_months (iso_date n) 3 = Some (iso_date in3)" "civil in3 = months_after n 3"
    using add_months [OF today(1) n(1), of 3] by auto
  obtain in6 where in6: "add_calendar_months (iso_date n) 6 = Some (iso_date in6)" "civil in6 = months_after n 6"
    using add_months [OF today(1) n(1), of 6] by auto
  have year: "0 \<le> utc_year r \<and> utc_year r \<le> 9999" if "civil r = months_after n k" "0 \<le> k" "k \<le> 6" for r k
  proof -
    have "utc_year r = utc_year n + (utc_month n + k) div 12" using that(1) by (simp add: civil_def months_after_def Let_def)
    moreover have "0 \<le> (utc_month n + k) div 12" "(utc_month n + k) div 12 \<le> 1"
      using that(2,3) utc_month_day(1,2) [of n] by linarith+
    ultimately show ?thesis using today by linarith
  qed
  have texts: "iso_date d \<noteq> []" "iso_date n \<le> iso_date d \<longleftrightarrow> n \<le> d" "iso_date d < iso_date in3 \<longleftrightarrow> d < in3"
    "iso_date d \<le> iso_date in6 \<longleftrightarrow> d \<le> in6" if "due = Some d" for d
    using that due n iso_date_text [of d] iso_date_le [of n d] iso_date_less [of d in3] iso_date_le [of d in6]
      year [OF in3(2)] year [OF in6(2)] by simp_all
  have "due_rule (map_option iso_date due) (iso_date n) = Some
      (case due of
         None \<Rightarrow> []
       | Some d \<Rightarrow> if d < n then [] else if d < in3 then [(DueWithin3Months, 3)]
           else if d \<le> in6 then [(DueWithin3To6Months, 2)] else [])"
    by (cases due) (simp_all add: due_rule_def texts in3(1) in6(1))
  with in3(2) in6(2) show ?thesis by blast
qed

section \<open>Properties\<close>

text \<open>C33: The score of a lead: 3 points for a due date from today to before the same day three calendar
  months on, 2 up to and including six months, 2 for an apprentice or 1 for an intern, 2 for citing Trello,
  3 each for a connected tool and the paywall. It is the sum of its breakdown, which names no rule twice,
  is between 0 and 13, gives the tier, and scoring does not fail.\<close>

theorem lead_score_explained:
  assumes "100 \<le> utc_year (day_of_time now)" and "utc_year (day_of_time now) \<le> 9998"
    and "lf_dueDate facts = map_option iso_date due" and "pred_option (\<lambda>d. 0 \<le> utc_year d \<and> utc_year d \<le> 9999) due"
  shows "\<exists>r in3 in6. compute_lead_score facts now = Some r \<and>
    civil in3 = months_after (day_of_time now) 3 \<and> civil in6 = months_after (day_of_time now) 6 \<and>
    sc_score r =
      (case due of
         None \<Rightarrow> 0
       | Some d \<Rightarrow> if d < day_of_time now then 0 else if d < in3 then 3 else if d \<le> in6 then 2 else 0) +
      (if lf_persona facts = Some Apprentice then 2 else if lf_persona facts = Some Intern then 1 else 0) +
      (if TrelloTool \<in> set (case lf_workTools facts of None \<Rightarrow> [] | Some ts \<Rightarrow> ts) then 2 else 0) +
      (if lf_hasActiveConnector facts then 3 else 0) + (if lf_hasPaywallSignal facts then 3 else 0) \<and>
    sc_score r = sum_list (map snd (sc_breakdown r)) \<and> distinct (map fst (sc_breakdown r)) \<and>
    0 \<le> sc_score r \<and> sc_score r \<le> 13 \<and> sc_tier r = tier_for_score (sc_score r)"
proof -
  obtain in3 in6 where due: "civil in3 = months_after (day_of_time now) 3" "civil in6 = months_after (day_of_time now) 6"
    "due_rule (lf_dueDate facts) (to_utc_date now) = Some
      (case due of
         None \<Rightarrow> []
       | Some d \<Rightarrow> if d < day_of_time now then [] else if d < in3 then [(DueWithin3Months, 3)]
           else if d \<le> in6 then [(DueWithin3To6Months, 2)] else [])"
    using due_rule_days [OF assms(1,2,4)] unfolding assms(3) to_utc_date_def by blast
  let ?d = "case due of
      None \<Rightarrow> []
    | Some d \<Rightarrow> if d < day_of_time now then [] else if d < in3 then [(DueWithin3Months, 3)]
        else if d \<le> in6 then [(DueWithin3To6Months, 2 :: int)] else []"
  have d: "?d \<in> {[], [(DueWithin3Months, 3)], [(DueWithin3To6Months, 2)]}"
    "sum_list (map snd ?d) = (case due of
         None \<Rightarrow> 0
       | Some d \<Rightarrow> if d < day_of_time now then 0 else if d < in3 then 3 else if d \<le> in6 then 2 else 0)"
    by (simp_all split: option.split)
  obtain r where r: "compute_lead_score facts now = Some r" "sc_tier r = tier_for_score (sc_score r)"
    "sc_score r = sum_list (map snd (sc_breakdown r))"
    "sc_breakdown r = ?d @ persona_points (lf_persona facts) @ tool_points (lf_workTools facts) @
       flag_points ConnectedTool (lf_hasActiveConnector facts) @ flag_points ExportPaywallRule (lf_hasPaywallSignal facts)"
    using compute_lead_score_parts [OF due(3)] by blast
  note parts = persona_points_cases [of "lf_persona facts"] tool_points_cases [of "lf_workTools facts"]
  have "distinct (map fst (sc_breakdown r)) \<and> 0 \<le> sc_score r \<and> sc_score r \<le> 13"
    unfolding r(3,4) using d(1) parts by (elim insertE disjE emptyE) (simp_all add: flag_points_def)
  moreover have "sc_score r = sum_list (map snd ?d) + sum_list (map snd (persona_points (lf_persona facts))) +
      sum_list (map snd (tool_points (lf_workTools facts))) +
      (if lf_hasActiveConnector facts then 3 else 0) + (if lf_hasPaywallSignal facts then 3 else 0)"
    unfolding r(3,4) by (simp add: flag_points_def)
  ultimately show ?thesis
    using r(1-3) due(1,2) unfolding d(2) persona_points_sum tool_points_sum by blast
qed

theorem lead_score_explained_witness:
  "\<exists>r. compute_lead_score \<lparr>lf_persona = Some Apprentice, lf_dueDate = Some (iso_date 20499), lf_workTools = Some [TrelloTool],
     lf_hasActiveConnector = True, lf_hasPaywallSignal = False\<rparr> (20500 * 86400000) = Some r \<and> sc_score r = 7 \<and> sc_tier r = Warm"
proof -
  have "utc_year 20500 = 2026" "utc_year 20499 = 2026" by code_simp+
  then show ?thesis
    using lead_score_explained [of "20500 * 86400000" "\<lparr>lf_persona = Some Apprentice, lf_dueDate = Some (iso_date 20499),
      lf_workTools = Some [TrelloTool], lf_hasActiveConnector = True, lf_hasPaywallSignal = False\<rparr>" "Some 20499"]
    by (auto simp: day_of_time_def tier_for_score_def)
qed

text \<open>Recalculations of one lead's score may finish in any order: the stored score is the one of the
  run that started last, whatever the order in which the runs save.\<close>

theorem newest_score_kept:
  assumes "mset runs = mset runs'" and "distinct (map fst runs)"
  shows "find_score u (save_runs u runs t) = find_score u (save_runs u runs' t) \<and>
    (\<forall>run \<in> set runs. \<exists>r. find_score u (save_runs u runs t) = Some r \<and> fst run \<le> sr_computedAt r)"
proof -
  have "fold (newest u) runs = fold (newest u) runs'"
  proof (rule fold_multiset_equiv [OF _ assms(1)])
    fix a b
    assume "a \<in> set runs" "b \<in> set runs"
    with assms(2) show "newest u a \<circ> newest u b = newest u b \<circ> newest u a"
      using newest_commute [of a b u] by (cases "a = b") (auto simp: distinct_map inj_on_def)
  qed
  moreover have "\<exists>r. fold (newest u) runs q = Some r \<and> fst run \<le> sr_computedAt r" if mem: "run \<in> set runs" for run q
  proof -
    obtain a as where runs: "runs = a # as" using mem by (cases runs) auto
    obtain p where p: "newest u a q = Some p" "fst a \<le> sr_computedAt p" using newest_bound [of u a q] by blast
    from fold_newest_keeps [of u as p] p mem show ?thesis unfolding runs by (fastforce simp: list_all_iff)
  qed
  ultimately show ?thesis by (simp add: find_save_runs)
qed

theorem newest_score_kept_witness:
  "find_score (js ''u'') (save_runs (js ''u'') [(1, \<lparr>sc_score = 3, sc_tier = Cold, sc_breakdown = [(ConnectedTool, 3)]\<rparr>),
     (2, \<lparr>sc_score = 0, sc_tier = Cold, sc_breakdown = []\<rparr>)] []) =
   find_score (js ''u'') (save_runs (js ''u'') [(2, \<lparr>sc_score = 0, sc_tier = Cold, sc_breakdown = []\<rparr>),
     (1, \<lparr>sc_score = 3, sc_tier = Cold, sc_breakdown = [(ConnectedTool, 3)]\<rparr>)] [])"
  using newest_score_kept [of "[(1, \<lparr>sc_score = 3, sc_tier = Cold, sc_breakdown = [(ConnectedTool, 3)]\<rparr>),
     (2, \<lparr>sc_score = 0, sc_tier = Cold, sc_breakdown = []\<rparr>)]" "[(2, \<lparr>sc_score = 0, sc_tier = Cold, sc_breakdown = []\<rparr>),
     (1, \<lparr>sc_score = 3, sc_tier = Cold, sc_breakdown = [(ConnectedTool, 3)]\<rparr>)]" "js ''u''" "[]"] by simp

end
