(* ===== verification/Leads.thy ===== *)
theory Leads
  imports LeadScores Users Connectors "HOL-Library.Product_Lexorder"
begin

text \<open>
  The lead read model (\<open>lead-read.typeorm.repository.ts\<close>), its statistics (\<open>lead-stats.ts\<close>) and the
  use-cases of \<open>application/leads\<close>. The repository of scores, answers and signals is \<open>LeadScores\<close>; users
  and connections are those of \<open>Users\<close> and \<open>Connectors\<close>.
\<close>

section \<open>Read model\<close>

record leads_state =
  ld_profiles :: "onboarding_profile list"
  ld_signals :: "lead_signal list"
  ld_scores :: "lead_score_row list"
  ld_users :: "user_row list"
  ld_conns :: "connection list"

record lead_row =
  lr_userId :: ident
  lr_email :: js_string
  lr_displayName :: js_string
  lr_score :: int
  lr_tier :: lead_tier
  lr_breakdown :: "(score_rule \<times> int) list"
  lr_scoreComputedAt :: "time option"
  lr_onboardingCompleted :: bool
  lr_persona :: "persona option"
  lr_deliverableType :: "deliverable_type option"
  lr_dueDate :: "js_string option"
  lr_academicLevel :: "academic_level option"
  lr_workTools :: "work_tool list option"
  lr_blockers :: "blocker list option"
  lr_acquisitionChannel :: "acquisition_channel option"
  lr_marketingOptIn :: bool
  lr_hasActiveConnector :: bool
  lr_hasPaywallSignal :: bool
  lr_registeredAt :: time
  lr_lastActiveAt :: "time option"

record lead_list_filter =
  lq_tier :: "lead_tier option"
  lq_onboardingCompleted :: "bool option"
  lq_marketingOptIn :: "bool option"
  lq_page :: int
  lq_limit :: int

text \<open>\<open>FROM_ELIGIBLE\<close> and \<open>SELECT_ROW\<close>: the joined tables have at most one row of a user.\<close>

definition eligible :: "user_row \<Rightarrow> bool" where
  "eligible u \<longleftrightarrow> ur_role u = js ''user'' \<and> ur_disabled_at u = None"

definition select_row :: "leads_state \<Rightarrow> user_row \<Rightarrow> lead_row" where
  "select_row s u =
     (let op = find_profile (ur_id u) (ld_profiles s); ls = find_score (ur_id u) (ld_scores s) in
      \<lparr>lr_userId = ur_id u, lr_email = ur_email u, lr_displayName = ur_display_name u,
       lr_score = (case ls of None \<Rightarrow> 0 | Some r \<Rightarrow> sc_score (sr_result r)),
       lr_tier = (case ls of None \<Rightarrow> Cold | Some r \<Rightarrow> sc_tier (sr_result r)),
       lr_breakdown = (case ls of None \<Rightarrow> [] | Some r \<Rightarrow> sc_breakdown (sr_result r)),
       lr_scoreComputedAt = map_option sr_computedAt ls,
       lr_onboardingCompleted = (op \<noteq> None),
       lr_persona = map_option op_persona op, lr_deliverableType = map_option op_deliverableType op,
       lr_dueDate = map_option op_dueDate op, lr_academicLevel = map_option op_academicLevel op,
       lr_workTools = map_option op_workTools op, lr_blockers = map_option op_blockers op,
       lr_acquisitionChannel = map_option op_acquisitionChannel op,
       lr_marketingOptIn = (case op of None \<Rightarrow> False | Some p \<Rightarrow> op_marketingOptIn p),
       lr_hasActiveConnector = list_ex (\<lambda>c. cc_userId c = ur_id u \<and> cc_status c = Active) (ld_conns s),
       lr_hasPaywallSignal = list_ex (\<lambda>g. ls_userId g = ur_id u \<and> ls_type g = ExportPaywallHit) (ld_signals s),
       lr_registeredAt = ur_created_at u, lr_lastActiveAt = Some (ur_last_active_at u)\<rparr>)"

definition find_all_eligible :: "leads_state \<Rightarrow> lead_row list" where
  "find_all_eligible s = map (select_row s) (filter eligible (ld_users s))"

definition find_eligible_by_user_id :: "ident \<Rightarrow> leads_state \<Rightarrow> lead_row option" where
  "find_eligible_by_user_id i s =
     (case filter (\<lambda>u. eligible u \<and> ur_id u = i) (ld_users s) of
        [] \<Rightarrow> None | u # _ \<Rightarrow> Some (select_row s u))"

definition matches_filter :: "lead_list_filter \<Rightarrow> lead_row \<Rightarrow> bool" where
  "matches_filter q r \<longleftrightarrow>
     (case lq_tier q of None \<Rightarrow> True | Some t \<Rightarrow> lr_tier r = t) \<and>
     (case lq_onboardingCompleted q of None \<Rightarrow> True | Some b \<Rightarrow> lr_onboardingCompleted r = b) \<and>
     (case lq_marketingOptIn q of None \<Rightarrow> True | Some b \<Rightarrow> lr_marketingOptIn r = b)"

text \<open>
  The order of the list: score descending, then due dates not before \<open>today\<close> before past ones and
  missing ones last, then the due date, then the id.
\<close>

definition lead_key :: "js_string \<Rightarrow> lead_row \<Rightarrow> int \<times> nat \<times> js_string \<times> js_string" where
  "lead_key today r =
     (- lr_score r,
      (case lr_dueDate r of None \<Rightarrow> 2 | Some d \<Rightarrow> if today \<le> d then 0 else 1),
      (case lr_dueDate r of None \<Rightarrow> [] | Some d \<Rightarrow> d),
      lr_userId r)"

definition list_rows :: "lead_list_filter \<Rightarrow> js_string \<Rightarrow> leads_state \<Rightarrow> lead_row list \<times> int" where
  "list_rows q today s =
     (let rows = filter (matches_filter q) (find_all_eligible s)
      in (take (nat (lq_limit q)) (drop (nat ((lq_page q - 1) * lq_limit q)) (sort_key (lead_key today) rows)),
          int (length rows)))"

section \<open>Statistics\<close>

record lead_stats =
  st_generatedAt :: time
  st_totalLeads :: nat
  st_tiers :: "lead_tier \<Rightarrow> nat"
  st_suggestedActions :: "lead_action \<Rightarrow> nat"
  st_notStarted :: nat
  st_completed :: nat
  st_marketingOptIn :: nat
  st_connectedTool :: nat
  st_signals :: "lead_signal_type \<Rightarrow> nat"
  st_persona :: "persona \<Rightarrow> nat"
  st_deliverableType :: "deliverable_type \<Rightarrow> nat"
  st_academicLevel :: "academic_level \<Rightarrow> nat"
  st_workTools :: "work_tool \<Rightarrow> nat"
  st_blockers :: "blocker \<Rightarrow> nat"
  st_acquisitionChannel :: "acquisition_channel \<Rightarrow> nat"

text \<open>A \<open>Record\<close> with a number for every key of an enum; \<open>counts[k] += 1\<close>.\<close>

definition zero_filled :: "'k \<Rightarrow> nat" where
  "zero_filled = (\<lambda>_. 0)"

definition bump :: "'k \<Rightarrow> ('k \<Rightarrow> nat) \<Rightarrow> 'k \<Rightarrow> nat" where
  "bump k c = c(k := c k + 1)"

definition bump_option :: "'k option \<Rightarrow> ('k \<Rightarrow> nat) \<Rightarrow> 'k \<Rightarrow> nat" where
  "bump_option v c = (case v of None \<Rightarrow> c | Some k \<Rightarrow> bump k c)"

text \<open>\<open>for (const k of new Set(ks ?? [])) counts[k] += 1\<close>, in insertion order.\<close>

definition bump_all :: "'k list option \<Rightarrow> ('k \<Rightarrow> nat) \<Rightarrow> 'k \<Rightarrow> nat" where
  "bump_all ks c = fold bump (rev (remdups (rev (case ks of None \<Rightarrow> [] | Some xs \<Rightarrow> xs)))) c"

definition empty_stats :: "nat \<Rightarrow> time \<Rightarrow> lead_stats" where
  "empty_stats n now = \<lparr>st_generatedAt = now, st_totalLeads = n, st_tiers = zero_filled,
     st_suggestedActions = zero_filled, st_notStarted = 0, st_completed = 0, st_marketingOptIn = 0,
     st_connectedTool = 0, st_signals = zero_filled, st_persona = zero_filled, st_deliverableType = zero_filled,
     st_academicLevel = zero_filled, st_workTools = zero_filled, st_blockers = zero_filled,
     st_acquisitionChannel = zero_filled\<rparr>"

definition count_answers :: "lead_row \<Rightarrow> lead_stats \<Rightarrow> lead_stats" where
  "count_answers r st = st\<lparr>
     st_persona := bump_option (lr_persona r) (st_persona st),
     st_deliverableType := bump_option (lr_deliverableType r) (st_deliverableType st),
     st_academicLevel := bump_option (lr_academicLevel r) (st_academicLevel st),
     st_acquisitionChannel := bump_option (lr_acquisitionChannel r) (st_acquisitionChannel st),
     st_workTools := bump_all (lr_workTools r) (st_workTools st),
     st_blockers := bump_all (lr_blockers r) (st_blockers st)\<rparr>"

definition count_row :: "lead_row \<Rightarrow> lead_stats \<Rightarrow> lead_stats" where
  "count_row r st =
     (let st1 = st\<lparr>
        st_tiers := bump (lr_tier r) (st_tiers st),
        st_suggestedActions := bump (suggested_action (lr_tier r) (lr_marketingOptIn r)) (st_suggestedActions st),
        st_completed := st_completed st + (if lr_onboardingCompleted r then 1 else 0),
        st_notStarted := st_notStarted st + (if lr_onboardingCompleted r then 0 else 1),
        st_marketingOptIn := st_marketingOptIn st + (if lr_marketingOptIn r then 1 else 0),
        st_connectedTool := st_connectedTool st + (if lr_hasActiveConnector r then 1 else 0),
        st_signals := (if lr_hasPaywallSignal r then bump ExportPaywallHit (st_signals st) else st_signals st)\<rparr>
      in if \<not> lr_onboardingCompleted r then st1 else count_answers r st1)"

definition compute_lead_stats :: "lead_row list \<Rightarrow> time \<Rightarrow> lead_stats" where
  "compute_lead_stats rows now = fold count_row rows (empty_stats (length rows) now)"

section \<open>Use-cases\<close>

definition default_leads_limit :: int where
  "default_leads_limit = 25"

definition max_leads_limit :: int where
  "max_leads_limit = 100"

definition max_leads_page :: int where
  "max_leads_page = 1000000000"

definition clamp :: "int \<Rightarrow> int \<Rightarrow> int \<Rightarrow> int" where
  "clamp v lo hi = min (max v lo) hi"

record list_leads_input =
  li_tier :: "lead_tier option"
  li_onboardingCompleted :: "bool option"
  li_marketingOptIn :: "bool option"
  li_page :: "int option"
  li_limit :: "int option"

record list_leads_result =
  lo_items :: "lead_row list"
  lo_total :: int
  lo_page :: int
  lo_limit :: int

definition list_leads :: "list_leads_input \<Rightarrow> time \<Rightarrow> leads_state \<Rightarrow> list_leads_result" where
  "list_leads inp now s =
     (let page = clamp (case li_page inp of None \<Rightarrow> 1 | Some p \<Rightarrow> p) 1 max_leads_page;
          limit = clamp (case li_limit inp of None \<Rightarrow> default_leads_limit | Some l \<Rightarrow> l) 1 max_leads_limit;
          (rows, n) = list_rows \<lparr>lq_tier = li_tier inp, lq_onboardingCompleted = li_onboardingCompleted inp,
            lq_marketingOptIn = li_marketingOptIn inp, lq_page = page, lq_limit = limit\<rparr> (to_utc_date now) s
      in \<lparr>lo_items = rows, lo_total = n, lo_page = page, lo_limit = limit\<rparr>)"

definition get_lead_stats :: "time \<Rightarrow> leads_state \<Rightarrow> lead_stats" where
  "get_lead_stats now s = compute_lead_stats (find_all_eligible s) now"

text \<open>\<open>GetLeadUseCase\<close>: the lead, its answers, the providers of its active connections, its signals.\<close>

definition get_lead ::
    "ident \<Rightarrow> leads_state \<Rightarrow> http_error + lead_row \<times> onboarding_profile option \<times> provider list \<times> lead_signal list" where
  "get_lead i s =
     (case find_eligible_by_user_id i s of
        None \<Rightarrow> Inl (NotFound (js ''Lead '' @ i @ js '' not found''))
      | Some lead \<Rightarrow> Inr (lead, find_profile i (ld_profiles s),
          map cc_provider (find_active_by_user i (ld_conns s)), find_signals i (ld_signals s)))"

definition lead_facts :: "ident \<Rightarrow> leads_state \<Rightarrow> lead_score_facts" where
  "lead_facts u s =
     (let profile = find_profile u (ld_profiles s) in
      \<lparr>lf_persona = map_option op_persona profile, lf_dueDate = map_option op_dueDate profile,
       lf_workTools = map_option op_workTools profile,
       lf_hasActiveConnector = (0 < length (find_active_by_user u (ld_conns s))),
       lf_hasPaywallSignal = list_ex (\<lambda>g. ls_type g = ExportPaywallHit) (find_signals u (ld_signals s))\<rparr>)"

text \<open>
  \<open>RecalculateLeadScoreUseCase\<close>: \<open>before\<close> is what others do before its reads, which see one state,
  \<open>meanwhile\<close> what they do between the reads and the write.
\<close>

definition recalculate ::
    "ident \<Rightarrow> time \<Rightarrow> (leads_state \<Rightarrow> leads_state) \<Rightarrow> (leads_state \<Rightarrow> leads_state) \<Rightarrow> leads_state \<Rightarrow>
     (http_error + unit) \<times> leads_state" where
  "recalculate u computed_at before meanwhile s =
     (let s1 = before s; s2 = meanwhile s1 in
      case compute_lead_score (lead_facts u s1) computed_at of
        None \<Rightarrow> (Inl (InternalError (js ''Invalid time value'')), s2)
      | Some result \<Rightarrow> (Inr (), s2\<lparr>ld_scores := save_if_newer u result computed_at (ld_scores s2)\<rparr>))"

definition record_lead_signal ::
    "ident \<Rightarrow> user_role \<Rightarrow> lead_signal_type \<Rightarrow> ident \<Rightarrow> time \<Rightarrow> time \<Rightarrow> (leads_state \<Rightarrow> leads_state) \<Rightarrow>
     (leads_state \<Rightarrow> leads_state) \<Rightarrow> leads_state \<Rightarrow> (http_error + unit) \<times> leads_state" where
  "record_lead_signal u role ty new_id now computed_at before meanwhile s =
     (if role = RoleAdmin then (Inr (), s)
      else recalculate u computed_at before meanwhile
        (s\<lparr>ld_signals := record_signal new_id u ty now (ld_signals s)\<rparr>))"

text \<open>\<open>others\<close>: what happens between the lookup of the stored answers and the upsert.\<close>

definition submit_onboarding ::
    "submit_onboarding_data \<Rightarrow> time \<Rightarrow> time \<Rightarrow> (leads_state \<Rightarrow> leads_state) \<Rightarrow> (leads_state \<Rightarrow> leads_state) \<Rightarrow>
     (leads_state \<Rightarrow> leads_state) \<Rightarrow> leads_state \<Rightarrow> (http_error + onboarding_profile) \<times> leads_state" where
  "submit_onboarding x now computed_at others before meanwhile s =
     (let existing = find_profile (so_userId x) (ld_profiles s) in
      if map_option op_dueDate existing \<noteq> Some (so_dueDate x) \<and> so_dueDate x < to_utc_date (now - 86400000)
      then (Inl (BadRequest (js ''due_date must not be in the past'')), s)
      else
        (let s1 = others s;
             (profile, t) = upsert_profile x now (ld_profiles s1)
         in case recalculate (so_userId x) computed_at before meanwhile (s1\<lparr>ld_profiles := t\<rparr>) of
              (Inl e, s2) \<Rightarrow> (Inl e, s2)
            | (Inr _, s2) \<Rightarrow> (Inr profile, s2)))"

definition update_consent ::
    "ident \<Rightarrow> bool \<Rightarrow> time \<Rightarrow> leads_state \<Rightarrow> (http_error + onboarding_profile) \<times> leads_state" where
  "update_consent u opt_in now s =
     (case update_consent_row u opt_in now (ld_profiles s) of
        (None, t) \<Rightarrow> (Inl (Conflict (js ''Submit onboarding before changing marketing consent'')), s\<lparr>ld_profiles := t\<rparr>)
      | (Some p, t) \<Rightarrow> (Inr p, s\<lparr>ld_profiles := t\<rparr>))"

text \<open>\<open>LeadScoreListener\<close>: a failure is logged and changes nothing for the request.\<close>

definition on_connector_changed ::
    "ident \<Rightarrow> time \<Rightarrow> (leads_state \<Rightarrow> leads_state) \<Rightarrow> (leads_state \<Rightarrow> leads_state) \<Rightarrow> leads_state \<Rightarrow> leads_state" where
  "on_connector_changed u computed_at before meanwhile s = snd (recalculate u computed_at before meanwhile s)"

section \<open>Lemmas\<close>

lemma concat_pages: "concat (map (\<lambda>p. take l (drop (p * l) xs)) [0..<n]) = take (n * l) xs"
proof (induction n)
  case (Suc n)
  have "take (Suc n * l) xs = take (n * l) xs @ take l (drop (n * l) xs)"
    by (metis add.commute mult_Suc take_add)
  with Suc show ?case by simp
qed simp

lemma bump_apply: "bump k c j = c j + (if j = k then 1 else 0)"
  by (simp add: bump_def)

lemma bump_option_apply: "bump_option v c j = c j + (if v = Some j then 1 else 0)"
  by (auto simp: bump_option_def bump_def split: option.split)

lemma fold_bump: "distinct ks \<Longrightarrow> fold bump ks c j = c j + (if j \<in> set ks then 1 else 0)"
  by (induction ks arbitrary: c) (auto simp: bump_def)

lemma bump_all_apply: "bump_all ks c j = c j + (if j \<in> set (case ks of None \<Rightarrow> [] | Some xs \<Rightarrow> xs) then 1 else 0)"
  by (simp add: bump_all_def fold_bump)

abbreviation count_of :: "('a \<Rightarrow> bool) \<Rightarrow> 'a list \<Rightarrow> nat" where
  "count_of p xs \<equiv> length (filter p xs)"

abbreviation answered :: "(lead_row \<Rightarrow> 'a list option) \<Rightarrow> 'a \<Rightarrow> lead_row \<Rightarrow> bool" where
  "answered f k r \<equiv> lr_onboardingCompleted r \<and> k \<in> set (case f r of None \<Rightarrow> [] | Some xs \<Rightarrow> xs)"

text \<open>A counter that every row raises by one or leaves, starting from a given value.\<close>

lemma fold_counter:
  assumes "\<And>r st. f (count_row r st) = f st + (if p r then 1 else 0)"
  shows "f (fold count_row rows st) = f st + count_of p rows"
  by (induction rows arbitrary: st) (simp_all add: assms)

lemmas count_row_simps = count_row_def count_answers_def Let_def bump_apply bump_option_apply bump_all_apply

lemma count_row_frame:
  "st_totalLeads (fold count_row rows st) = st_totalLeads st" "st_generatedAt (fold count_row rows st) = st_generatedAt st"
  by (induction rows arbitrary: st) (simp_all add: count_row_simps)

lemma empty_stats_zero [simp]:
  "st_totalLeads (empty_stats n now) = n" "st_tiers (empty_stats n now) k1 = 0" "st_suggestedActions (empty_stats n now) k2 = 0"
  "st_notStarted (empty_stats n now) = 0" "st_completed (empty_stats n now) = 0" "st_marketingOptIn (empty_stats n now) = 0"
  "st_connectedTool (empty_stats n now) = 0" "st_signals (empty_stats n now) k3 = 0" "st_persona (empty_stats n now) k4 = 0"
  "st_workTools (empty_stats n now) k5 = 0" "st_blockers (empty_stats n now) k6 = 0"
  "st_deliverableType (empty_stats n now) k7 = 0" "st_academicLevel (empty_stats n now) k8 = 0"
  "st_acquisitionChannel (empty_stats n now) k9 = 0"
  by (simp_all add: empty_stats_def zero_filled_def)

section \<open>Properties\<close>

text \<open>Every number of the lead statistics is a number of leads: a tier, action or flag counts the leads
  that have it, an answer counts the leads that completed the onboarding and gave it, each once however
  often their answer names it.\<close>

theorem lead_stats_count_leads:
  "st_totalLeads (compute_lead_stats rows now) = length rows \<and>
   st_tiers (compute_lead_stats rows now) tier = count_of (\<lambda>r. lr_tier r = tier) rows \<and>
   st_suggestedActions (compute_lead_stats rows now) action =
     count_of (\<lambda>r. suggested_action (lr_tier r) (lr_marketingOptIn r) = action) rows \<and>
   st_completed (compute_lead_stats rows now) = count_of lr_onboardingCompleted rows \<and>
   st_notStarted (compute_lead_stats rows now) = count_of (\<lambda>r. \<not> lr_onboardingCompleted r) rows \<and>
   st_marketingOptIn (compute_lead_stats rows now) = count_of lr_marketingOptIn rows \<and>
   st_connectedTool (compute_lead_stats rows now) = count_of lr_hasActiveConnector rows \<and>
   st_signals (compute_lead_stats rows now) ExportPaywallHit = count_of lr_hasPaywallSignal rows \<and>
   st_persona (compute_lead_stats rows now) persona = count_of (\<lambda>r. lr_onboardingCompleted r \<and> lr_persona r = Some persona) rows \<and>
   st_deliverableType (compute_lead_stats rows now) deliverable =
     count_of (\<lambda>r. lr_onboardingCompleted r \<and> lr_deliverableType r = Some deliverable) rows \<and>
   st_academicLevel (compute_lead_stats rows now) level = count_of (\<lambda>r. lr_onboardingCompleted r \<and> lr_academicLevel r = Some level) rows \<and>
   st_acquisitionChannel (compute_lead_stats rows now) channel =
     count_of (\<lambda>r. lr_onboardingCompleted r \<and> lr_acquisitionChannel r = Some channel) rows \<and>
   st_workTools (compute_lead_stats rows now) tool = count_of (answered lr_workTools tool) rows \<and>
   st_blockers (compute_lead_stats rows now) block = count_of (answered lr_blockers block) rows"
proof -
  note c = fold_counter [where rows = rows and st = "empty_stats (length rows) now"]
  show ?thesis
    unfolding compute_lead_stats_def
    using c [of "\<lambda>st. st_tiers st tier" "\<lambda>r. lr_tier r = tier"]
      c [of "\<lambda>st. st_suggestedActions st action" "\<lambda>r. suggested_action (lr_tier r) (lr_marketingOptIn r) = action"]
      c [of "\<lambda>st. st_completed st" "\<lambda>r. lr_onboardingCompleted r"]
      c [of "\<lambda>st. st_notStarted st" "\<lambda>r. \<not> lr_onboardingCompleted r"]
      c [of "\<lambda>st. st_marketingOptIn st" "\<lambda>r. lr_marketingOptIn r"]
      c [of "\<lambda>st. st_connectedTool st" "\<lambda>r. lr_hasActiveConnector r"]
      c [of "\<lambda>st. st_signals st ExportPaywallHit" "\<lambda>r. lr_hasPaywallSignal r"]
      c [of "\<lambda>st. st_persona st persona" "\<lambda>r. lr_onboardingCompleted r \<and> lr_persona r = Some persona"]
      c [of "\<lambda>st. st_deliverableType st deliverable" "\<lambda>r. lr_onboardingCompleted r \<and> lr_deliverableType r = Some deliverable"]
      c [of "\<lambda>st. st_academicLevel st level" "\<lambda>r. lr_onboardingCompleted r \<and> lr_academicLevel r = Some level"]
      c [of "\<lambda>st. st_acquisitionChannel st channel" "\<lambda>r. lr_onboardingCompleted r \<and> lr_acquisitionChannel r = Some channel"]
      c [of "\<lambda>st. st_workTools st tool" "\<lambda>r. answered lr_workTools tool r"]
      c [of "\<lambda>st. st_blockers st block" "\<lambda>r. answered lr_blockers block r"]
    by (simp add: count_row_simps count_row_frame)
qed


definition demo_leads :: leads_state where
  "demo_leads = \<lparr>ld_profiles = [], ld_signals = [], ld_scores = [],
     ld_users = [new_user_row (js ''u1'') (js ''a'') (js ''h'') (js ''A'') 0, new_user_row (js ''u2'') (js ''b'') (js ''h'') (js ''B'') 0],
     ld_conns = []\<rparr>"


text \<open>When nothing interferes, submitted answers are stored as given and the stored score is the score
  of the facts as they then are, unless a run that started later already stored one.\<close>

theorem submitted_answers_scored:
  assumes "submit_onboarding x now at' others id id s = (Inr p, s')"
    and "pred_option (\<lambda>r. sr_computedAt r \<le> at') (find_score (so_userId x) (ld_scores (others s)))"
  shows "find_profile (so_userId x) (ld_profiles s') = Some p \<and> op_dueDate p = so_dueDate x \<and>
    (\<exists>r. compute_lead_score (lead_facts (so_userId x) s') at' = Some r \<and>
       find_score (so_userId x) (ld_scores s') = Some \<lparr>sr_userId = so_userId x, sr_result = r, sr_computedAt = at'\<rparr>)"
proof -
  let ?t = "upsert_profile x now (ld_profiles (others s))"
  let ?s2 = "(others s)\<lparr>ld_profiles := snd ?t\<rparr>"
  obtain r where r: "compute_lead_score (lead_facts (so_userId x) ?s2) at' = Some r" "p = fst ?t"
    "s' = ?s2\<lparr>ld_scores := save_if_newer (so_userId x) r at' (ld_scores (others s))\<rparr>"
    using assms(1)
    by (auto simp: submit_onboarding_def recalculate_def Let_def split: if_splits prod.splits option.splits)
  have "find_profile (so_userId x) (snd ?t) = Some (fst ?t)" "op_dueDate (fst ?t) = so_dueDate x"
    using find_upsert_profile [of x now "ld_profiles (others s)"] by simp_all
  moreover have "lead_facts (so_userId x) s' = lead_facts (so_userId x) ?s2" by (simp add: r(3) lead_facts_def)
  moreover have "find_score (so_userId x) (ld_scores s') = Some \<lparr>sr_userId = so_userId x, sr_result = r, sr_computedAt = at'\<rparr>"
    using assms(2) unfolding r(3) by (auto simp: find_save_if_newer split: option.split)
  ultimately show ?thesis using r by simp
qed

end
