(* ===== verification/Gamification.thy ===== *)
theory Gamification
  imports UtcDates Users
begin

text \<open>
  Milestones, daily missions and experience points: \<open>domain/gamification\<close>, the three repositories of
  \<open>infrastructure/persistence/gamification\<close>, the use-cases of \<open>application/gamification\<close> and the
  listener that feeds them the events of the documents feature. Each award is one transaction;
  what runs between the transactions of one event is a list of other ones. Foreign keys to users,
  documents and missions are checked; ids of new rows come from \<open>fresh\<close>.
\<close>

section \<open>Data\<close>

record milestone =
  ms_id :: ident
  ms_userId :: ident
  ms_documentId :: ident
  ms_type :: js_string
  ms_xpAwarded :: int
  ms_createdAt :: time

record mission_criteria =
  mc_event :: js_string
  mc_target :: int

record daily_mission =
  dy_id :: ident
  dy_code :: js_string
  dy_description :: js_string
  dy_xpReward :: int
  dy_criteria :: mission_criteria
  dy_activeDate :: js_string
  dy_createdAt :: time

record mission_progress =
  mp_id :: ident
  mp_userId :: ident
  mp_missionId :: ident
  mp_progress :: int
  mp_completed :: bool
  mp_createdAt :: time
  mp_updatedAt :: time

record gamification_state =
  gs_milestones :: "milestone list"
  gs_missions :: "daily_mission list"
  gs_progress :: "mission_progress list"
  gs_users :: "user_row list"
  gs_documents :: "ident list"

record award_data =
  aw_userId :: ident
  aw_documentId :: ident
  aw_type :: js_string
  aw_xpAwarded :: int

record gamification_payload =
  ge_userId :: ident
  ge_documentId :: ident
  ge_sectionId :: "ident option"
  ge_wordCount :: "nat option"

definition document_created_event :: js_string where
  "document_created_event = js ''document.created''"

definition section_created_event :: js_string where
  "section_created_event = js ''section.created''"

definition section_updated_event :: js_string where
  "section_updated_event = js ''section.updated''"

section \<open>Repositories\<close>

definition xp_per_level :: int where
  "xp_per_level = 100"

text \<open>Division of integers in SQL truncates.\<close>

definition sql_div :: "int \<Rightarrow> int \<Rightarrow> int" where
  "sql_div a b = sgn a * (\<bar>a\<bar> div b)"

definition add_xp :: "int \<Rightarrow> user_row \<Rightarrow> user_row" where
  "add_xp delta u = u\<lparr>ur_xp := ur_xp u + delta, ur_level := sql_div (ur_xp u + delta) xp_per_level + 1\<rparr>"

definition grant_xp :: "ident \<Rightarrow> int \<Rightarrow> user_row list \<Rightarrow> user_row list" where
  "grant_xp i delta t = sql_update (\<lambda>u. ur_id u = i) (add_xp delta) t"

definition user_exists :: "ident \<Rightarrow> gamification_state \<Rightarrow> bool" where
  "user_exists i s = list_ex (\<lambda>u. ur_id u = i) (gs_users s)"

definition foreign_key_violation :: http_error where
  "foreign_key_violation = InternalError (js ''insert or update violates foreign key constraint'')"

definition xp_and_level :: "ident \<Rightarrow> user_row list \<Rightarrow> (int \<times> int) option" where
  "xp_and_level i t = map_option (\<lambda>u. (ur_xp u, ur_level u)) (find (\<lambda>u. ur_id u = i) t)"

definition award_once ::
    "ident \<Rightarrow> time \<Rightarrow> award_data \<Rightarrow> gamification_state \<Rightarrow>
     (http_error + (milestone \<times> int \<times> int) option) \<times> gamification_state" where
  "award_once new_id now x s =
     (if list_ex (\<lambda>m. ms_userId m = aw_userId x \<and> ms_documentId m = aw_documentId x \<and> ms_type m = aw_type x) (gs_milestones s)
      then (Inr None, s)
      else if \<not> user_exists (aw_userId x) s \<or> aw_documentId x \<notin> set (gs_documents s)
      then (Inl foreign_key_violation, s)
      else
        (let m = \<lparr>ms_id = new_id, ms_userId = aw_userId x, ms_documentId = aw_documentId x, ms_type = aw_type x,
               ms_xpAwarded = aw_xpAwarded x, ms_createdAt = now\<rparr>;
             t = grant_xp (aw_userId x) (aw_xpAwarded x) (gs_users s)
         in case xp_and_level (aw_userId x) t of
              None \<Rightarrow> (Inl (InternalError (js ''awardOnce: xp update affected no rows for user '' @ aw_userId x)), s)
            | Some (xp, level) \<Rightarrow> (Inr (Some (m, xp, level)), s\<lparr>gs_milestones := gs_milestones s @ [m], gs_users := t\<rparr>)))"

definition milestones_of_user :: "ident \<Rightarrow> gamification_state \<Rightarrow> milestone list" where
  "milestones_of_user i s = sort_key (\<lambda>m. - ms_createdAt m) (filter (\<lambda>m. ms_userId m = i) (gs_milestones s))"

definition find_active_on :: "time \<Rightarrow> gamification_state \<Rightarrow> daily_mission list" where
  "find_active_on now s = filter (\<lambda>m. dy_activeDate m = to_utc_date now) (gs_missions s)"

definition is_progress :: "ident \<Rightarrow> ident \<Rightarrow> mission_progress \<Rightarrow> bool" where
  "is_progress i mission p \<longleftrightarrow> mp_userId p = i \<and> mp_missionId p = mission"

definition ensure_progress :: "ident \<Rightarrow> time \<Rightarrow> ident \<Rightarrow> ident \<Rightarrow> mission_progress list \<Rightarrow> mission_progress list" where
  "ensure_progress new_id now i mission t =
     (if list_ex (is_progress i mission) t then t
      else t @ [\<lparr>mp_id = new_id, mp_userId = i, mp_missionId = mission, mp_progress = 0, mp_completed = False,
             mp_createdAt = now, mp_updatedAt = now\<rparr>])"

definition bump_progress :: "int \<Rightarrow> time \<Rightarrow> mission_progress \<Rightarrow> mission_progress" where
  "bump_progress target now p =
     p\<lparr>mp_progress := mp_progress p + 1, mp_completed := (target \<le> mp_progress p + 1), mp_updatedAt := now\<rparr>"

text \<open>The second component of the result: the new points and level when this increment completed the mission.\<close>

definition increment_atomic ::
    "ident \<Rightarrow> time \<Rightarrow> ident \<Rightarrow> ident \<Rightarrow> int \<Rightarrow> int \<Rightarrow> gamification_state \<Rightarrow>
     (http_error + mission_progress \<times> (int \<times> int) option) \<times> gamification_state" where
  "increment_atomic new_id now i mission target xp_reward s =
     (if \<not> list_ex (is_progress i mission) (gs_progress s) \<and>
         (\<not> user_exists i s \<or> \<not> list_ex (\<lambda>m. dy_id m = mission) (gs_missions s))
      then (Inl foreign_key_violation, s)
      else
        (let t = ensure_progress new_id now i mission (gs_progress s);
             guard = (\<lambda>p. is_progress i mission p \<and> \<not> mp_completed p)
         in case find guard t of
              None \<Rightarrow>
                (case find (is_progress i mission) t of
                   None \<Rightarrow> (Inl (NotFound (js ''Could not find any entity'')), s)
                 | Some p \<Rightarrow> (Inr (p, None), s\<lparr>gs_progress := t\<rparr>))
            | Some q \<Rightarrow>
                (let p = bump_progress target now q;
                     s1 = s\<lparr>gs_progress := sql_update guard (bump_progress target now) t\<rparr>
                 in if \<not> mp_completed p then (Inr (p, None), s1)
                    else
                      (let us = grant_xp i xp_reward (gs_users s) in
                       case xp_and_level i us of
                         None \<Rightarrow> (Inl (InternalError (js ''incrementAtomic: xp update affected no rows for user '' @ i)), s)
                       | Some xl \<Rightarrow> (Inr (p, Some xl), s1\<lparr>gs_users := us\<rparr>)))))"

definition progress_of_user :: "ident \<Rightarrow> ident list \<Rightarrow> gamification_state \<Rightarrow> mission_progress list" where
  "progress_of_user i missions s =
     (if missions = [] then [] else filter (\<lambda>p. mp_userId p = i \<and> mp_missionId p \<in> set missions) (gs_progress s))"

section \<open>Use-cases\<close>

record milestone_rule =
  mr_event :: js_string
  mr_type :: js_string
  mr_xp :: int
  mr_condition :: "(gamification_payload \<Rightarrow> bool) option"

definition section_goal_word_count :: nat where
  "section_goal_word_count = 100"

definition milestone_rules :: "milestone_rule list" where
  "milestone_rules = [
     \<lparr>mr_event = document_created_event, mr_type = js ''document_created'', mr_xp = 50, mr_condition = None\<rparr>,
     \<lparr>mr_event = section_created_event, mr_type = js ''first_section'', mr_xp = 25, mr_condition = None\<rparr>,
     \<lparr>mr_event = section_updated_event, mr_type = js ''section_goal'', mr_xp = 25,
      mr_condition = Some (\<lambda>p. section_goal_word_count \<le> (case ge_wordCount p of None \<Rightarrow> 0 | Some n \<Rightarrow> n))\<rparr>]"

definition matching_rules :: "js_string \<Rightarrow> gamification_payload \<Rightarrow> milestone_rule list" where
  "matching_rules event payload = filter (\<lambda>r. mr_event r = event \<and>
     (case mr_condition r of None \<Rightarrow> True | Some c \<Rightarrow> c payload)) milestone_rules"

definition matching_missions :: "js_string \<Rightarrow> daily_mission list \<Rightarrow> daily_mission list" where
  "matching_missions event ms = filter (\<lambda>m. mc_event (dy_criteria m) = event) ms"

definition rule_award :: "gamification_payload \<Rightarrow> milestone_rule \<Rightarrow> award_data" where
  "rule_award payload r = \<lparr>aw_userId = ge_userId payload, aw_documentId = ge_documentId payload,
     aw_type = mr_type r, aw_xpAwarded = mr_xp r\<rparr>"

text \<open>An awaited loop: a call that throws ends it.\<close>

fun await_each :: "('a \<Rightarrow> 's \<Rightarrow> (http_error + 'b) \<times> 's) \<Rightarrow> 'a list \<Rightarrow> 's \<Rightarrow> (http_error + unit) \<times> 's" where
  "await_each f [] s = (Inr (), s)"
| "await_each f (x # xs) s =
     (case f x s of (Inl e, s') \<Rightarrow> (Inl e, s') | (Inr _, s') \<Rightarrow> await_each f xs s')"

definition apply_milestone_rules ::
    "(gamification_state \<Rightarrow> ident) \<Rightarrow> time \<Rightarrow> js_string \<Rightarrow> gamification_payload \<Rightarrow> gamification_state \<Rightarrow>
     (http_error + unit) \<times> gamification_state" where
  "apply_milestone_rules fresh now event payload s =
     await_each (\<lambda>r s. award_once (fresh s) now (rule_award payload r) s) (matching_rules event payload) s"

definition apply_mission_progress ::
    "(gamification_state \<Rightarrow> ident) \<Rightarrow> time \<Rightarrow> js_string \<Rightarrow> gamification_payload \<Rightarrow> gamification_state \<Rightarrow>
     (http_error + unit) \<times> gamification_state" where
  "apply_mission_progress fresh now event payload s =
     await_each (\<lambda>m s. increment_atomic (fresh s) now (ge_userId payload) (dy_id m) (mc_target (dy_criteria m)) (dy_xpReward m) s)
       (matching_missions event (find_active_on now s)) s"

definition handle_gamification_event ::
    "(gamification_state \<Rightarrow> ident) \<Rightarrow> time \<Rightarrow> js_string \<Rightarrow> gamification_payload \<Rightarrow> gamification_state \<Rightarrow>
     (http_error + unit) \<times> gamification_state" where
  "handle_gamification_event fresh now event payload s =
     (case apply_milestone_rules fresh now event payload s of
        (Inl e, s') \<Rightarrow> (Inl e, s')
      | (Inr _, s') \<Rightarrow> apply_mission_progress fresh now event payload s')"

text \<open>\<open>GamificationListener\<close>: the events it subscribes to; errors are logged.\<close>

fun gamification_event :: "event \<Rightarrow> (js_string \<times> gamification_payload) option" where
  "gamification_event (DocumentCreated u d) = Some (document_created_event,
     \<lparr>ge_userId = u, ge_documentId = d, ge_sectionId = None, ge_wordCount = None\<rparr>)"
| "gamification_event (SectionCreated u d sec) = Some (section_created_event,
     \<lparr>ge_userId = u, ge_documentId = d, ge_sectionId = Some sec, ge_wordCount = None\<rparr>)"
| "gamification_event (SectionUpdated u d sec n) = Some (section_updated_event,
     \<lparr>ge_userId = u, ge_documentId = d, ge_sectionId = Some sec, ge_wordCount = Some n\<rparr>)"
| "gamification_event _ = None"

definition on_event :: "(gamification_state \<Rightarrow> ident) \<Rightarrow> time \<Rightarrow> event \<Rightarrow> gamification_state \<Rightarrow> gamification_state" where
  "on_event fresh now e s =
     (case gamification_event e of
        None \<Rightarrow> s
      | Some (name, payload) \<Rightarrow> snd (handle_gamification_event fresh now name payload s))"

record today_mission =
  tm_mission :: daily_mission
  tm_progress :: int
  tm_completed :: bool

record my_gamification =
  mg_xp :: int
  mg_level :: int
  mg_milestones :: "milestone list"
  mg_todayMissions :: "today_mission list"

definition get_my_gamification :: "ident \<Rightarrow> time \<Rightarrow> gamification_state \<Rightarrow> http_error + my_gamification" where
  "get_my_gamification i now s =
     (case find_user_by_id i (gs_users s) of
        None \<Rightarrow> Inl (user_not_found i)
      | Some u \<Rightarrow>
          (let missions = find_active_on now s;
               rows = progress_of_user i (map dy_id missions) s;
               by_mission = (\<lambda>m. find (\<lambda>p. mp_missionId p = m) (rev rows))
           in Inr \<lparr>mg_xp = u_xp u, mg_level = u_level u, mg_milestones = milestones_of_user i s,
                mg_todayMissions = map (\<lambda>m.
                  \<lparr>tm_mission = m,
                   tm_progress = (case by_mission (dy_id m) of None \<Rightarrow> 0 | Some p \<Rightarrow> mp_progress p),
                   tm_completed = (case by_mission (dy_id m) of None \<Rightarrow> False | Some p \<Rightarrow> mp_completed p)\<rparr>) missions\<rparr>))"

definition default_leaderboard_limit :: int where
  "default_leaderboard_limit = 10"

definition max_leaderboard_limit :: int where
  "max_leaderboard_limit = 50"

record leaderboard_entry =
  le_isMe :: bool
  le_displayName :: js_string
  le_xp :: int
  le_level :: int

definition get_leaderboard :: "ident \<Rightarrow> int option \<Rightarrow> gamification_state \<Rightarrow> leaderboard_entry list" where
  "get_leaderboard viewer limit s =
     (let n = min (max (case limit of None \<Rightarrow> default_leaderboard_limit | Some l \<Rightarrow> l) 1) max_leaderboard_limit
      in map (\<lambda>u. \<lparr>le_isMe = (u_id u = viewer), le_displayName = u_displayName u, le_xp = u_xp u, le_level = u_level u\<rparr>)
           (find_top_by_xp (nat n) (gs_users s)))"

section \<open>Awards as atomic steps\<close>

text \<open>
  Every write of this component is one of these two transactions. The awards of concurrent events
  interleave in any way, so a history is any list of them, each with the id and time it was given.
\<close>

datatype xp_step = Award award_data | Advance ident daily_mission

fun run_step :: "ident \<times> time \<times> xp_step \<Rightarrow> gamification_state \<Rightarrow> gamification_state" where
  "run_step (new_id, now, Award x) s = snd (award_once new_id now x s)"
| "run_step (new_id, now, Advance i m) s =
     snd (increment_atomic new_id now i (dy_id m) (mc_target (dy_criteria m)) (dy_xpReward m) s)"

fun step_ok :: "gamification_state \<Rightarrow> xp_step \<Rightarrow> bool" where
  "step_ok s (Award x) \<longleftrightarrow> user_exists (aw_userId x) s \<and> aw_documentId x \<in> set (gs_documents s)"
| "step_ok s (Advance i m) \<longleftrightarrow> user_exists i s \<and> m \<in> set (gs_missions s)"

definition event_steps :: "daily_mission list \<Rightarrow> time \<Rightarrow> event \<Rightarrow> xp_step list" where
  "event_steps missions now e =
     (case gamification_event e of
        None \<Rightarrow> []
      | Some (name, p) \<Rightarrow> map (\<lambda>r. Award (rule_award p r)) (matching_rules name p) @
          map (Advance (ge_userId p)) (matching_missions name (filter (\<lambda>m. dy_activeDate m = to_utc_date now) missions)))"

text \<open>What is seen of a state: points and level of a user, milestones, progress on a mission.\<close>

definition awarded :: "gamification_state \<Rightarrow> ident \<Rightarrow> ident \<Rightarrow> js_string \<Rightarrow> bool" where
  "awarded s i d ty \<longleftrightarrow> list_ex (\<lambda>m. ms_userId m = i \<and> ms_documentId m = d \<and> ms_type m = ty) (gs_milestones s)"

definition progress_on :: "gamification_state \<Rightarrow> ident \<Rightarrow> ident \<Rightarrow> int \<times> bool" where
  "progress_on s i mission = (case find (is_progress i mission) (gs_progress s) of
     None \<Rightarrow> (0, False) | Some p \<Rightarrow> (mp_progress p, mp_completed p))"

definition points :: "gamification_state \<Rightarrow> ident \<Rightarrow> (int \<times> int) option" where
  "points s i = xp_and_level i (gs_users s)"

definition progress_unique :: "gamification_state \<Rightarrow> bool" where
  "progress_unique s \<longleftrightarrow> distinct (map (\<lambda>p. (mp_userId p, mp_missionId p)) (gs_progress s))"

definition earn :: "int \<Rightarrow> int \<times> int \<Rightarrow> int \<times> int" where
  "earn delta = (\<lambda>(xp, level). (xp + delta, sql_div (xp + delta) xp_per_level + 1))"

lemma add_xp_id [simp]: "ur_id (add_xp delta u) = ur_id u"
  by (simp add: add_xp_def)

lemma points_grant: "xp_and_level i (grant_xp j delta t) = (if i = j then map_option (earn delta) (xp_and_level i t) else xp_and_level i t)"
proof -
  have "find (\<lambda>u. ur_id u = i) (grant_xp j delta t) =
      (if i = j then map_option (add_xp delta) (find (\<lambda>u. ur_id u = i) t) else find (\<lambda>u. ur_id u = i) t)"
    unfolding grant_xp_def by (induction t) auto
  then show ?thesis by (simp add: xp_and_level_def earn_def add_xp_def option.map_comp comp_def)
qed

lemma user_exists_points: "user_exists i s \<longleftrightarrow> (\<exists>p. xp_and_level i (gs_users s) = Some p)"
  by (cases "find (\<lambda>u. ur_id u = i) (gs_users s)")
    (auto simp: user_exists_def xp_and_level_def find_None_iff list_ex_iff dest: find_SomeD)

lemma find_key_and:
  assumes "distinct (map key t)"
  shows "find (\<lambda>p. key p = k \<and> Q p) t = (case find (\<lambda>p. key p = k) t of None \<Rightarrow> None | Some p \<Rightarrow> if Q p then Some p else None)"
  using assms
proof (induction t)
  case (Cons p t)
  show ?case
  proof (cases "key p = k")
    case True
    with Cons.prems have "\<forall>q \<in> set t. key q \<noteq> k" by (metis distinct.simps(2) image_eqI list.map(2) list.set_map)
    then have "find (\<lambda>p. key p = k \<and> Q p) t = None" by (auto simp: find_None_iff)
    with True show ?thesis by simp
  qed (use Cons in simp)
qed simp

lemma list_ex_find: "list_ex P t \<longleftrightarrow> find P t \<noteq> None"
  by (auto simp: find_None_iff list_ex_iff)

lemma awarded_append: "list_ex P (xs @ [m]) \<longleftrightarrow> list_ex P xs \<or> P m"
  by auto

text \<open>An award: nothing when it is there already, else a row and its points.\<close>

lemma award_step:
  assumes "step_ok s (Award x)" and "s' = run_step (new_id, now, Award x) s"
  shows "awarded s' i d ty \<longleftrightarrow> awarded s i d ty \<or> (i, d, ty) = (aw_userId x, aw_documentId x, aw_type x)"
    and "points s' i = (if i = aw_userId x \<and> \<not> awarded s i (aw_documentId x) (aw_type x)
      then map_option (earn (aw_xpAwarded x)) (points s i) else points s i)"
    and "gs_progress s' = gs_progress s" and "gs_missions s' = gs_missions s" and "gs_documents s' = gs_documents s"
proof -
  obtain q where q: "xp_and_level (aw_userId x) (gs_users s) = Some q" using assms(1) by (auto simp: user_exists_points)
  then have g: "xp_and_level (aw_userId x) (grant_xp (aw_userId x) (aw_xpAwarded x) (gs_users s)) = Some (earn (aw_xpAwarded x) q)"
    by (simp add: points_grant)
  obtain xp level where e: "earn (aw_xpAwarded x) q = (xp, level)" by force
  have s': "s' = (if awarded s (aw_userId x) (aw_documentId x) (aw_type x) then s
    else s\<lparr>gs_milestones := gs_milestones s @ [\<lparr>ms_id = new_id, ms_userId = aw_userId x, ms_documentId = aw_documentId x,
        ms_type = aw_type x, ms_xpAwarded = aw_xpAwarded x, ms_createdAt = now\<rparr>],
      gs_users := grant_xp (aw_userId x) (aw_xpAwarded x) (gs_users s)\<rparr>)"
    using assms g e by (simp add: award_once_def awarded_def Let_def)
  show "awarded s' i d ty \<longleftrightarrow> awarded s i d ty \<or> (i, d, ty) = (aw_userId x, aw_documentId x, aw_type x)"
    unfolding s' by (auto simp: awarded_def)
  show "points s' i = (if i = aw_userId x \<and> \<not> awarded s i (aw_documentId x) (aw_type x)
      then map_option (earn (aw_xpAwarded x)) (points s i) else points s i)"
    unfolding s' by (auto simp: points_def points_grant)
  show "gs_progress s' = gs_progress s" "gs_missions s' = gs_missions s" "gs_documents s' = gs_documents s"
    unfolding s' by simp_all
qed

text \<open>Progress after the row is made and raised.\<close>

definition advance_by :: "int \<Rightarrow> int \<times> bool \<Rightarrow> int \<times> bool" where
  "advance_by target = (\<lambda>(n, done). if done then (n, done) else (n + 1, target \<le> n + 1))"

lemma ensure_progress_find:
  "find (is_progress i m) (ensure_progress new_id now j n t) =
    (if (i, m) = (j, n) \<and> find (is_progress i m) t = None
     then Some \<lparr>mp_id = new_id, mp_userId = j, mp_missionId = n, mp_progress = 0, mp_completed = False, mp_createdAt = now, mp_updatedAt = now\<rparr>
     else find (is_progress i m) t)"
proof -
  have new: "is_progress i m \<lparr>mp_id = new_id, mp_userId = j, mp_missionId = n, mp_progress = 0, mp_completed = False,
      mp_createdAt = now, mp_updatedAt = now\<rparr> \<longleftrightarrow> (i, m) = (j, n)" for i m
    by (auto simp: is_progress_def)
  show ?thesis
    by (auto simp: ensure_progress_def list_ex_find find_append new split: option.split)
qed

lemma ensure_progress_distinct:
  "distinct (map (\<lambda>p. (mp_userId p, mp_missionId p)) t) \<Longrightarrow>
   distinct (map (\<lambda>p. (mp_userId p, mp_missionId p)) (ensure_progress new_id now i m t))"
  by (auto simp: ensure_progress_def list_ex_iff is_progress_def image_iff)

lemma is_progress_key: "is_progress i m = (\<lambda>p. (mp_userId p, mp_missionId p) = (i, m))"
  by (auto simp: is_progress_def)

lemma bump_progress_keys [simp]:
  "mp_userId (bump_progress target now p) = mp_userId p" "mp_missionId (bump_progress target now p) = mp_missionId p"
  by (simp_all add: bump_progress_def)

text \<open>The guarded update raises the one row of the user and the mission, when it is not complete.\<close>

lemma find_guarded_bump:
  assumes "distinct (map (\<lambda>p. (mp_userId p, mp_missionId p)) t)"
  shows "find (is_progress i m) (sql_update (\<lambda>p. is_progress j n p \<and> \<not> mp_completed p) (bump_progress target now) t) =
    map_option (\<lambda>p. if (i, m) = (j, n) \<and> \<not> mp_completed p then bump_progress target now p else p) (find (is_progress i m) t)"
  by (induction t) (auto simp: is_progress_def)

lemma find_guard:
  "distinct (map (\<lambda>p. (mp_userId p, mp_missionId p)) t) \<Longrightarrow>
   find (\<lambda>p. is_progress i m p \<and> \<not> mp_completed p) t =
   (case find (is_progress i m) t of None \<Rightarrow> None | Some p \<Rightarrow> if \<not> mp_completed p then Some p else None)"
  using find_key_and [of "\<lambda>p. (mp_userId p, mp_missionId p)" t "(i, m)" "\<lambda>p. \<not> mp_completed p"]
  by (simp add: is_progress_key)

text \<open>An increment: nothing when the mission is complete, else one more, and the reward when that completes it.\<close>

lemma advance_step:
  assumes "step_ok s (Advance j m)" and "progress_unique s" and "s' = run_step (new_id, now, Advance j m) s"
  shows "progress_on s' i k = (if (i, k) = (j, dy_id m) then advance_by (mc_target (dy_criteria m)) (progress_on s i k) else progress_on s i k)"
    and "points s' i = (if i = j \<and> \<not> snd (progress_on s j (dy_id m)) \<and> mc_target (dy_criteria m) \<le> fst (progress_on s j (dy_id m)) + 1
      then map_option (earn (dy_xpReward m)) (points s i) else points s i)"
    and "gs_milestones s' = gs_milestones s" and "gs_missions s' = gs_missions s" and "gs_documents s' = gs_documents s"
    and "progress_unique s'"
proof -
  let ?target = "mc_target (dy_criteria m)"
  let ?t = "ensure_progress new_id now j (dy_id m) (gs_progress s)"
  let ?u = "sql_update (\<lambda>p. is_progress j (dy_id m) p \<and> \<not> mp_completed p) (bump_progress ?target now) ?t"
  have d: "distinct (map (\<lambda>p. (mp_userId p, mp_missionId p)) ?t)"
    using assms(2) unfolding progress_unique_def by (rule ensure_progress_distinct)
  obtain q where q: "xp_and_level j (gs_users s) = Some q" using assms(1) by (auto simp: user_exists_points)
  have g: "\<exists>xl. xp_and_level j (grant_xp j (dy_xpReward m) (gs_users s)) = Some xl" using q by (simp add: points_grant)
  obtain p where p: "find (is_progress j (dy_id m)) ?t = Some p" "progress_on s j (dy_id m) = (mp_progress p, mp_completed p)"
    by (cases "find (is_progress j (dy_id m)) (gs_progress s)") (simp_all add: ensure_progress_find progress_on_def)
  have fk: "user_exists j s \<and> list_ex (\<lambda>n. dy_id n = dy_id m) (gs_missions s)" using assms(1) by (auto simp: list_ex_iff)
  have same: "sql_update (\<lambda>p. is_progress j (dy_id m) p \<and> \<not> mp_completed p) (bump_progress ?target now) ?t = ?t" if "mp_completed p"
  proof (rule sql_update_none)
    have "find (\<lambda>p. is_progress j (dy_id m) p \<and> \<not> mp_completed p) ?t = None" using that p(1) by (simp add: find_guard [OF d])
    then show "\<forall>r \<in> set ?t. \<not> (is_progress j (dy_id m) r \<and> \<not> mp_completed r)" by (simp add: find_None_iff)
  qed
  have s': "s' = s\<lparr>gs_progress := ?u, gs_users :=
      (if \<not> mp_completed p \<and> ?target \<le> mp_progress p + 1 then grant_xp j (dy_xpReward m) (gs_users s) else gs_users s)\<rparr>"
    using g fk same unfolding assms(3)
    by (auto simp: increment_atomic_def Let_def find_guard [OF d] p(1) bump_progress_def [of ?target now p])
  have progress: "progress_on s' i k = (if (i, k) = (j, dy_id m) then advance_by ?target (progress_on s i k) else progress_on s i k)"
    using p unfolding s' by (auto simp: progress_on_def find_guarded_bump [OF d] ensure_progress_find advance_by_def bump_progress_def
        split: option.splits if_splits)
  then show "progress_on s' i k = (if (i, k) = (j, dy_id m) then advance_by ?target (progress_on s i k) else progress_on s i k)" .
  show "points s' i = (if i = j \<and> \<not> snd (progress_on s j (dy_id m)) \<and> ?target \<le> fst (progress_on s j (dy_id m)) + 1
      then map_option (earn (dy_xpReward m)) (points s i) else points s i)"
    unfolding s' by (auto simp: points_def points_grant p(2))
  show "gs_milestones s' = gs_milestones s" "gs_missions s' = gs_missions s" "gs_documents s' = gs_documents s"
    unfolding s' by simp_all
  show "progress_unique s'"
    using d unfolding s' progress_unique_def by (simp add: map_sql_update)
qed

section \<open>A history of awards\<close>

text \<open>The milestones and the number of increments a user is due after a list of steps.\<close>

definition award_keys :: "ident \<Rightarrow> xp_step list \<Rightarrow> (ident \<times> js_string) set" where
  "award_keys i ks = {(d, ty). \<exists>x. Award x \<in> set ks \<and> aw_userId x = i \<and> aw_documentId x = d \<and> aw_type x = ty}"

fun advances_on :: "ident \<Rightarrow> ident \<Rightarrow> xp_step \<Rightarrow> bool" where
  "advances_on i mission (Award x) = False"
| "advances_on i mission (Advance j m) = (j = i \<and> dy_id m = mission)"

definition advances :: "ident \<Rightarrow> ident \<Rightarrow> xp_step list \<Rightarrow> int" where
  "advances i mission ks = int (length (filter (advances_on i mission) ks))"

definition completes :: "int \<Rightarrow> daily_mission \<Rightarrow> bool" where
  "completes n m \<longleftrightarrow> max 1 (mc_target (dy_criteria m)) \<le> n"

definition due_xp :: "(js_string \<Rightarrow> int) \<Rightarrow> daily_mission list \<Rightarrow> ident \<Rightarrow> xp_step list \<Rightarrow> int" where
  "due_xp rx missions i ks = (\<Sum>k\<in>award_keys i ks. rx (snd k)) +
     (\<Sum>m\<in>set missions. if completes (advances i (dy_id m) ks) m then dy_xpReward m else 0)"

lemma finite_award_keys [simp]: "finite (award_keys i ks)"
proof -
  have "award_keys i ks \<subseteq> (\<lambda>k. case k of Award x \<Rightarrow> (aw_documentId x, aw_type x) | Advance _ _ \<Rightarrow> ([], [])) ` set ks"
    by (force simp: award_keys_def)
  then show ?thesis by (rule finite_subset) simp
qed

lemma award_keys_snoc [simp]:
  "award_keys i (ks @ [Award x]) = (if aw_userId x = i then insert (aw_documentId x, aw_type x) (award_keys i ks) else award_keys i ks)"
  "award_keys i (ks @ [Advance j m]) = award_keys i ks" "award_keys i [] = {}"
  by (auto simp: award_keys_def)

lemma advances_snoc [simp]:
  "advances i k (ks @ [Award x]) = advances i k ks"
  "advances i k (ks @ [Advance j m]) = advances i k ks + (if j = i \<and> dy_id m = k then 1 else 0)"
  "advances i k [] = 0" "0 \<le> advances i k ks"
  by (simp_all add: advances_def)

lemma due_xp_award:
  "due_xp rx missions i (ks @ [Award x]) = due_xp rx missions i ks +
     (if aw_userId x = i \<and> (aw_documentId x, aw_type x) \<notin> award_keys i ks then rx (aw_type x) else 0)"
  by (auto simp: due_xp_def insert_absorb)

lemma due_xp_advance:
  assumes "m \<in> set missions" and "distinct (map dy_id missions)"
  shows "due_xp rx missions i (ks @ [Advance j m]) = due_xp rx missions i ks +
    (if j = i \<and> \<not> completes (advances i (dy_id m) ks) m \<and> completes (advances i (dy_id m) ks + 1) m then dy_xpReward m else 0)"
proof -
  let ?d = "if j = i \<and> \<not> completes (advances i (dy_id m) ks) m \<and> completes (advances i (dy_id m) ks + 1) m then dy_xpReward m else 0"
  have "(if completes (advances i (dy_id n) (ks @ [Advance j m])) n then dy_xpReward n else 0) =
      (if completes (advances i (dy_id n) ks) n then dy_xpReward n else 0) + (if n = m then ?d else 0)" if "n \<in> set missions" for n
  proof (cases "n = m")
    case False
    with that assms have "dy_id n \<noteq> dy_id m" by (auto simp: distinct_map inj_on_def)
    with False show ?thesis by simp
  qed (auto simp: completes_def)
  then have "(\<Sum>n\<in>set missions. if completes (advances i (dy_id n) (ks @ [Advance j m])) n then dy_xpReward n else 0) =
      (\<Sum>n\<in>set missions. if completes (advances i (dy_id n) ks) n then dy_xpReward n else 0) + ?d"
    using assms(1) by (simp add: sum.distrib sum.delta)
  then show ?thesis by (simp add: due_xp_def)
qed

text \<open>A user nothing was awarded to yet.\<close>

definition level_at :: "int \<Rightarrow> int" where
  "level_at xp = sql_div xp xp_per_level + 1"

definition newcomer :: "gamification_state \<Rightarrow> ident \<Rightarrow> int \<Rightarrow> bool" where
  "newcomer s i xp \<longleftrightarrow> points s i = Some (xp, level_at xp) \<and>
     (\<forall>d ty. \<not> awarded s i d ty) \<and> (\<forall>k. progress_on s i k = (0, False)) \<and>
     progress_unique s \<and> distinct (map dy_id (gs_missions s))"

definition rewarded_by :: "(js_string \<Rightarrow> int) \<Rightarrow> xp_step \<Rightarrow> bool" where
  "rewarded_by rx k = (case k of Award x \<Rightarrow> aw_xpAwarded x = rx (aw_type x) | Advance _ _ \<Rightarrow> True)"

abbreviation run_steps :: "(ident \<times> time \<times> xp_step) list \<Rightarrow> gamification_state \<Rightarrow> gamification_state" where
  "run_steps \<equiv> fold run_step"

lemma earn_level: "earn delta (xp, level_at xp) = (xp + delta, level_at (xp + delta))"
  by (simp add: earn_def level_at_def)

lemma user_exists_step: "step_ok s k \<Longrightarrow> progress_unique s \<Longrightarrow> user_exists i (run_step (n, t, k) s) \<longleftrightarrow> user_exists i s"
  using award_step(2) [of s _ "run_step (n, t, k) s" n t i] advance_step(2) [of s _ _ "run_step (n, t, k) s" n t i]
  by (cases k) (auto simp: user_exists_points points_def split: if_splits)

text \<open>A state reached from \<open>s\<close> by the steps \<open>ks\<close>, as user \<open>i\<close>, who had \<open>xp\<close> points in \<open>s\<close>, sees it.\<close>

definition accounts_for ::
    "gamification_state \<Rightarrow> ident \<Rightarrow> int \<Rightarrow> (js_string \<Rightarrow> int) \<Rightarrow> xp_step list \<Rightarrow> gamification_state \<Rightarrow> bool" where
  "accounts_for s i xp rx ks s' \<longleftrightarrow>
     (\<forall>j. user_exists j s' = user_exists j s) \<and> gs_missions s' = gs_missions s \<and> gs_documents s' = gs_documents s \<and>
     progress_unique s' \<and> (\<forall>d ty. awarded s' i d ty \<longleftrightarrow> (d, ty) \<in> award_keys i ks) \<and>
     (\<forall>m \<in> set (gs_missions s). progress_on s' i (dy_id m) =
        (min (advances i (dy_id m) ks) (max 1 (mc_target (dy_criteria m))), completes (advances i (dy_id m) ks) m)) \<and>
     points s' i = Some (xp + due_xp rx (gs_missions s) i ks, level_at (xp + due_xp rx (gs_missions s) i ks))"

lemma accounts_for_ok: "accounts_for s i xp rx ks s1 \<Longrightarrow> step_ok s1 k \<longleftrightarrow> step_ok s k"
  by (cases k) (simp_all add: accounts_for_def)

lemma accounts_for_award:
  assumes "accounts_for s i xp rx ks s1" and "step_ok s (Award x)" and "aw_xpAwarded x = rx (aw_type x)"
  shows "accounts_for s i xp rx (ks @ [Award x]) (run_step (n, t, Award x) s1)"
proof -
  have ok: "step_ok s1 (Award x)" using accounts_for_ok [OF assms(1)] assms(2) by blast
  note I = assms(1) [unfolded accounts_for_def]
  note st = award_step [OF ok refl, of n t]
  have "points (run_step (n, t, Award x) s1) i = Some (xp + due_xp rx (gs_missions s) i (ks @ [Award x]),
      level_at (xp + due_xp rx (gs_missions s) i (ks @ [Award x])))"
    using I unfolding st(2) due_xp_award by (cases "aw_userId x = i") (auto simp: earn_level assms(3) add.assoc)
  with I show ?thesis
    using user_exists_step [OF ok] unfolding accounts_for_def st(1,3,4,5) progress_on_def progress_unique_def by auto
qed

lemma advance_by_min:
  "0 \<le> n \<Longrightarrow> advance_by (mc_target (dy_criteria m)) (min n (max 1 (mc_target (dy_criteria m))), completes n m) =
    (min (n + 1) (max 1 (mc_target (dy_criteria m))), completes (n + 1) m)"
  by (auto simp: advance_by_def completes_def)

lemma accounts_for_advance:
  assumes "accounts_for s i xp rx ks s1" and "step_ok s (Advance j m)" and "distinct (map dy_id (gs_missions s))"
  shows "accounts_for s i xp rx (ks @ [Advance j m]) (run_step (n, t, Advance j m) s1)"
proof -
  have ok: "step_ok s1 (Advance j m)" using accounts_for_ok [OF assms(1)] assms(2) by blast
  note I = assms(1) [unfolded accounts_for_def]
  have u: "progress_unique s1" using I by blast
  note st = advance_step [OF ok u refl, of n t]
  have m: "m \<in> set (gs_missions s)" using assms(2) by simp
  have p: "progress_on s1 i (dy_id m) =
      (min (advances i (dy_id m) ks) (max 1 (mc_target (dy_criteria m))), completes (advances i (dy_id m) ks) m)"
    using I m by blast
  have flips: "(\<not> snd (progress_on s1 i (dy_id m)) \<and> mc_target (dy_criteria m) \<le> fst (progress_on s1 i (dy_id m)) + 1) \<longleftrightarrow>
      \<not> completes (advances i (dy_id m) ks) m \<and> completes (advances i (dy_id m) ks + 1) m"
    using advances_snoc(4) [of i "dy_id m" ks] unfolding p by (auto simp: completes_def)
  have "points (run_step (n, t, Advance j m) s1) i = Some (xp + due_xp rx (gs_missions s) i (ks @ [Advance j m]),
      level_at (xp + due_xp rx (gs_missions s) i (ks @ [Advance j m])))"
    using I flips unfolding st(2) due_xp_advance [OF m assms(3)] by (cases "i = j") (simp_all add: earn_level add.assoc)
  moreover have "progress_on (run_step (n, t, Advance j m) s1) i (dy_id k) =
      (min (advances i (dy_id k) (ks @ [Advance j m])) (max 1 (mc_target (dy_criteria k))),
       completes (advances i (dy_id k) (ks @ [Advance j m])) k)" if "k \<in> set (gs_missions s)" for k
  proof (cases "i = j \<and> dy_id k = dy_id m")
    case True
    then have "k = m" using that m assms(3) by (auto simp: distinct_map inj_on_def)
    with True show ?thesis unfolding st(1) using p advance_by_min [of "advances i (dy_id m) ks" m] by simp
  next
    case False
    with that I show ?thesis unfolding st(1) by auto
  qed
  ultimately show ?thesis
    using I user_exists_step [OF ok u] st(6) unfolding accounts_for_def st(3,4,5) awarded_def by simp
qed

lemma run_steps_account:
  assumes "newcomer s i xp" and "list_all (\<lambda>(_, _, k). step_ok s k \<and> rewarded_by rx k) steps"
  shows "accounts_for s i xp rx (map (\<lambda>(_, _, k). k) steps) (run_steps steps s)"
  using assms(2)
proof (induction steps rule: rev_induct)
  case Nil
  then show ?case using assms(1) by (simp add: newcomer_def accounts_for_def due_xp_def completes_def)
next
  case (snoc step steps)
  obtain n t k where step: "step = (n, t, k)" by (cases step)
  with snoc have "accounts_for s i xp rx (map (\<lambda>(_, _, k). k) steps) (run_steps steps s)" "step_ok s k" "rewarded_by rx k"
    by simp_all
  then show ?case
    using accounts_for_award accounts_for_advance assms(1)
    by (cases k) (simp_all add: step rewarded_by_def newcomer_def)
qed

section \<open>Events\<close>

text \<open>Handling an event runs the steps of the event, when what they refer to exists.\<close>

lemma award_succeeds:
  assumes "step_ok s (Award x)"
  shows "\<exists>a. award_once n t x s = (Inr a, run_step (n, t, Award x) s)"
proof -
  have "\<exists>xl. xp_and_level (aw_userId x) (grant_xp (aw_userId x) (aw_xpAwarded x) (gs_users s)) = Some xl"
    using assms by (auto simp: user_exists_points points_grant)
  then obtain xl where "xp_and_level (aw_userId x) (grant_xp (aw_userId x) (aw_xpAwarded x) (gs_users s)) = Some xl" ..
  with assms show ?thesis by (cases xl) (simp add: award_once_def Let_def)
qed

lemma advance_succeeds:
  assumes "step_ok s (Advance j m)" and "progress_unique s"
  shows "\<exists>a. increment_atomic n t j (dy_id m) (mc_target (dy_criteria m)) (dy_xpReward m) s = (Inr a, run_step (n, t, Advance j m) s)"
proof -
  let ?t = "ensure_progress n t j (dy_id m) (gs_progress s)"
  have d: "distinct (map (\<lambda>p. (mp_userId p, mp_missionId p)) ?t)"
    using assms(2) unfolding progress_unique_def by (rule ensure_progress_distinct)
  have "\<exists>xl. xp_and_level j (grant_xp j (dy_xpReward m) (gs_users s)) = Some xl"
    using assms(1) by (auto simp: user_exists_points points_grant)
  moreover obtain p where "find (is_progress j (dy_id m)) ?t = Some p"
    by (cases "find (is_progress j (dy_id m)) (gs_progress s)") (simp_all add: ensure_progress_find)
  ultimately show ?thesis
    using assms(1) by (auto simp: increment_atomic_def Let_def find_guard [OF d] list_ex_iff)
qed

text \<open>The rows other than awards, points and progress stay.\<close>

definition same_rows :: "gamification_state \<Rightarrow> gamification_state \<Rightarrow> bool" where
  "same_rows s s' \<longleftrightarrow> (\<forall>j. user_exists j s' = user_exists j s) \<and> gs_missions s' = gs_missions s \<and>
     gs_documents s' = gs_documents s \<and> progress_unique s'"

lemma same_rows_step:
  assumes "same_rows s s1" and "step_ok s k"
  shows "step_ok s1 k \<and> same_rows s (run_step (n, t, k) s1)"
proof -
  have ok: "step_ok s1 k" using assms by (cases k) (simp_all add: same_rows_def)
  moreover have "progress_unique s1" using assms(1) by (simp add: same_rows_def)
  moreover have "gs_missions (run_step (n, t, k) s1) = gs_missions s1 \<and> gs_documents (run_step (n, t, k) s1) = gs_documents s1 \<and>
      progress_unique (run_step (n, t, k) s1)"
  proof (cases k)
    case (Award x)
    from award_step(3-5) [OF ok [unfolded Award] refl, of n t] calculation(2) show ?thesis
      by (simp add: Award progress_unique_def)
  next
    case (Advance j m)
    from advance_step(4-6) [OF ok [unfolded Advance] calculation(2) refl, of n t] show ?thesis by (simp add: Advance)
  qed
  ultimately show ?thesis using assms(1) user_exists_step [OF ok] by (auto simp: same_rows_def)
qed

lemma await_steps:
  assumes "\<And>x s1. x \<in> set xs \<Longrightarrow> same_rows s s1 \<Longrightarrow> \<exists>a n t. f x s1 = (Inr a, run_step (n, t, h x) s1)"
    and "list_all (\<lambda>x. step_ok s (h x)) xs" and "same_rows s s1"
  shows "\<exists>steps. map (\<lambda>(_, _, k). k) steps = map h xs \<and> await_each f xs s1 = (Inr (), run_steps steps s1) \<and>
    same_rows s (run_steps steps s1)"
  using assms
proof (induction xs arbitrary: s1)
  case (Cons x xs)
  obtain a n t where x: "f x s1 = (Inr a, run_step (n, t, h x) s1)" using Cons.prems(1,3) by force
  have "same_rows s (run_step (n, t, h x) s1)" using same_rows_step [OF Cons.prems(3)] Cons.prems(2) by simp
  from Cons.IH [OF _ _ this] Cons.prems(1,2) obtain steps where "map (\<lambda>(_, _, k). k) steps = map h xs"
    "await_each f xs (run_step (n, t, h x) s1) = (Inr (), run_steps steps (run_step (n, t, h x) s1))"
    "same_rows s (run_steps steps (run_step (n, t, h x) s1))" by force
  with x show ?case by (intro exI [of _ "(n, t, h x) # steps"]) simp
qed simp

lemma event_runs_steps:
  assumes "list_all (step_ok s) (event_steps (gs_missions s) now e)" and "progress_unique s"
  shows "\<exists>steps. map (\<lambda>(_, _, k). k) steps = event_steps (gs_missions s) now e \<and> on_event fresh now e s = run_steps steps s \<and>
    same_rows s (run_steps steps s)"
proof (cases "gamification_event e")
  case None
  then show ?thesis using assms(2) by (intro exI [of _ "[]"]) (simp add: on_event_def event_steps_def same_rows_def)
next
  case (Some np)
  obtain name p where np: "np = (name, p)" by force
  let ?ms = "matching_missions name (find_active_on now s)"
  have ok: "list_all (\<lambda>r. step_ok s (Award (rule_award p r))) (matching_rules name p)" "list_all (\<lambda>m. step_ok s (Advance (ge_userId p) m)) ?ms"
    using assms(1) by (simp_all add: event_steps_def Some np find_active_on_def list.pred_map comp_def del: step_ok.simps)
  have okd: "step_ok s1 k" if "same_rows s s1" "step_ok s k" for s1 k using same_rows_step that by blast
  have f1: "\<exists>a n t. award_once (fresh s1) now (rule_award p r) s1 = (Inr a, run_step (n, t, Award (rule_award p r)) s1)"
    if "r \<in> set (matching_rules name p)" "same_rows s s1" for r s1
    using award_succeeds [OF okd [OF that(2)], of "rule_award p r" "fresh s1" now] ok(1) that(1) unfolding list_all_iff by blast
  have f2: "\<exists>a n t. increment_atomic (fresh s1) now (ge_userId p) (dy_id m) (mc_target (dy_criteria m)) (dy_xpReward m) s1 =
      (Inr a, run_step (n, t, Advance (ge_userId p) m) s1)"
    if "m \<in> set ?ms" "same_rows s s1" for m s1
  proof -
    have "step_ok s1 (Advance (ge_userId p) m)" using okd [OF that(2)] ok(2) that(1) unfolding list_all_iff by blast
    moreover have "progress_unique s1" using that(2) by (simp add: same_rows_def)
    ultimately show ?thesis using advance_succeeds by blast
  qed
  have "same_rows s s" using assms(2) by (simp add: same_rows_def)
  from await_steps [OF f1 ok(1) this] obtain st1 where st1:
    "map (\<lambda>(_, _, k). k) st1 = map (\<lambda>r. Award (rule_award p r)) (matching_rules name p)"
    "apply_milestone_rules fresh now name p s = (Inr (), run_steps st1 s)" "same_rows s (run_steps st1 s)"
    unfolding apply_milestone_rules_def by blast
  have active: "find_active_on now (run_steps st1 s) = find_active_on now s" using st1(3) by (simp add: same_rows_def find_active_on_def)
  from await_steps [OF f2 ok(2) st1(3)] obtain st2 where st2: "map (\<lambda>(_, _, k). k) st2 = map (Advance (ge_userId p)) ?ms"
    "apply_mission_progress fresh now name p (run_steps st1 s) = (Inr (), run_steps st2 (run_steps st1 s))"
    "same_rows s (run_steps st2 (run_steps st1 s))"
    unfolding apply_mission_progress_def active by blast
  show ?thesis
    using st1 st2 by (intro exI [of _ "st1 @ st2"])
      (simp add: on_event_def event_steps_def Some np handle_gamification_event_def find_active_on_def)
qed

text \<open>The steps of a list of events, in any order.\<close>

definition rule_xp :: "js_string \<Rightarrow> int" where
  "rule_xp ty = (if ty = js ''document_created'' then 50 else 25)"

abbreviation all_steps :: "daily_mission list \<Rightarrow> (time \<times> event) list \<Rightarrow> xp_step list" where
  "all_steps ms es \<equiv> concat (map (\<lambda>(t, e). event_steps ms t e) es)"

lemmas event_steps_simps = event_steps_def matching_rules_def milestone_rules_def rule_award_def
  document_created_event_def section_created_event_def section_updated_event_def section_goal_word_count_def

lemma event_steps_rewarded: "list_all (rewarded_by rule_xp) (event_steps ms t e)"
  by (cases e) (auto simp: event_steps_simps rewarded_by_def rule_xp_def list_all_iff)

lemma event_awards:
  "Award x \<in> set (event_steps ms t (DocumentCreated u d)) \<longleftrightarrow>
     x = \<lparr>aw_userId = u, aw_documentId = d, aw_type = js ''document_created'', aw_xpAwarded = 50\<rparr>"
  "Award x \<in> set (event_steps ms t (SectionCreated u d sec)) \<longleftrightarrow>
     x = \<lparr>aw_userId = u, aw_documentId = d, aw_type = js ''first_section'', aw_xpAwarded = 25\<rparr>"
  "Award x \<in> set (event_steps ms t (SectionUpdated u d sec n)) \<longleftrightarrow>
     100 \<le> n \<and> x = \<lparr>aw_userId = u, aw_documentId = d, aw_type = js ''section_goal'', aw_xpAwarded = 25\<rparr>"
  by (simp_all add: event_steps_simps image_iff)

lemma award_key_of_event:
  "(\<exists>x. Award x \<in> set (event_steps ms t e) \<and> aw_userId x = i \<and> aw_documentId x = d \<and> aw_type x = ty) \<longleftrightarrow>
     (ty = js ''document_created'' \<and> e = DocumentCreated i d) \<or>
     (ty = js ''first_section'' \<and> (\<exists>sec. e = SectionCreated i d sec)) \<or>
     (ty = js ''section_goal'' \<and> (\<exists>sec n. e = SectionUpdated i d sec n \<and> 100 \<le> n))"
proof (cases "gamification_event e")
  case None
  then show ?thesis by (auto simp: event_steps_def)
next
  case (Some np)
  then consider (created) u d' where "e = DocumentCreated u d'" | (first) u d' sec where "e = SectionCreated u d' sec"
    | (goal) u d' sec n where "e = SectionUpdated u d' sec n" by (cases e) simp_all
  then show ?thesis by cases (auto simp: event_awards)
qed

lemma in_all_steps: "k \<in> set (all_steps ms es) \<longleftrightarrow> (\<exists>(t, e) \<in> set es. k \<in> set (event_steps ms t e))"
  by (induction es) auto

lemma award_keys_events:
  "award_keys i (all_steps ms es) =
     {d. \<exists>t. (t, DocumentCreated i d) \<in> set es} \<times> {js ''document_created''} \<union>
     {d. \<exists>t sec. (t, SectionCreated i d sec) \<in> set es} \<times> {js ''first_section''} \<union>
     {d. \<exists>t sec n. (t, SectionUpdated i d sec n) \<in> set es \<and> 100 \<le> n} \<times> {js ''section_goal''}" (is "?l = ?r")
proof (rule set_eqI)
  fix k :: "ident \<times> js_string"
  obtain d ty where k: "k = (d, ty)" by force
  have "k \<in> ?l \<longleftrightarrow> (\<exists>(t, e) \<in> set es. \<exists>x. Award x \<in> set (event_steps ms t e) \<and> aw_userId x = i \<and> aw_documentId x = d \<and> aw_type x = ty)"
    using in_all_steps [of _ ms es] unfolding award_keys_def k by simp blast
  also have "\<dots> \<longleftrightarrow> k \<in> ?r" unfolding award_key_of_event k by fastforce
  finally show "k \<in> ?l \<longleftrightarrow> k \<in> ?r" .
qed

lemma sum_keys: "(\<Sum>k\<in>A \<times> {ty}. rx (snd k)) = rx ty * int (card A)" for rx :: "'b \<Rightarrow> int"
proof -
  have "(\<Sum>k\<in>A \<times> {ty}. rx (snd k)) = (\<Sum>k\<in>A \<times> {ty}. rx ty)" by (rule sum.cong) auto
  then show ?thesis by (simp add: card_cartesian_product)
qed

lemma sum_award_keys:
  "(\<Sum>k\<in>award_keys i (all_steps ms es). rule_xp (snd k)) =
     50 * int (card {d. \<exists>t. (t, DocumentCreated i d) \<in> set es}) +
     25 * int (card {d. \<exists>t sec. (t, SectionCreated i d sec) \<in> set es}) +
     25 * int (card {d. \<exists>t sec n. (t, SectionUpdated i d sec n) \<in> set es \<and> 100 \<le> n})"
proof -
  let ?A = "{d. \<exists>t. (t, DocumentCreated i d) \<in> set es} \<times> {js ''document_created''}"
  let ?B = "{d. \<exists>t sec. (t, SectionCreated i d sec) \<in> set es} \<times> {js ''first_section''}"
  let ?C = "{d. \<exists>t sec n. (t, SectionUpdated i d sec n) \<in> set es \<and> 100 \<le> n} \<times> {js ''section_goal''}"
  have "finite (?A \<union> ?B \<union> ?C)" using finite_award_keys [of i "all_steps ms es"] unfolding award_keys_events .
  then have fin: "finite ?A" "finite ?B" "finite ?C" by simp_all
  have dis: "?A \<inter> ?B = {}" "(?A \<union> ?B) \<inter> ?C = {}" by auto
  have "(\<Sum>k\<in>?A \<union> ?B \<union> ?C. rule_xp (snd k)) =
      (\<Sum>k\<in>?A. rule_xp (snd k)) + (\<Sum>k\<in>?B. rule_xp (snd k)) + (\<Sum>k\<in>?C. rule_xp (snd k))"
    using fin dis by (simp only: sum.union_disjoint finite_UnI)
  then show ?thesis unfolding award_keys_events sum_keys by (simp add: rule_xp_def)
qed

definition counts_for :: "ident \<Rightarrow> daily_mission \<Rightarrow> time \<times> event \<Rightarrow> bool" where
  "counts_for i m = (\<lambda>(t, e). dy_activeDate m = to_utc_date t \<and>
     (case gamification_event e of None \<Rightarrow> False | Some (name, p) \<Rightarrow> name = mc_event (dy_criteria m) \<and> ge_userId p = i))"

lemma one_mission:
  "distinct (map dy_id ms) \<Longrightarrow> m \<in> set ms \<Longrightarrow> length (filter (\<lambda>n. P n \<and> dy_id n = dy_id m) ms) = (if P m then 1 else 0)"
proof (induction ms)
  case (Cons n ms)
  show ?case
  proof (cases "n = m")
    case True
    with Cons.prems have "dy_id q \<noteq> dy_id m" if "q \<in> set ms" for q
      using that by (metis distinct.simps(2) image_eqI list.map(2) list.set_map)
    then have "filter (\<lambda>n. P n \<and> dy_id n = dy_id m) ms = []" by (auto simp: filter_empty_conv)
    with True show ?thesis by simp
  next
    case False
    with Cons show ?thesis by (auto simp: image_iff)
  qed
qed simp

lemma advances_of_event:
  assumes "distinct (map dy_id ms)" and "m \<in> set ms"
  shows "advances i (dy_id m) (event_steps ms t e) = (if counts_for i m (t, e) then 1 else 0)"
proof (cases "gamification_event e")
  case (Some np)
  obtain name p where np: "np = (name, p)" by force
  have "filter (advances_on i (dy_id m)) (map (\<lambda>r. Award (rule_award p r)) rs) = []" for rs by (induction rs) simp_all
  moreover have "length (filter (advances_on i (dy_id m)) (map (Advance (ge_userId p)) ns)) =
      length (filter (\<lambda>n. ge_userId p = i \<and> dy_id n = dy_id m) ns)" for ns
    by (simp add: filter_map comp_def)
  moreover have "filter (\<lambda>n. ge_userId p = i \<and> dy_id n = dy_id m) (matching_missions name (filter (\<lambda>m. dy_activeDate m = to_utc_date t) ms)) =
      filter (\<lambda>n. (ge_userId p = i \<and> mc_event (dy_criteria n) = name \<and> dy_activeDate n = to_utc_date t) \<and> dy_id n = dy_id m) ms"
    by (auto simp: matching_missions_def intro: filter_cong)
  ultimately show ?thesis
    using one_mission [OF assms, of "\<lambda>n. ge_userId p = i \<and> mc_event (dy_criteria n) = name \<and> dy_activeDate n = to_utc_date t"]
    by (auto simp: advances_def event_steps_def Some np counts_for_def)
qed (simp add: event_steps_def advances_def counts_for_def)

lemma advances_events:
  assumes "distinct (map dy_id ms)" and "m \<in> set ms"
  shows "advances i (dy_id m) (all_steps ms es) = int (length (filter (counts_for i m) es))"
proof (induction es)
  case (Cons te es)
  obtain t e where te: "te = (t, e)" by force
  have "advances i (dy_id m) (xs @ ys) = advances i (dy_id m) xs + advances i (dy_id m) ys" for xs ys by (simp add: advances_def)
  with Cons show ?case using advances_of_event [OF assms, of i t e] by (simp add: te)
qed (simp add: advances_def)

lemma due_xp_mset: "mset ks = mset ks' \<Longrightarrow> due_xp rx ms i ks = due_xp rx ms i ks'"
proof -
  assume eq: "mset ks = mset ks'"
  then have "award_keys i ks = award_keys i ks'" using mset_eq_setD [OF eq] by (simp add: award_keys_def)
  moreover have "advances i k ks = advances i k ks'" for k
    using eq unfolding advances_def by (metis mset_filter size_mset)
  ultimately show ?thesis by (simp add: due_xp_def)
qed

lemma xp_earned:
  assumes "newcomer s i xp"
    and "mset (map (\<lambda>(_, _, k). k) steps) = mset (all_steps (gs_missions s) es)"
    and "list_all (step_ok s) (all_steps (gs_missions s) es)"
    and "earned = xp + 50 * int (card {d. \<exists>t. (t, DocumentCreated i d) \<in> set es}) +
      25 * int (card {d. \<exists>t sec. (t, SectionCreated i d sec) \<in> set es}) +
      25 * int (card {d. \<exists>t sec n. (t, SectionUpdated i d sec n) \<in> set es \<and> 100 \<le> n}) +
      (\<Sum>m\<in>set (gs_missions s). if max 1 (mc_target (dy_criteria m)) \<le> int (length (filter (counts_for i m) es))
         then dy_xpReward m else 0)"
  shows "points (run_steps steps s) i = Some (earned, sql_div earned 100 + 1)"
proof -
  let ?ks = "map (\<lambda>(_, _, k). k) steps"
  have d: "distinct (map dy_id (gs_missions s))" using assms(1) by (simp add: newcomer_def)
  have "\<forall>k \<in> set ?ks. step_ok s k \<and> rewarded_by rule_xp k"
    using mset_eq_setD [OF assms(2)] assms(3) event_steps_rewarded unfolding list_all_iff by fastforce
  then have "list_all (\<lambda>(_, _, k). step_ok s k \<and> rewarded_by rule_xp k) steps" by (auto simp: list_all_iff)
  from run_steps_account [OF assms(1) this]
  have "points (run_steps steps s) i = Some (xp + due_xp rule_xp (gs_missions s) i ?ks, level_at (xp + due_xp rule_xp (gs_missions s) i ?ks))"
    by (simp add: accounts_for_def)
  moreover have "(\<Sum>m\<in>set (gs_missions s). if completes (advances i (dy_id m) (all_steps (gs_missions s) es)) m then dy_xpReward m else 0) =
      (\<Sum>m\<in>set (gs_missions s). if max 1 (mc_target (dy_criteria m)) \<le> int (length (filter (counts_for i m) es)) then dy_xpReward m else 0)"
    by (rule sum.cong) (simp_all add: advances_events [OF d] completes_def)
  then have "xp + due_xp rule_xp (gs_missions s) i ?ks = earned"
    by (simp only: due_xp_mset [OF assms(2)] assms(4) due_xp_def [of _ _ _ "all_steps (gs_missions s) es"] sum_award_keys add.assoc)
  ultimately show ?thesis by (simp add: level_at_def xp_per_level_def)
qed

lemma events_run_steps:
  assumes "list_all (step_ok s) (all_steps (gs_missions s) es)" and "same_rows s s1"
  shows "\<exists>steps. map (\<lambda>(_, _, k). k) steps = all_steps (gs_missions s) es \<and>
    fold (\<lambda>(t, e). on_event fresh t e) es s1 = run_steps steps s1"
  using assms
proof (induction es arbitrary: s1)
  case (Cons te es)
  obtain t e where te: "te = (t, e)" by force
  have m: "gs_missions s1 = gs_missions s" "progress_unique s1" using Cons.prems(2) by (simp_all add: same_rows_def)
  have "list_all (step_ok s1) (event_steps (gs_missions s1) t e)"
    using Cons.prems same_rows_step unfolding m te list_all_iff by fastforce
  from event_runs_steps [OF this m(2)] obtain st1 where st1: "map (\<lambda>(_, _, k). k) st1 = event_steps (gs_missions s) t e"
    "on_event fresh t e s1 = run_steps st1 s1" "same_rows s1 (run_steps st1 s1)" unfolding m by blast
  have "same_rows s (run_steps st1 s1)" using st1(3) Cons.prems(2) by (simp add: same_rows_def)
  with Cons obtain st2 where st2: "map (\<lambda>(_, _, k). k) st2 = all_steps (gs_missions s) es"
    "fold (\<lambda>(t, e). on_event fresh t e) es (run_steps st1 s1) = run_steps st2 (run_steps st1 s1)" by force
  show ?case by (rule exI [of _ "st1 @ st2"]) (simp add: te st1 st2)
qed simp

section \<open>Properties\<close>

text \<open>C32: The points of a user are exactly what their events earn, whether they are handled one after another
  or their awards interleave in any order: 50 for every document created, 25 for every document with a
  section, 25 for every document with a section of a hundred words, and the reward of every daily
  mission whose target the matching events of its day reach, each once. The level follows from the points.\<close>

theorem xp_is_what_events_earn:
  assumes "newcomer s i xp"
    and "list_all (step_ok s) (all_steps (gs_missions s) es)"
    and "earned = xp + 50 * int (card {d. \<exists>t. (t, DocumentCreated i d) \<in> set es}) +
      25 * int (card {d. \<exists>t sec. (t, SectionCreated i d sec) \<in> set es}) +
      25 * int (card {d. \<exists>t sec n. (t, SectionUpdated i d sec n) \<in> set es \<and> 100 \<le> n}) +
      (\<Sum>m\<in>set (gs_missions s). if max 1 (mc_target (dy_criteria m)) \<le> int (length (filter (counts_for i m) es))
         then dy_xpReward m else 0)"
  shows "points (fold (\<lambda>(t, e). on_event fresh t e) es s) i = Some (earned, sql_div earned 100 + 1) \<and>
    (\<forall>steps. mset (map (\<lambda>(_, _, k). k) steps) = mset (all_steps (gs_missions s) es) \<longrightarrow>
       points (run_steps steps s) i = Some (earned, sql_div earned 100 + 1))"
proof -
  have "same_rows s s" using assms(1) by (simp add: newcomer_def same_rows_def)
  from events_run_steps [OF assms(2) this, of fresh] obtain steps where
    "map (\<lambda>(_, _, k). k) steps = all_steps (gs_missions s) es" "fold (\<lambda>(t, e). on_event fresh t e) es s = run_steps steps s" by blast
  moreover have "points (run_steps st s) i = Some (earned, sql_div earned 100 + 1)"
    if "mset (map (\<lambda>(_, _, k). k) st) = mset (all_steps (gs_missions s) es)" for st
    by (rule xp_earned [OF assms(1) that assms(2,3)])
  ultimately show ?thesis by metis
qed

definition demo_gamification :: gamification_state where
  "demo_gamification = \<lparr>gs_milestones = [], gs_missions = [\<lparr>dy_id = js ''m'', dy_code = js ''c'', dy_description = [],
       dy_xpReward = 10, dy_criteria = \<lparr>mc_event = document_created_event, mc_target = 1\<rparr>, dy_activeDate = to_utc_date 0, dy_createdAt = 0\<rparr>],
     gs_progress = [], gs_users = [new_user_row (js ''u'') (js ''a'') (js ''h'') (js ''A'') 0], gs_documents = [js ''d'']\<rparr>"

text \<open>One document created, its event delivered twice: 50 points and the mission's 10.\<close>

theorem xp_is_what_events_earn_witness:
  "points (fold (\<lambda>(t, e). on_event (\<lambda>_. []) t e) [(0, DocumentCreated (js ''u'') (js ''d'')), (1, DocumentCreated (js ''u'') (js ''d''))]
     demo_gamification) (js ''u'') = Some (60, 1)"
proof -
  let ?es = "[(0, DocumentCreated (js ''u'') (js ''d'')), (1, DocumentCreated (js ''u'') (js ''d''))]"
  have date: "to_utc_date 1 = to_utc_date 0" by (simp add: to_utc_date_def day_of_time_def)
  have new: "newcomer demo_gamification (js ''u'') 0"
    by (simp add: newcomer_def demo_gamification_def points_def xp_and_level_def new_user_row_def awarded_def progress_on_def
        progress_unique_def level_at_def sql_div_def)
  have ok: "list_all (step_ok demo_gamification) (all_steps (gs_missions demo_gamification) ?es)"
    by (simp add: demo_gamification_def event_steps_simps matching_missions_def user_exists_def new_user_row_def date)
  have c: "{d. \<exists>t. (t, DocumentCreated (js ''u'') d) \<in> set ?es} = {js ''d''}"
    "{d. \<exists>t sec. (t, SectionCreated (js ''u'') d sec) \<in> set ?es} = {}"
    "{d. \<exists>t sec n. (t, SectionUpdated (js ''u'') d sec n) \<in> set ?es \<and> 100 \<le> n} = {}" by auto
  have m: "(\<Sum>m\<in>set (gs_missions demo_gamification). if max 1 (mc_target (dy_criteria m)) \<le>
      int (length (filter (counts_for (js ''u'') m) ?es)) then dy_xpReward m else 0) = 10"
    by (simp add: demo_gamification_def counts_for_def date)
  have "60 = (0 :: int) + 50 * int (card {d. \<exists>t. (t, DocumentCreated (js ''u'') d) \<in> set ?es}) +
      25 * int (card {d. \<exists>t sec. (t, SectionCreated (js ''u'') d sec) \<in> set ?es}) +
      25 * int (card {d. \<exists>t sec n. (t, SectionUpdated (js ''u'') d sec n) \<in> set ?es \<and> 100 \<le> n}) +
      (\<Sum>m\<in>set (gs_missions demo_gamification). if max 1 (mc_target (dy_criteria m)) \<le>
        int (length (filter (counts_for (js ''u'') m) ?es)) then dy_xpReward m else 0)"
    unfolding c m by simp
  from xp_is_what_events_earn [OF new ok this, of "\<lambda>_. []"] show ?thesis by (simp add: sql_div_def)
qed

end
