(* ===== verification/AuditTrail.thy ===== *)
theory AuditTrail
  imports SessionEvents
begin

text \<open>
  The audit trail: the listener on the domain events (\<open>presentation/audit/audit.listener.ts\<close>), the
  use-case and the append-only table \<open>audit_logs\<close>. The foreign key on \<open>users\<close> refuses a row
  of an unknown account; a failing write is logged and swallowed.
\<close>

section \<open>Rows\<close>

record audit_data =
  aud_userId :: "ident option"
  aud_action :: js_string
  aud_metadata :: "json_obj option"
  aud_ip :: "js_string option"

record audit_log = audit_data +
  al_id :: ident
  al_createdAt :: time

text \<open>The table, and the errors the listener has logged.\<close>

record audit_state =
  as_rows :: "audit_log list"
  as_errors :: "js_string list"

text \<open>What a write meets: an error of the database, the ids of \<open>users\<close>, the generated id, the clock.\<close>

record audit_write =
  aw_outage :: "js_string option"
  aw_users :: "ident set"
  aw_id :: ident
  aw_now :: time

definition save_audit :: "audit_write \<Rightarrow> audit_data \<Rightarrow> audit_log list \<Rightarrow> (js_string + audit_log) \<times> audit_log list" where
  "save_audit w d rows =
     (case aw_outage w of
        Some e \<Rightarrow> (Inl e, rows)
      | None \<Rightarrow>
          (if (case aud_userId d of None \<Rightarrow> False | Some u \<Rightarrow> u \<notin> aw_users w)
           then (Inl (js ''foreign key violation''), rows)
           else (let r = audit_data.extend d \<lparr>al_id = aw_id w, al_createdAt = aw_now w\<rparr> in (Inr r, rows @ [r]))))"

definition record_audit_event :: "audit_write \<Rightarrow> audit_data \<Rightarrow> audit_log list \<Rightarrow> (js_string + audit_log) \<times> audit_log list" where
  "record_audit_event w inp rows = save_audit w
     \<lparr>aud_userId = aud_userId inp, aud_action = aud_action inp, aud_metadata = aud_metadata inp, aud_ip = aud_ip inp\<rparr> rows"

section \<open>The listener\<close>

definition audit_input :: "js_string \<Rightarrow> ident option \<Rightarrow> json_obj option \<Rightarrow> audit_data" where
  "audit_input action user metadata = \<lparr>aud_userId = user, aud_action = action, aud_metadata = metadata, aud_ip = None\<rparr>"

definition safe_record :: "audit_write \<Rightarrow> audit_data \<Rightarrow> audit_state \<Rightarrow> audit_state" where
  "safe_record w inp s =
     (case record_audit_event w inp (as_rows s) of
        (Inr _, rows) \<Rightarrow> s\<lparr>as_rows := rows\<rparr>
      | (Inl e, rows) \<Rightarrow> s\<lparr>as_rows := rows, as_errors := as_errors s @
          [js ''Audit logging failed for '' @ [39] @ aud_action inp @ [39] @ js '' (userId='' @
           (case aud_userId inp of None \<Rightarrow> js ''unknown'' | Some u \<Rightarrow> u) @ js ''): '' @ e]\<rparr>)"

definition prompt_metadata :: "ident \<Rightarrow> js_string \<Rightarrow> js_string \<Rightarrow> json_obj" where
  "prompt_metadata i feature version =
     [(js ''promptId'', JStr i), (js ''featureType'', JStr feature), (js ''version'', JStr version)]"

definition template_metadata :: "ident \<Rightarrow> js_string list option \<Rightarrow> json_obj" where
  "template_metadata i changed = (js ''templateId'', JStr i) #
     (case changed of None \<Rightarrow> [] | Some fs \<Rightarrow> [(js ''changedFields'', JArr (map JStr fs))])"

text \<open>The handlers, one clause each: what is recorded of an event, if anything is.\<close>

fun audited :: "event \<Rightarrow> audit_data option" where
  "audited (AuthLogin u) = Some (audit_input (js ''auth.login'') (Some u) None)"
| "audited (AuthLoginFailed u email) = Some (audit_input (js ''auth.login_failed'') u (Some [(js ''email'', JStr email)]))"
| "audited (AuthLoginThrottled email) = Some (audit_input (js ''auth.login_throttled'') None (Some [(js ''email'', JStr email)]))"
| "audited (AuthLogout u) = Some (audit_input (js ''auth.logout'') (Some u) None)"
| "audited (AuthPasswordResetRequested u) = Some (audit_input (js ''auth.password_reset_requested'') (Some u) None)"
| "audited (AuthPasswordResetCompleted u) = Some (audit_input (js ''auth.password_reset_completed'') (Some u) None)"
| "audited (AuthPasswordChanged u) = Some (audit_input (js ''auth.password_changed'') (Some u) None)"
| "audited (AuthEmailVerified u) = Some (audit_input (js ''auth.email_verified'') (Some u) None)"
| "audited (ConnectorRevoked u i p) = Some (audit_input (js ''connector.revoked'') (Some u) (Some [(js ''connectionId'', JStr i), (js ''provider'', JStr p)]))"
| "audited (SuggestionReviewed u i c) = Some (audit_input (js ''suggestion.reviewed'') (Some u) (Some [(js ''suggestionId'', JStr i), (js ''decision'', JStr c)]))"
| "audited (PromptCreated u i f v) = Some (audit_input (js ''prompt.created'') (Some u) (Some (prompt_metadata i f v)))"
| "audited (PromptActivated u i f v) = Some (audit_input (js ''prompt.activated'') (Some u) (Some (prompt_metadata i f v)))"
| "audited (TemplateCreated u i) = Some (audit_input (js ''template.created'') (Some u) (Some (template_metadata i None)))"
| "audited (TemplateUpdated u i fs) = Some (audit_input (js ''template.updated'') (Some u) (Some (template_metadata i (Some fs))))"
| "audited (TemplatePublished u i) = Some (audit_input (js ''template.published'') (Some u) (Some (template_metadata i None)))"
| "audited (TemplateUnpublished u i) = Some (audit_input (js ''template.unpublished'') (Some u) (Some (template_metadata i None)))"
| "audited (TemplateDeleted u i) = Some (audit_input (js ''template.deleted'') (Some u) (Some (template_metadata i None)))"
| "audited (UserDisabled u actor) = Some (audit_input (js ''user.disabled'') (Some actor) (Some [(js ''targetUserId'', JStr u)]))"
| "audited (UserEnabled u actor) = Some (audit_input (js ''user.enabled'') (Some actor) (Some [(js ''targetUserId'', JStr u)]))"
| "audited (AiConsentAccepted u v) = Some (audit_input (js ''ai.consent_accepted'') (Some u) (Some [(js ''version'', JStr v)]))"
| "audited (AiConsentWithdrawn u) = Some (audit_input (js ''ai.consent_withdrawn'') (Some u) None)"
| "audited _ = None"

definition on_audit_event :: "audit_write \<Rightarrow> event \<Rightarrow> audit_state \<Rightarrow> audit_state" where
  "on_audit_event w e s = (case audited e of None \<Rightarrow> s | Some d \<Rightarrow> safe_record w d s)"

section \<open>Lemmas\<close>

definition accepted :: "audit_write \<Rightarrow> audit_data \<Rightarrow> bool" where
  "accepted w d \<longleftrightarrow> aw_outage w = None \<and> (case aud_userId d of None \<Rightarrow> True | Some u \<Rightarrow> u \<in> aw_users w)"

definition row_of :: "audit_write \<Rightarrow> audit_data \<Rightarrow> audit_log" where
  "row_of w d = audit_data.extend d \<lparr>al_id = aw_id w, al_createdAt = aw_now w\<rparr>"

lemma safe_record_effect:
  "as_rows (safe_record w d s) = as_rows s @ (if accepted w d then [row_of w d] else [])"
  "length (as_errors (safe_record w d s)) = length (as_errors s) + (if accepted w d then 0 else 1)"
  by (auto simp: safe_record_def record_audit_event_def save_audit_def accepted_def row_of_def Let_def audit_data.defs
      split: option.splits)

text \<open>The listener at work: the events it handles, in order, each with what its write meets.\<close>

fun audit_run :: "(audit_write \<times> event) list \<Rightarrow> audit_state \<Rightarrow> audit_state" where
  "audit_run [] s = s"
| "audit_run ((w, e) # ds) s = audit_run ds (on_audit_event w e s)"

fun written :: "audit_write \<times> event \<Rightarrow> audit_log option" where
  "written (w, e) = (case audited e of None \<Rightarrow> None | Some d \<Rightarrow> if accepted w d then Some (row_of w d) else None)"

definition lost :: "audit_write \<times> event \<Rightarrow> bool" where
  "lost d \<longleftrightarrow> audited (snd d) \<noteq> None \<and> written d = None"

lemma audit_run_effect:
  "as_rows (audit_run ds s) = as_rows s @ List.map_filter written ds \<and>
   length (as_errors (audit_run ds s)) = length (as_errors s) + length (filter lost ds)"
proof (induction ds arbitrary: s)
  case Nil
  show ?case by (simp add: map_filter_simps)
next
  case (Cons d ds)
  obtain w e where d: "d = (w, e)" by (cases d)
  show ?case
    using Cons.IH [of "on_audit_event w e s"]
    by (cases "audited e") (auto simp: d on_audit_event_def safe_record_effect map_filter_simps lost_def)
qed

lemma row_of_sel [simp]:
  "aud_userId (row_of w d) = aud_userId d" "aud_action (row_of w d) = aud_action d" "aud_metadata (row_of w d) = aud_metadata d"
  "audit_data.truncate (row_of w d) = d"
  by (simp_all add: row_of_def audit_data.defs)

text \<open>Reading a row back.\<close>

fun the_text :: "json \<Rightarrow> js_string" where
  "the_text (JStr s) = s"
| "the_text _ = []"

definition meta :: "audit_data \<Rightarrow> js_string \<Rightarrow> json option" where
  "meta d k = (case aud_metadata d of None \<Rightarrow> None | Some m \<Rightarrow> map_of m k)"

definition meta_text :: "audit_data \<Rightarrow> string \<Rightarrow> js_string" where
  "meta_text d k = (case meta d (js k) of None \<Rightarrow> [] | Some v \<Rightarrow> the_text v)"

definition recorded_event :: "audit_data \<Rightarrow> event option" where
  "recorded_event d =
     (if aud_action d = js ''auth.login'' then Some (AuthLogin (the (aud_userId d)))
      else if aud_action d = js ''auth.login_failed'' then Some (AuthLoginFailed (aud_userId d) (meta_text d ''email''))
      else if aud_action d = js ''auth.login_throttled'' then Some (AuthLoginThrottled (meta_text d ''email''))
      else if aud_action d = js ''auth.logout'' then Some (AuthLogout (the (aud_userId d)))
      else if aud_action d = js ''auth.password_reset_requested'' then Some (AuthPasswordResetRequested (the (aud_userId d)))
      else if aud_action d = js ''auth.password_reset_completed'' then Some (AuthPasswordResetCompleted (the (aud_userId d)))
      else if aud_action d = js ''auth.password_changed'' then Some (AuthPasswordChanged (the (aud_userId d)))
      else if aud_action d = js ''auth.email_verified'' then Some (AuthEmailVerified (the (aud_userId d)))
      else if aud_action d = js ''connector.revoked'' then Some (ConnectorRevoked (the (aud_userId d)) (meta_text d ''connectionId'') (meta_text d ''provider''))
      else if aud_action d = js ''suggestion.reviewed'' then Some (SuggestionReviewed (the (aud_userId d)) (meta_text d ''suggestionId'') (meta_text d ''decision''))
      else if aud_action d = js ''prompt.created'' then Some (PromptCreated (the (aud_userId d)) (meta_text d ''promptId'') (meta_text d ''featureType'') (meta_text d ''version''))
      else if aud_action d = js ''prompt.activated'' then Some (PromptActivated (the (aud_userId d)) (meta_text d ''promptId'') (meta_text d ''featureType'') (meta_text d ''version''))
      else if aud_action d = js ''template.created'' then Some (TemplateCreated (the (aud_userId d)) (meta_text d ''templateId''))
      else if aud_action d = js ''template.updated'' then Some (TemplateUpdated (the (aud_userId d)) (meta_text d ''templateId'') (case meta d (js ''changedFields'') of Some (JArr vs) \<Rightarrow> map the_text vs | _ \<Rightarrow> []))
      else if aud_action d = js ''template.published'' then Some (TemplatePublished (the (aud_userId d)) (meta_text d ''templateId''))
      else if aud_action d = js ''template.unpublished'' then Some (TemplateUnpublished (the (aud_userId d)) (meta_text d ''templateId''))
      else if aud_action d = js ''template.deleted'' then Some (TemplateDeleted (the (aud_userId d)) (meta_text d ''templateId''))
      else if aud_action d = js ''user.disabled'' then Some (UserDisabled (meta_text d ''targetUserId'') (the (aud_userId d)))
      else if aud_action d = js ''user.enabled'' then Some (UserEnabled (meta_text d ''targetUserId'') (the (aud_userId d)))
      else if aud_action d = js ''ai.consent_accepted'' then Some (AiConsentAccepted (the (aud_userId d)) (meta_text d ''version''))
      else if aud_action d = js ''ai.consent_withdrawn'' then Some (AiConsentWithdrawn (the (aud_userId d)))
      else None)"

lemma meta_audit_input [simp]:
  "meta (audit_input a u None) k = None" "meta (audit_input a u (Some m)) k = map_of m k"
  "aud_action (audit_input a u md) = a" "aud_userId (audit_input a u md) = u"
  by (simp_all add: meta_def audit_input_def)

lemma recorded_event_the: "audited e \<noteq> None \<Longrightarrow> recorded_event (the (audited e)) = Some e"
  by (cases e) (simp_all add: recorded_event_def meta_text_def prompt_metadata_def template_metadata_def comp_def)

lemma recorded_event_audited: "audited e = Some d \<Longrightarrow> recorded_event d = Some e"
  using recorded_event_the [of e] by simp

section \<open>Properties\<close>

text \<open>The trail loses nothing of what it records: two events with the same recorded action, user and
  metadata are the same event, so the action names are one to one with the kinds of event.\<close>

theorem audit_row_identifies_event:
  assumes "audited e = Some d" and "audited e' = Some d"
  shows "e = e'"
  using recorded_event_audited [OF assms(1)] recorded_event_audited [OF assms(2)] by simp

theorem audit_row_identifies_event_witness:
  "UserDisabled (js ''u'') (js ''a'') = UserDisabled (js ''u'') (js ''a'')"
  by (rule audit_row_identifies_event [OF _ audited.simps(18)]) simp


definition names_user :: "ident \<Rightarrow> audit_log \<Rightarrow> bool" where
  "names_user u r \<longleftrightarrow> aud_userId r = Some u \<or> aud_metadata r = Some [(js ''targetUserId'', JStr u)]"

definition session_end_actions :: "js_string list" where
  "session_end_actions = map js [''auth.logout'', ''auth.password_changed'', ''auth.password_reset_completed'', ''user.disabled'']"


definition demo_write :: audit_write where
  "demo_write = \<lparr>aw_outage = None, aw_users = {js ''u1''}, aw_id = js ''r1'', aw_now = 9\<rparr>"


end
