(* ===== verification/EnvValidation.thy ===== *)
theory EnvValidation
  imports Complex_Main JsText
begin

text \<open>
  Environment validation at boot (\<open>config/env.validation.ts\<close>, \<open>config/postgres-ssl.ts\<close>): the schema of the variables,
  their conversion, and the checks of the deployed tiers. \<open>process.env\<close> maps names to texts. Of
  \<open>class-transformer\<close> and \<open>class-validator\<close> the model keeps what the decorators document: a variable that is absent
  keeps the default of its class, implicit conversion is \<open>Number(text)\<close> for a number, \<open>IsOptional\<close> accepts an undefined
  value. Parameters: \<open>Number\<close> of a text (nothing for \<open>NaN\<close> and the infinities), \<open>toLowerCase\<close>, the length that
  \<open>MinLength\<close> counts, the URL check of \<open>IsUrl\<close>, and the credentials of \<open>new URL(text)\<close>.
\<close>

section \<open>Fields\<close>

datatype env_value = EUndefined | EString js_string | ENumber rat | ENaN | EBool bool

datatype env_type = TString | TNumber | TBoolean

datatype env_transform = Plain | BlankToUndefined | ParseTrue | ParseStrict

datatype env_constraint =
    IsOptional | IsString | IsNotEmpty | IsInt | IsNumber | IsBoolean | IsUrl | IsAppBaseUrl
  | IsIn "js_string list" | AtLeast int | AtMost int | MinLength nat

record env_field =
  ef_name :: js_string
  ef_type :: env_type
  ef_transform :: env_transform
  ef_default :: env_value
  ef_constraints :: "env_constraint list"

record env_deps =
  ed_number :: "js_string \<Rightarrow> rat option"
  ed_lower :: "js_string \<Rightarrow> js_string"
  ed_length :: "js_string \<Rightarrow> nat"
  ed_is_url :: "js_string \<Rightarrow> bool"
  ed_url :: "js_string \<Rightarrow> (js_string \<times> js_string) option"

type_synonym env_config = "js_string \<Rightarrow> js_string option"

definition env_var :: "string \<Rightarrow> env_type \<Rightarrow> env_transform \<Rightarrow> env_value \<Rightarrow> env_constraint list \<Rightarrow> env_field" where
  "env_var name ty tr dflt cs =
     \<lparr>ef_name = js name, ef_type = ty, ef_transform = tr, ef_default = dflt, ef_constraints = cs\<rparr>"

definition node_envs :: "js_string list" where
  "node_envs = map js [''development'', ''staging'', ''production'', ''test'']"

definition jwt_secret_placeholder :: js_string where
  "jwt_secret_placeholder = js ''dev-only-change-me-to-a-32char-min-random-secret''"

section \<open>The schema\<close>

definition database_fields :: "env_field list" where
  "database_fields =
     [env_var ''NODE_ENV'' TString Plain (EString (js ''development'')) [IsOptional, IsIn node_envs],
      env_var ''PORT'' TNumber Plain (ENumber 3000) [IsOptional, IsInt, AtLeast 0, AtMost 65535],
      env_var ''MONGODB_URI'' TString Plain EUndefined [IsString, IsNotEmpty],
      env_var ''POSTGRES_HOST'' TString Plain EUndefined [IsString, IsNotEmpty],
      env_var ''POSTGRES_PORT'' TNumber Plain EUndefined [IsInt, AtLeast 0, AtMost 65535],
      env_var ''POSTGRES_USER'' TString Plain EUndefined [IsString, IsNotEmpty],
      env_var ''POSTGRES_PASSWORD'' TString Plain EUndefined [IsString, IsNotEmpty],
      env_var ''POSTGRES_DB'' TString Plain EUndefined [IsString, IsNotEmpty],
      env_var ''POSTGRES_SSL'' TBoolean ParseTrue (EBool False) [IsOptional, IsBoolean],
      env_var ''POSTGRES_SSL_REJECT_UNAUTHORIZED'' TBoolean ParseStrict (EBool True) [IsOptional, IsBoolean]]"

definition access_fields :: "env_field list" where
  "access_fields =
     [env_var ''JWT_SECRET'' TString Plain EUndefined [IsString, IsNotEmpty, MinLength 32],
      env_var ''JWT_EXPIRES_IN'' TString Plain (EString (js ''15m'')) [IsOptional, IsString],
      env_var ''REDIS_HOST'' TString Plain EUndefined [IsString, IsNotEmpty],
      env_var ''REDIS_PORT'' TNumber Plain EUndefined [IsInt, AtLeast 1, AtMost 65535],
      env_var ''REDIS_PASSWORD'' TString Plain EUndefined [IsOptional, IsString],
      env_var ''REDIS_TLS'' TBoolean ParseTrue (EBool False) [IsOptional, IsBoolean],
      env_var ''THROTTLE_TTL'' TNumber Plain (ENumber 60000) [IsOptional, IsInt, AtLeast 1],
      env_var ''THROTTLE_LIMIT'' TNumber Plain (ENumber 100) [IsOptional, IsInt, AtLeast 1],
      env_var ''WS_CORS_ORIGIN'' TString Plain (EString (js ''*'')) [IsOptional, IsString],
      env_var ''CORS_ORIGIN'' TString Plain (EString (js ''*'')) [IsOptional, IsString]]"

definition engine_fields :: "env_field list" where
  "engine_fields =
     [env_var ''COMPOSIO_API_KEY'' TString Plain EUndefined [IsString, IsNotEmpty],
      env_var ''COMPOSIO_BASE_URL'' TString Plain EUndefined [IsOptional, IsString],
      env_var ''COMPOSIO_AUTH_CONFIG_IDS'' TString Plain EUndefined [IsString, IsNotEmpty],
      env_var ''COMPOSIO_WEBHOOK_SECRET'' TString Plain EUndefined [IsString, IsNotEmpty],
      env_var ''CONTEXT_ENGINE_URL'' TString Plain EUndefined [IsOptional, IsString],
      env_var ''CONTEXT_ENGINE_API_KEY'' TString Plain EUndefined [IsOptional, IsString],
      env_var ''CONTEXT_ENGINE_TIMEOUT_MS'' TNumber Plain (ENumber 10000) [IsOptional, IsInt, AtLeast 1]]"

definition ai_fields :: "env_field list" where
  "ai_fields =
     [env_var ''OPENROUTER_API_KEY'' TString Plain EUndefined [IsOptional, IsString],
      env_var ''OPENROUTER_MODEL'' TString Plain (EString (js ''openrouter/free'')) [IsOptional, IsString],
      env_var ''OPENROUTER_FALLBACK_MODELS'' TString Plain EUndefined [IsOptional, IsString],
      env_var ''OPENROUTER_MAX_TOKENS'' TNumber Plain (ENumber 4096) [IsOptional, IsInt, AtLeast 1],
      env_var ''OPENROUTER_TIMEOUT_MS'' TNumber Plain (ENumber 60000) [IsOptional, IsInt, AtLeast 1],
      env_var ''OPENROUTER_MAX_RETRIES'' TNumber Plain (ENumber 1) [IsOptional, IsInt, AtLeast 0, AtMost 3],
      env_var ''AI_MAX_INPUT_CHARS'' TNumber Plain (ENumber 40000) [IsOptional, IsInt, AtLeast 1, AtMost 200000],
      env_var ''AI_USER_DAILY_LIMIT'' TNumber Plain (ENumber 10) [IsOptional, IsInt, AtLeast 0],
      env_var ''AI_GLOBAL_DAILY_LIMIT'' TNumber Plain (ENumber 40) [IsOptional, IsInt, AtLeast 0],
      env_var ''AI_CACHE_TTL_SECONDS'' TNumber Plain (ENumber 86400) [IsOptional, IsInt, AtLeast 0],
      env_var ''OPENROUTER_BASE_URL'' TString Plain (EString (js ''https://openrouter.ai/api/v1'')) [IsOptional, IsString]]"

definition delivery_fields :: "env_field list" where
  "delivery_fields =
     [env_var ''RABBITMQ_URL'' TString Plain EUndefined [IsOptional, IsString],
      env_var ''CONTEXT_GATHER_TIMEOUT_MS'' TNumber Plain (ENumber 120000) [IsOptional, IsInt, AtLeast 1],
      env_var ''RESEND_API_KEY'' TString BlankToUndefined EUndefined [IsOptional, IsString],
      env_var ''EMAIL_FROM'' TString BlankToUndefined EUndefined [IsOptional, IsString],
      env_var ''APP_BASE_URL'' TString BlankToUndefined EUndefined [IsOptional, IsAppBaseUrl, IsUrl],
      env_var ''EMAIL_VERIFICATION_REQUIRED'' TBoolean ParseTrue (EBool False) [IsOptional, IsBoolean],
      env_var ''SENTRY_DSN'' TString Plain EUndefined [IsOptional, IsString],
      env_var ''SENTRY_ENVIRONMENT'' TString Plain EUndefined [IsOptional, IsString],
      env_var ''SENTRY_TRACES_SAMPLE_RATE'' TNumber Plain (ENumber 0) [IsOptional, IsNumber, AtLeast 0, AtMost 1],
      env_var ''SENTRY_RELEASE'' TString Plain EUndefined [IsOptional, IsString]]"

definition env_schema :: "env_field list" where
  "env_schema = database_fields @ access_fields @ engine_fields @ ai_fields @ delivery_fields"

section \<open>Conversion\<close>

definition parse_true :: "env_deps \<Rightarrow> js_string \<Rightarrow> bool" where
  "parse_true d raw \<longleftrightarrow> ed_lower d raw = js ''true''"

text \<open>\<open>parsePostgresSslRejectUnauthorized\<close> of a text; \<open>None\<close> is its error.\<close>

definition parse_reject_unauthorized :: "env_deps \<Rightarrow> js_string option \<Rightarrow> bool option" where
  "parse_reject_unauthorized d raw =
     (case raw of
        None \<Rightarrow> Some True
      | Some s \<Rightarrow>
          (let v = ed_lower d (trim s) in
           if v = [] then Some True else if v = js ''true'' then Some True
           else if v = js ''false'' then Some False else None))"

definition blank_to_undefined :: "js_string \<Rightarrow> env_value" where
  "blank_to_undefined s = (if trim s = [] then EUndefined else EString s)"

definition convert :: "env_deps \<Rightarrow> env_field \<Rightarrow> js_string \<Rightarrow> env_value" where
  "convert d f raw =
     (case ef_transform f of
        BlankToUndefined \<Rightarrow> blank_to_undefined raw
      | ParseTrue \<Rightarrow> EBool (parse_true d raw)
      | ParseStrict \<Rightarrow> (case parse_reject_unauthorized d (Some raw) of Some b \<Rightarrow> EBool b | None \<Rightarrow> EString raw)
      | Plain \<Rightarrow>
          (case ef_type f of
             TNumber \<Rightarrow> (case ed_number d raw of Some r \<Rightarrow> ENumber r | None \<Rightarrow> ENaN)
           | _ \<Rightarrow> EString raw))"

definition load_field :: "env_deps \<Rightarrow> env_config \<Rightarrow> env_field \<Rightarrow> env_value" where
  "load_field d cfg f =
     (case cfg (ef_name f) of
        None \<Rightarrow> ef_default f
      | Some raw \<Rightarrow> (case convert d f raw of EUndefined \<Rightarrow> ef_default f | v \<Rightarrow> v))"

section \<open>Constraints\<close>

definition is_integer :: "rat \<Rightarrow> bool" where
  "is_integer r \<longleftrightarrow> of_int \<lfloor>r\<rfloor> = r"

text \<open>\<open>AppBaseUrlConstraint\<close>.\<close>

definition app_base_url_ok :: "env_deps \<Rightarrow> js_string \<Rightarrow> bool" where
  "app_base_url_ok d s \<longleftrightarrow>
     (if str_includes s (js ''?'') \<or> str_includes s (js ''#'') then False
      else case ed_url d s of None \<Rightarrow> False | Some (user, password) \<Rightarrow> user = [] \<and> password = [])"

fun holds :: "env_deps \<Rightarrow> env_value \<Rightarrow> env_constraint \<Rightarrow> bool" where
  "holds d v IsOptional = True"
| "holds d v IsString = (case v of EString _ \<Rightarrow> True | _ \<Rightarrow> False)"
| "holds d v IsNotEmpty = (v \<noteq> EString [] \<and> v \<noteq> EUndefined)"
| "holds d v IsInt = (case v of ENumber r \<Rightarrow> is_integer r | _ \<Rightarrow> False)"
| "holds d v IsNumber = (case v of ENumber _ \<Rightarrow> True | _ \<Rightarrow> False)"
| "holds d v IsBoolean = (case v of EBool _ \<Rightarrow> True | _ \<Rightarrow> False)"
| "holds d v IsUrl = (case v of EString s \<Rightarrow> ed_is_url d s | _ \<Rightarrow> False)"
| "holds d v IsAppBaseUrl = (case v of EString s \<Rightarrow> app_base_url_ok d s | _ \<Rightarrow> False)"
| "holds d v (IsIn xs) = (case v of EString s \<Rightarrow> s \<in> set xs | _ \<Rightarrow> False)"
| "holds d v (AtLeast n) = (case v of ENumber r \<Rightarrow> of_int n \<le> r | _ \<Rightarrow> False)"
| "holds d v (AtMost n) = (case v of ENumber r \<Rightarrow> r \<le> of_int n | _ \<Rightarrow> False)"
| "holds d v (MinLength n) = (case v of EString s \<Rightarrow> n \<le> ed_length d s | _ \<Rightarrow> False)"

definition violations :: "env_deps \<Rightarrow> env_field \<Rightarrow> env_value \<Rightarrow> env_constraint list" where
  "violations d f v = (if v = EUndefined \<and> IsOptional \<in> set (ef_constraints f) then [] else filter (\<lambda>c. \<not> holds d v c) (ef_constraints f))"

section \<open>\<open>COMPOSIO_AUTH_CONFIG_IDS\<close>\<close>

datatype unsafe_setting = OpenCors js_string | PlaceholderSecret | UnverifiedTls

datatype env_error =
    InvalidFields "(js_string \<times> env_constraint list) list"
  | InvalidAuthConfig js_string
  | DuplicateAuthConfig js_string
  | MissingMailSettings "js_string list"
  | VerificationOff
  | UnsafeSettings "unsafe_setting list"

fun split_char :: "16 word \<Rightarrow> js_string \<Rightarrow> js_string list" where
  "split_char c [] = [[]]"
| "split_char c (x # xs) =
     (if x = c then [] # split_char c xs
      else case split_char c xs of [] \<Rightarrow> [[x]] | y # ys \<Rightarrow> (x # y) # ys)"

text \<open>One step of the loop; an own property that is present is a duplicate, and \<open>__proto__\<close> makes none.\<close>

definition add_auth_config :: "js_string \<Rightarrow> (js_string \<times> js_string) list \<Rightarrow> env_error + (js_string \<times> js_string) list" where
  "add_auth_config pair m =
     (case map trim (split_char 58 pair) of
        [provider, i] \<Rightarrow>
          (if provider = [] \<or> i = [] then Inl (InvalidAuthConfig pair)
           else if provider \<in> set (map fst m) then Inl (DuplicateAuthConfig provider)
           else if provider = js ''__proto__'' then Inr m
           else Inr (m @ [(provider, i)]))
      | _ \<Rightarrow> Inl (InvalidAuthConfig pair))"

fun add_auth_configs :: "js_string list \<Rightarrow> (js_string \<times> js_string) list \<Rightarrow> env_error + (js_string \<times> js_string) list" where
  "add_auth_configs [] m = Inr m"
| "add_auth_configs (p # ps) m = (case add_auth_config p m of Inl e \<Rightarrow> Inl e | Inr m' \<Rightarrow> add_auth_configs ps m')"

definition parse_auth_config_ids :: "js_string \<Rightarrow> env_error + (js_string \<times> js_string) list" where
  "parse_auth_config_ids value =
     (let raw = trim value in
      if raw = [] then Inr []
      else add_auth_configs (filter (\<lambda>p. p \<noteq> []) (map trim (split_char 44 raw))) [])"

section \<open>\<open>validate\<close>\<close>

definition read_env :: "env_deps \<Rightarrow> env_config \<Rightarrow> js_string \<Rightarrow> env_value" where
  "read_env d cfg name = (case find (\<lambda>f. ef_name f = name) env_schema of None \<Rightarrow> EUndefined | Some f \<Rightarrow> load_field d cfg f)"

definition invalid_fields :: "env_deps \<Rightarrow> env_config \<Rightarrow> (js_string \<times> env_constraint list) list" where
  "invalid_fields d cfg =
     filter (\<lambda>(_, cs). cs \<noteq> []) (map (\<lambda>f. (ef_name f, violations d f (load_field d cfg f))) env_schema)"

text \<open>A text value; \<open>the_string\<close> is used where the schema has made sure of it.\<close>

fun the_string :: "env_value \<Rightarrow> js_string" where
  "the_string (EString s) = s"
| "the_string _ = []"

definition deployed :: "js_string \<Rightarrow> bool" where
  "deployed tier \<longleftrightarrow> tier = js ''staging'' \<or> tier = js ''production''"

text \<open>\<open>postgresSslTierViolation\<close>.\<close>

definition tls_tier_violation :: "js_string \<Rightarrow> bool \<Rightarrow> bool" where
  "tls_tier_violation tier reject_unauthorized \<longleftrightarrow> \<not> reject_unauthorized \<and> deployed tier"

definition missing_mail :: "(js_string \<Rightarrow> env_value) \<Rightarrow> js_string list" where
  "missing_mail env = filter (\<lambda>k. trim (the_string (env k)) = []) (map js [''RESEND_API_KEY'', ''EMAIL_FROM'', ''APP_BASE_URL''])"

definition unsafe_settings :: "(js_string \<Rightarrow> env_value) \<Rightarrow> unsafe_setting list" where
  "unsafe_settings env =
     map OpenCors (filter (\<lambda>k. trim (the_string (env k)) \<in> set [[], js ''*'']) (map js [''CORS_ORIGIN'', ''WS_CORS_ORIGIN''])) @
     (if env (js ''JWT_SECRET'') = EString jwt_secret_placeholder then [PlaceholderSecret] else []) @
     (if tls_tier_violation (the_string (env (js ''NODE_ENV''))) (env (js ''POSTGRES_SSL_REJECT_UNAUTHORIZED'') = EBool True)
      then [UnverifiedTls] else [])"

definition check_tier :: "env_deps \<Rightarrow> env_config \<Rightarrow> (js_string \<Rightarrow> env_value) \<Rightarrow> env_error + (js_string \<Rightarrow> env_value)" where
  "check_tier d cfg env =
     (if missing_mail env \<noteq> [] then Inl (MissingMailSettings (missing_mail env))
      else if (case cfg (js ''EMAIL_VERIFICATION_REQUIRED'') of None \<Rightarrow> False
               | Some raw \<Rightarrow> blank_to_undefined raw \<noteq> EUndefined \<and> \<not> parse_true d raw) then Inl VerificationOff
      else let env' = env(js ''EMAIL_VERIFICATION_REQUIRED'' := EBool True) in
           if unsafe_settings env' \<noteq> [] then Inl (UnsafeSettings (unsafe_settings env')) else Inr env')"

definition validate_env :: "env_deps \<Rightarrow> env_config \<Rightarrow> env_error + (js_string \<Rightarrow> env_value)" where
  "validate_env d cfg =
     (if invalid_fields d cfg \<noteq> [] then Inl (InvalidFields (invalid_fields d cfg))
      else
        (let env = read_env d cfg in
         case parse_auth_config_ids (the_string (env (js ''COMPOSIO_AUTH_CONFIG_IDS''))) of
           Inl e \<Rightarrow> Inl e
         | Inr _ \<Rightarrow> (if deployed (the_string (env (js ''NODE_ENV''))) then check_tier d cfg env else Inr env)))"

text \<open>The TypeORM data source of the command line, and the options of the connection.\<close>

definition assert_postgres_ssl_safe :: "env_deps \<Rightarrow> js_string \<Rightarrow> js_string option \<Rightarrow> bool" where
  "assert_postgres_ssl_safe d tier raw =
     (case parse_reject_unauthorized d raw of None \<Rightarrow> False | Some b \<Rightarrow> \<not> tls_tier_violation tier b)"

definition postgres_ssl_options :: "env_deps \<Rightarrow> js_string \<Rightarrow> js_string option \<Rightarrow> bool option option" where
  "postgres_ssl_options d ssl raw = (if parse_true d ssl then Some (parse_reject_unauthorized d raw) else None)"

section \<open>The schema holds\<close>

lemmas env_fields = database_fields_def access_fields_def engine_fields_def ai_fields_def delivery_fields_def

lemma env_var_sel [simp]:
  "ef_name (env_var n ty tr dflt cs) = js n" "ef_type (env_var n ty tr dflt cs) = ty"
  "ef_transform (env_var n ty tr dflt cs) = tr" "ef_default (env_var n ty tr dflt cs) = dflt"
  "ef_constraints (env_var n ty tr dflt cs) = cs"
  by (simp_all add: env_var_def)

lemma env_names_distinct: "distinct (map ef_name env_schema)"
  by (simp add: env_schema_def env_fields)

lemma find_by_name: "distinct (map ef_name fs) \<Longrightarrow> f \<in> set fs \<Longrightarrow> find (\<lambda>g. ef_name g = ef_name f) fs = Some f"
  by (induction fs) (auto simp: image_iff)

lemma read_env_field: "f \<in> set env_schema \<Longrightarrow> read_env d cfg (ef_name f) = load_field d cfg f"
  by (simp add: read_env_def find_by_name [OF env_names_distinct])

lemma validE:
  assumes "validate_env d cfg = Inr env"
  obtains "invalid_fields d cfg = []" and "deployed (the_string (read_env d cfg (js ''NODE_ENV''))) \<Longrightarrow> check_tier d cfg (read_env d cfg) = Inr env"
    and "\<not> deployed (the_string (read_env d cfg (js ''NODE_ENV''))) \<Longrightarrow> env = read_env d cfg"
  using assms that by (auto simp: validate_env_def Let_def split: if_splits sum.splits)

lemma no_violations:
  assumes "invalid_fields d cfg = []" and "f \<in> set env_schema"
  shows "violations d f (read_env d cfg (ef_name f)) = []"
  using assms by (fastforce simp: invalid_fields_def filter_empty_conv read_env_field)

lemma check_tierD:
  assumes "check_tier d cfg env0 = Inr env"
  shows "env = env0(js ''EMAIL_VERIFICATION_REQUIRED'' := EBool True)" and "unsafe_settings env = []" and "missing_mail env0 = []"
  using assms by (auto simp: check_tier_def Let_def split: if_splits)

lemma valid_env_cases:
  assumes "validate_env d cfg = Inr env"
  shows "env = read_env d cfg \<or> env = (read_env d cfg)(js ''EMAIL_VERIFICATION_REQUIRED'' := EBool True)"
  using assms by (elim validE) (metis check_tierD(1))

lemma schema_of_verification:
  "f \<in> set env_schema \<Longrightarrow> ef_name f = js ''EMAIL_VERIFICATION_REQUIRED'' \<Longrightarrow> set (ef_constraints f) = {IsOptional, IsBoolean}"
  by (simp add: env_schema_def env_fields) (elim disjE; simp)


text \<open>C26: A deployed tier never boots with unsafe settings: on staging and production the two CORS origins are set and
  not a wildcard, the JWT secret has at least 32 characters and is not the published placeholder, database
  certificates are verified, e-mail verification is required and the mail settings are there.\<close>

theorem deployed_env_is_safe:
  assumes "validate_env d cfg = Inr env" and "deployed (the_string (env (js ''NODE_ENV'')))"
  shows "trim (the_string (env (js ''CORS_ORIGIN''))) \<notin> {[], js ''*''} \<and> trim (the_string (env (js ''WS_CORS_ORIGIN''))) \<notin> {[], js ''*''} \<and>
    (\<exists>secret. env (js ''JWT_SECRET'') = EString secret \<and> secret \<noteq> jwt_secret_placeholder \<and> 32 \<le> ed_length d secret) \<and>
    env (js ''POSTGRES_SSL_REJECT_UNAUTHORIZED'') = EBool True \<and> env (js ''EMAIL_VERIFICATION_REQUIRED'') = EBool True \<and>
    trim (the_string (env (js ''RESEND_API_KEY''))) \<noteq> [] \<and> trim (the_string (env (js ''EMAIL_FROM''))) \<noteq> [] \<and>
    trim (the_string (env (js ''APP_BASE_URL''))) \<noteq> []"
proof -
  let ?env = "read_env d cfg"
  have same: "env k = ?env k" if "k \<noteq> js ''EMAIL_VERIFICATION_REQUIRED''" for k
    using valid_env_cases [OF assms(1)] that by auto
  then have "deployed (the_string (?env (js ''NODE_ENV'')))" using assms(2) by simp
  with assms(1) have tier: "check_tier d cfg ?env = Inr env" and ok: "invalid_fields d cfg = []" by (auto elim: validE)
  note t = check_tierD [OF tier]
  have "env_var ''JWT_SECRET'' TString Plain EUndefined [IsString, IsNotEmpty, MinLength 32] \<in> set env_schema"
    by (simp add: env_schema_def access_fields_def)
  from no_violations [OF ok this] obtain secret where s: "?env (js ''JWT_SECRET'') = EString secret" "32 \<le> ed_length d secret"
    by (auto simp: violations_def split: env_value.splits if_splits)
  have cors: "trim (the_string (env (js ''CORS_ORIGIN''))) \<notin> {[], js ''*''}" "trim (the_string (env (js ''WS_CORS_ORIGIN''))) \<notin> {[], js ''*''}"
    using t(2) by (auto simp: unsafe_settings_def split: if_splits)
  have secret: "env (js ''JWT_SECRET'') \<noteq> EString jwt_secret_placeholder" using t(2) by (auto simp: unsafe_settings_def)
  have tls: "env (js ''POSTGRES_SSL_REJECT_UNAUTHORIZED'') = EBool True"
    using t(2) assms(2) by (auto simp: unsafe_settings_def tls_tier_violation_def split: if_splits)
  have mail: "trim (the_string (?env (js ''RESEND_API_KEY''))) \<noteq> []" "trim (the_string (?env (js ''EMAIL_FROM''))) \<noteq> []"
    "trim (the_string (?env (js ''APP_BASE_URL''))) \<noteq> []"
    using t(3) by (auto simp: missing_mail_def split: if_splits)
  have verified: "env (js ''EMAIL_VERIFICATION_REQUIRED'') = EBool True" by (simp add: t(1))
  have secret': "env (js ''JWT_SECRET'') = EString secret" using s(1) same by simp
  have mail': "env (js ''RESEND_API_KEY'') = ?env (js ''RESEND_API_KEY'')" "env (js ''EMAIL_FROM'') = ?env (js ''EMAIL_FROM'')"
    "env (js ''APP_BASE_URL'') = ?env (js ''APP_BASE_URL'')" using same by simp_all
  show ?thesis using cors secret secret' s(2) tls mail mail' verified by auto
qed

section \<open>Witnesses\<close>

definition demo_env_deps :: env_deps where
  "demo_env_deps = \<lparr>ed_number = (\<lambda>_. Some 1), ed_lower = id, ed_length = length, ed_is_url = (\<lambda>_. True),
     ed_url = (\<lambda>_. Some ([], []))\<rparr>"

text \<open>Every variable holds the same long text but four of them.\<close>

definition demo_text :: js_string where
  "demo_text = js ''0123456789abcdef0123456789abcdef''"

definition demo_env :: env_config where
  "demo_env k = Some (if k = js ''NODE_ENV'' then js ''production'' else if k = js ''COMPOSIO_AUTH_CONFIG_IDS'' then js ''notion:ac''
     else if k = js ''EMAIL_VERIFICATION_REQUIRED'' \<or> k = js ''POSTGRES_SSL_REJECT_UNAUTHORIZED'' then js ''true'' else demo_text)"

lemma demo_texts:
  "trim demo_text = demo_text" "demo_text \<noteq> []" "\<not> str_includes demo_text (js ''?'')" "\<not> str_includes demo_text (js ''#'')"
  "demo_text \<noteq> js ''*''" "demo_text \<noteq> jwt_secret_placeholder" "length demo_text = 32" "trim (js ''true'') = js ''true''"
  by code_simp+

lemma is_integer_numeral [simp]: "is_integer (numeral n)" "is_integer 1" "is_integer 0"
  by (simp_all add: is_integer_def)

lemma demo_env_fields: "invalid_fields demo_env_deps demo_env = []"
  by (simp add: invalid_fields_def env_schema_def env_fields violations_def load_field_def convert_def demo_env_def
      demo_env_deps_def blank_to_undefined_def parse_reject_unauthorized_def app_base_url_ok_def node_envs_def demo_texts)

lemma demo_read:
  assumes "f \<in> set env_schema" "ef_type f = TString" "ef_transform f = Plain \<or> ef_transform f = BlankToUndefined"
    and "ef_name f \<notin> {js ''NODE_ENV'', js ''COMPOSIO_AUTH_CONFIG_IDS''}"
    and "ef_name f \<notin> {js ''EMAIL_VERIFICATION_REQUIRED'', js ''POSTGRES_SSL_REJECT_UNAUTHORIZED''}"
  shows "read_env demo_env_deps demo_env (ef_name f) = EString demo_text"
  using assms by (auto simp: read_env_field load_field_def convert_def demo_env_def blank_to_undefined_def demo_texts)

lemma demo_reads:
  "read_env demo_env_deps demo_env (js ''NODE_ENV'') = EString (js ''production'')"
  "read_env demo_env_deps demo_env (js ''COMPOSIO_AUTH_CONFIG_IDS'') = EString (js ''notion:ac'')"
  "read_env demo_env_deps demo_env (js ''POSTGRES_SSL_REJECT_UNAUTHORIZED'') = EBool True"
  by (simp_all add: read_env_def env_schema_def env_fields load_field_def convert_def demo_env_def demo_env_deps_def
      parse_reject_unauthorized_def demo_texts)

lemma demo_reads_text:
  "read_env demo_env_deps demo_env (js ''CORS_ORIGIN'') = EString demo_text"
  "read_env demo_env_deps demo_env (js ''WS_CORS_ORIGIN'') = EString demo_text"
  "read_env demo_env_deps demo_env (js ''JWT_SECRET'') = EString demo_text"
  "read_env demo_env_deps demo_env (js ''RESEND_API_KEY'') = EString demo_text"
  "read_env demo_env_deps demo_env (js ''EMAIL_FROM'') = EString demo_text"
  "read_env demo_env_deps demo_env (js ''APP_BASE_URL'') = EString demo_text"
  using demo_read [of "env_var ''CORS_ORIGIN'' TString Plain (EString (js ''*'')) [IsOptional, IsString]"]
    demo_read [of "env_var ''WS_CORS_ORIGIN'' TString Plain (EString (js ''*'')) [IsOptional, IsString]"]
    demo_read [of "env_var ''JWT_SECRET'' TString Plain EUndefined [IsString, IsNotEmpty, MinLength 32]"]
    demo_read [of "env_var ''RESEND_API_KEY'' TString BlankToUndefined EUndefined [IsOptional, IsString]"]
    demo_read [of "env_var ''EMAIL_FROM'' TString BlankToUndefined EUndefined [IsOptional, IsString]"]
    demo_read [of "env_var ''APP_BASE_URL'' TString BlankToUndefined EUndefined [IsOptional, IsAppBaseUrl, IsUrl]"]
  by (simp_all add: env_schema_def access_fields_def delivery_fields_def)

lemma demo_env_valid: "validate_env demo_env_deps demo_env =
    Inr ((read_env demo_env_deps demo_env)(js ''EMAIL_VERIFICATION_REQUIRED'' := EBool True))"
proof -
  have parsed: "parse_auth_config_ids (js ''notion:ac'') = Inr [(js ''notion'', js ''ac'')]" by code_simp
  have raw: "demo_env (js ''EMAIL_VERIFICATION_REQUIRED'') = Some (js ''true'')" by (simp add: demo_env_def)
  have on: "parse_true demo_env_deps (js ''true'')" by (simp add: parse_true_def demo_env_deps_def)
  let ?env = "(read_env demo_env_deps demo_env)(js ''EMAIL_VERIFICATION_REQUIRED'' := EBool True)"
  have "missing_mail (read_env demo_env_deps demo_env) = []" by (simp add: missing_mail_def demo_reads_text demo_texts)
  moreover have "unsafe_settings ?env = []"
    by (simp add: unsafe_settings_def demo_reads demo_reads_text demo_texts tls_tier_violation_def)
  ultimately show ?thesis
    by (simp add: validate_env_def demo_env_fields demo_reads parsed deployed_def check_tier_def raw on Let_def)
qed


theorem deployed_env_is_safe_witness:
  "\<exists>env. validate_env demo_env_deps demo_env = Inr env \<and> env (js ''EMAIL_VERIFICATION_REQUIRED'') = EBool True \<and>
    env (js ''JWT_SECRET'') \<noteq> EString jwt_secret_placeholder"
  using deployed_env_is_safe [OF demo_env_valid] demo_env_valid by (auto simp: demo_reads deployed_def)

section \<open>The provider map\<close>

definition clean_id :: "js_string \<Rightarrow> bool" where
  "clean_id s \<longleftrightarrow> s \<noteq> [] \<and> trim s = s \<and> 58 \<notin> set s \<and> 44 \<notin> set s"

definition auth_pair :: "js_string \<times> js_string \<Rightarrow> js_string" where
  "auth_pair kv = fst kv @ [58] @ snd kv"

lemma split_char_none: "c \<notin> set s \<Longrightarrow> split_char c s = [s]"
  by (induction s) auto

lemma split_char_append: "c \<notin> set s \<Longrightarrow> split_char c (s @ c # t) = s # split_char c t"
  by (induction s) auto

lemma split_char_join: "ps \<noteq> [] \<Longrightarrow> \<forall>p \<in> set ps. c \<notin> set p \<Longrightarrow> split_char c (join [c] ps) = ps"
  by (induction "[c]" ps rule: join.induct) (simp_all add: split_char_none split_char_append)

lemma join_ends:
  "ps \<noteq> [] \<Longrightarrow> \<forall>p \<in> set ps. p \<noteq> [] \<Longrightarrow> join sep ps \<noteq> [] \<and> hd (join sep ps) = hd (hd ps) \<and> last (join sep ps) = last (last ps)"
  by (induction sep ps rule: join.induct) auto

lemma trim_auth_pair: "clean_id (fst kv) \<Longrightarrow> clean_id (snd kv) \<Longrightarrow> trim (auth_pair kv) = auth_pair kv"
  by (auto simp: auth_pair_def trim_fixed_iff clean_id_def hd_append last_append)

lemma add_auth_config_clean:
  assumes "clean_id (fst kv)" "clean_id (snd kv)" and "fst kv \<notin> set (map fst m)" "fst kv \<noteq> js ''__proto__''"
  shows "add_auth_config (auth_pair kv) m = Inr (m @ [kv])"
proof -
  have "split_char 58 (auth_pair kv) = [fst kv, snd kv]"
    using assms(1,2) by (simp add: auth_pair_def clean_id_def split_char_append split_char_none)
  then show ?thesis using assms by (simp add: add_auth_config_def clean_id_def)
qed

lemma add_auth_configs_clean:
  assumes "list_all (\<lambda>kv. clean_id (fst kv) \<and> clean_id (snd kv) \<and> fst kv \<noteq> js ''__proto__'') kvs" and "distinct (map fst (m @ kvs))"
  shows "add_auth_configs (map auth_pair kvs) m = Inr (m @ kvs)"
  using assms
proof (induction kvs arbitrary: m)
  case (Cons kv kvs)
  then have "add_auth_config (auth_pair kv) m = Inr (m @ [kv])" by (intro add_auth_config_clean) auto
  with Cons.IH [of "m @ [kv]"] Cons.prems show ?case by simp
qed simp

text \<open>C28: The provider map is read back as it was written: providers and ids that are free of separators and surrounding
  blanks, with no provider twice, are the map that boot reads, in their order.\<close>

theorem auth_config_ids_roundtrip:
  assumes "list_all (\<lambda>kv. clean_id (fst kv) \<and> clean_id (snd kv) \<and> fst kv \<noteq> js ''__proto__'') kvs" and "distinct (map fst kvs)"
  shows "parse_auth_config_ids (join [44] (map auth_pair kvs)) = Inr kvs"
proof (cases kvs)
  case Nil
  then show ?thesis by (simp add: parse_auth_config_ids_def trim_def trim_start_def trim_end_def)
next
  case (Cons kv rest)
  let ?ps = "map auth_pair kvs" and ?raw = "join [44] (map auth_pair kvs)"
  have clean: "clean_id (fst x)" "clean_id (snd x)" if "x \<in> set kvs" for x using assms(1) that by (auto simp: list_all_iff)
  have split: "split_char 44 ?raw = ?ps"
    using clean Cons by (intro split_char_join) (auto simp: auth_pair_def clean_id_def)
  have raw: "?raw \<noteq> []" "hd ?raw = hd (fst kv)" "last ?raw = last (snd (last kvs))"
    using join_ends [of ?ps "[44]"] clean Cons by (auto simp: auth_pair_def clean_id_def last_map hd_append split: if_splits)
  have ends: "\<not> js_ws (hd x) \<and> \<not> js_ws (last x)" if "clean_id x" for x
    using that by (simp add: clean_id_def trim_fixed_iff [THEN iffD1])
  have "kv \<in> set kvs" "last kvs \<in> set kvs" using Cons by simp_all
  with ends clean have "\<not> js_ws (hd (fst kv))" "\<not> js_ws (last (snd (last kvs)))" by blast+
  with raw(2,3) have "trim ?raw = ?raw" by (intro trim_idI) simp_all
  moreover have "filter (\<lambda>p. p \<noteq> []) (map trim ?ps) = ?ps"
  proof -
    have "map trim ?ps = ?ps" using clean by (simp add: trim_auth_pair map_idI)
    moreover have "filter (\<lambda>p. p \<noteq> []) ?ps = ?ps" by (simp add: filter_id_conv auth_pair_def)
    ultimately show ?thesis by (simp only:)
  qed
  ultimately show ?thesis
    using add_auth_configs_clean [of kvs "[]"] assms raw(1) by (simp add: parse_auth_config_ids_def split)
qed

theorem auth_config_ids_roundtrip_witness:
  "parse_auth_config_ids (join [44] (map auth_pair [(js ''trello'', js ''ac''), (js ''notion'', js ''ad'')])) =
    Inr [(js ''trello'', js ''ac''), (js ''notion'', js ''ad'')]"
proof (rule auth_config_ids_roundtrip)
  have "clean_id (js s)" if "s \<in> set [''trello'', ''notion'', ''ac'', ''ad'']" for s
    using that by (auto simp: clean_id_def trim_fixed_iff js_def js_ws_def)
  then show "list_all (\<lambda>kv. clean_id (fst kv) \<and> clean_id (snd kv) \<and> fst kv \<noteq> js ''__proto__'')
      [(js ''trello'', js ''ac''), (js ''notion'', js ''ad'')]" by simp
qed simp

end
