(* ===== verification/Spec2Isabelle.thy ===== *)
theory Spec2Isabelle
  imports PlanningProtocol PlanningTypes PlanningSockets DocumentVersions Templates Suggestions Leads Gamification AuditTrail EnvValidation
begin

text \<open>
  MemoFlow API: a model of its application core.

  \<^bold>\<open>The program.\<close> A NestJS service (\<open>src/src\<close>) in layers: \<open>domain\<close> (entities, ports, pure
  functions), \<open>application\<close> (one use-case class per operation), \<open>infrastructure\<close> (TypeORM and Mongoose
  repositories, BullMQ and RabbitMQ adapters, Redis, the LLM provider) and \<open>presentation\<close>
  (controllers, WebSocket gateway). Users write documents made of ordered sections, save versions of
  them, apply templates, connect third-party accounts, and submit planning jobs: a job waits in a
  queue, a worker claims it and either gathers and plans at once (legacy transport) or publishes a
  gather request, whose result chunks come back over RabbitMQ, against a timeout.

  \<^bold>\<open>Conventions.\<close> Every repository is an explicit state (a map for MongoDB and Redis, a list of rows
  for PostgreSQL), every use-case a function from inputs and state to a result and the new state.
  \<open>Inl\<close> is a thrown error, \<open>Inr\<close> a returned value. What other requests do while an operation
  awaits is a function on the state (\<open>meanwhile\<close> and similarly named fields), over which the
  lemmas quantify. The answer of a service that is not in the repository (queue, broker, Composio,
  provider, bcrypt, SHA-256, clock, id generators) is a parameter. A JavaScript string is a list of 16-bit code units.

  \<^bold>\<open>Theories.\<close>
  \<^item> \<open>Prelude\<close>, \<open>JsText\<close>, \<open>Events\<close>, \<open>AppErrors\<close>: strings, JSON, HTTP errors, emitted events, the
    typed errors with their stored message and code (\<open>planning-errors.ts\<close>, \<open>planning-prompt.ts\<close>).
  \<^item> \<open>Stores\<close>: the guarded document update (\<open>findOneAndUpdate\<close>) and the SQL updates, with two
    interfaces: \<open>guarded_updates\<close>, a group of writes that compete for one state (at most one of
    them wins), and \<open>owner_scoped\<close>, operations that refuse everybody but the owner with the
    answer for a row that does not exist. They are interpreted on the planning-job repository and
    on the document use-cases.
  \<^item> \<open>PlanningJobs\<close>: the job document and \<open>PlanningJobMongooseRepository\<close>; each claim is won once.
  \<^item> \<open>PlanningSubmit\<close>: \<open>SubmitPlanningJobUseCase\<close>; an accepted job is bound to the caller's own data.
  \<^item> \<open>PlanningRun\<close>: \<open>ProcessPlanningJobUseCase\<close> and \<open>runClaimedPlanning\<close>; consent before every
    provider call, fixed texts only, the job ends.
  \<^item> \<open>PlanningResults\<close>: chunks, timeout, relay, job reads.
  \<^item> \<open>PlanningProtocol\<close>: the interleavings of all of these as a step relation, its invariant, and what
    holds of every reachable state.
  \<^item> \<open>PlanningTypes\<close>: the shape of a stored job in each status, kept by every planning use-case.
  \<^item> \<open>SessionEvents\<close>, \<open>PlanningGateway\<close>, \<open>PlanningSockets\<close>: the WebSocket gateway
    (\<open>planning.gateway.ts\<close>) with its handshake, expiry timers, eviction and relays, one operation per
    block between two awaits; their interleavings with the account operations as a step relation;
    a live socket belongs to an account that is still admitted, events reach their owner only, and a
    subscription answers what the live relay sent.
  \<^item> \<open>PromptGuards\<close>, \<open>PromptRender\<close>: fence tags of untrusted text, the leak check
    (\<open>prompt-guards.ts\<close>) and template rendering (\<open>prompt-render.ts\<close>).
  \<^item> \<open>PlanningSources\<close>: the candidates of a planning prompt and the input budget
    (\<open>planning-sources.ts\<close>); the rendered context is within the budget and free of fence tags in its parts.
  \<^item> \<open>PlanningPipeline\<close>: citations, the guarded planner call, \<open>PlanningPipeline\<close>, the reply check
    of \<open>GatewayLlmPlanner\<close> and the built-in planning prompt.
  \<^item> \<open>LlmGateway\<close>: \<open>OpenRouterGateway\<close> with its retries and repair, and the planner and generator
    on it; every attempt is metered, their number is bounded, and only fixed texts are thrown.
  \<^item> \<open>Prompts\<close>: versioned prompts, their cache and the admin use-cases; \<open>Suggestions\<close>: generation,
    cache, listing and review of AI suggestions.
  \<^item> \<open>AiQuota\<close>: the Redis script and its UTC day (\<open>redis-ai-quota.ts\<close>); the daily caps hold.
  \<^item> \<open>LoginLimiter\<close>, \<open>Auth\<close>: the login throttle, sessions, emailed tokens, passwords and the request
    guards; a revoked session stays refused, an emailed token works once, and a failed login
    reveals nothing. The single use of a token is an instance of the locale \<open>single_use\<close> of \<open>Stores\<close>.
  \<^item> \<open>AuditTrail\<close>: the audit listener and its table; the trail is complete, and no session ends without a row.
  \<^item> \<open>EnvValidation\<close>: the environment schema and the checks at boot; a deployed tier runs with safe settings.
  \<^item> \<open>UtcDates\<close>, \<open>LeadScores\<close>, \<open>Leads\<close>: the UTC calendar behind date texts (they compare as days, and
    adding months clamps), lead scoring with its repositories, the lead list and its statistics.
  \<^item> \<open>Gamification\<close>: milestones, daily missions and points; the points of a user are a function of
    their events, whatever the order and multiplicity in which the awards run.
  \<^item> \<open>Users\<close>, \<open>Connectors\<close>, \<open>Documents\<close>, \<open>DocumentVersions\<close>, \<open>Templates\<close>: entities,
    repositories and use-cases of these features.

  \<^bold>\<open>Bounds.\<close> No definition needs fuel: loops of the code are recursions over lists or strings; the search for
  the year of a day ends because a year has days.

  \<^bold>\<open>Not modelled.\<close> The regular expressions of \<open>redactSecrets\<close> (a parameter of the prompt guards);
  the HTTP context engine and the full-text retriever (parameters of the pipeline);
  controllers, DTO validation, module wiring, migrations and scripts,
  which hold no state of their own. Stringly typed provider numbers are integers or their text.
\<close>

end
